(* ===== verification/Prelude.thy ===== *)
theory Prelude
  imports Main "HOL-Library.Multiset"
begin

text \<open>
  Shared vocabulary of the development: the collections of rules that the component proofs use,
  facts about tables represented as lists of rows (lookup by key, update by key, distinct keys),
  and about picking the least element of a list.

  A table of the database is a list of rows. \<open>row_lookup\<close> finds the row with a key,
  \<open>row_update\<close> rewrites every row with a key (an \<open>UPDATE ... WHERE id = k\<close>), and
  \<open>distinct (map key rows)\<close> says that the key column is unique.
\<close>

named_theorems tx_simps \<open>evaluation rules of the transaction monad\<close>
named_theorems keeps_intros \<open>introduction rules for preservation of a state predicate\<close>
named_theorems raises_intros \<open>introduction rules for the exceptions a body can raise\<close>

subsection \<open>Python slices and optional values\<close>

text \<open>Python's \<open>s[:n]\<close> for a non-negative \<open>n\<close>.\<close>

definition py_prefix :: "nat \<Rightarrow> string \<Rightarrow> string" where
  "py_prefix n s = take n s"

lemma length_py_prefix [simp]: "length (py_prefix n s) \<le> n"
  by (simp add: py_prefix_def)

lemma py_prefix_short: "length s \<le> n \<Longrightarrow> py_prefix n s = s"
  by (simp add: py_prefix_def)

lemma py_prefix_idem [simp]: "py_prefix n (py_prefix n s) = py_prefix n s"
  by (simp add: py_prefix_def)

subsection \<open>Rows with a key\<close>

definition row_lookup :: "('r \<Rightarrow> 'k) \<Rightarrow> 'r list \<Rightarrow> 'k \<Rightarrow> 'r option" where
  "row_lookup key rows k = List.find (\<lambda>r. key r = k) rows"

definition row_update :: "('r \<Rightarrow> 'k) \<Rightarrow> 'k \<Rightarrow> ('r \<Rightarrow> 'r) \<Rightarrow> 'r list \<Rightarrow> 'r list" where
  "row_update key k f rows = map (\<lambda>r. if key r = k then f r else r) rows"

lemma row_lookup_Some:
  "row_lookup key rows k = Some r \<Longrightarrow> r \<in> set rows \<and> key r = k"
  by (auto simp: row_lookup_def find_Some_iff)

lemma row_lookup_None: "row_lookup key rows k = None \<longleftrightarrow> k \<notin> key ` set rows"
  by (auto simp: row_lookup_def find_None_iff)

lemma row_lookup_in:
  "distinct (map key rows) \<Longrightarrow> r \<in> set rows \<Longrightarrow> row_lookup key rows (key r) = Some r"
  by (induction rows) (auto simp: row_lookup_def rev_image_eqI)

lemma row_lookup_append:
  "row_lookup key (xs @ ys) k =
     (case row_lookup key xs k of None \<Rightarrow> row_lookup key ys k | Some r \<Rightarrow> Some r)"
  by (induction xs) (auto simp: row_lookup_def)

lemma row_lookup_single [simp]:
  "row_lookup key [r] k = (if key r = k then Some r else None)"
  by (simp add: row_lookup_def)

lemma row_lookup_Nil [simp]: "row_lookup key [] k = None"
  by (simp add: row_lookup_def)

lemma row_lookup_update:
  assumes "\<And>r. key (f r) = key r"
  shows "row_lookup key (row_update key k f rows) k' =
           (if k' = k then map_option f (row_lookup key rows k) else row_lookup key rows k')"
  by (induction rows) (auto simp: row_lookup_def row_update_def assms)

lemma map_key_row_update:
  assumes "\<And>r. g (f r) = g r"
  shows "map g (row_update key k f rows) = map g rows"
  by (induction rows) (auto simp: row_update_def assms)

lemma length_row_update [simp]: "length (row_update key k f rows) = length rows"
  by (simp add: row_update_def)

lemma in_row_update:
  "r \<in> set (row_update key k f rows) \<Longrightarrow>
     (r \<in> set rows \<and> key r \<noteq> k) \<or> (\<exists>r0 \<in> set rows. key r0 = k \<and> r = f r0)"
  by (auto simp: row_update_def)

lemma row_update_absent: "k \<notin> key ` set rows \<Longrightarrow> row_update key k f rows = rows"
  by (induction rows) (auto simp: row_update_def)

text \<open>A row that exists and is unique is the row an update with its key rewrites.\<close>

lemma row_update_unique:
  assumes "distinct (map key rows)" and "row_lookup key rows k = Some r0"
    and "r \<in> set (row_update key k f rows)"
  shows "(r \<in> set rows \<and> key r \<noteq> k) \<or> r = f r0"
  using in_row_update [OF assms(3)] row_lookup_in [OF assms(1)] assms(2) by fastforce

lemma filter_row_update_None:
  assumes "\<And>r. key r = k \<Longrightarrow> r \<in> set rows \<Longrightarrow> P (f r) = P r"
    and "\<And>r. key r = k \<Longrightarrow> r \<in> set rows \<Longrightarrow> g (f r) = g r"
  shows "map g (filter P (row_update key k f rows)) = map g (filter P rows)"
  using assms by (induction rows) (auto simp: row_update_def)

lemma rows_by_lookup:
  "distinct (map key rows) \<Longrightarrow>
     (\<forall>r \<in> set rows. P r) \<longleftrightarrow> (\<forall>n r. row_lookup key rows n = Some r \<longrightarrow> P r)"
  by (metis row_lookup_Some row_lookup_in)

text \<open>Looking a row up by one key after an update that selects it by another.\<close>

lemma row_lookup_other_key:
  assumes "distinct (map key rows)" and "row_lookup key' rows n = Some r"
    and "\<And>x. key' (f x) = key' x"
  shows "row_lookup key' (row_update key (key r) f rows) n' =
           (if n' = n then Some (f r) else row_lookup key' rows n')"
  using assms(1,2)
proof (induction rows)
  case (Cons x xs)
  show ?case
  proof (cases "key' x = n")
    case True
    with Cons.prems have "x = r" and "key r \<notin> key ` set xs"
      by (auto simp: row_lookup_def)
    with True show ?thesis
      using row_update_absent [of "key r" key xs f]
      by (auto simp: row_lookup_def row_update_def assms(3))
  next
    case False
    with Cons.prems have r: "row_lookup key' xs n = Some r" by (simp add: row_lookup_def)
    with Cons.prems row_lookup_Some [OF r] have "key x \<noteq> key r" by auto
    with False Cons.IH [OF _ r] Cons.prems show ?thesis
      by (auto simp: row_lookup_def row_update_def)
  qed
qed simp

subsection \<open>Runs of a step relation\<close>

text \<open>\<open>run_steps step xs s t\<close>: the steps labelled \<open>xs\<close>, in this order, lead from \<open>s\<close> to \<open>t\<close>.\<close>

fun run_steps :: "('x \<Rightarrow> 's \<Rightarrow> 's \<Rightarrow> bool) \<Rightarrow> 'x list \<Rightarrow> 's \<Rightarrow> 's \<Rightarrow> bool" where
  "run_steps step [] s t = (s = t)"
| "run_steps step (x # xs) s t = (\<exists>u. step x s u \<and> run_steps step xs u t)"

lemma filter_key_unique:
  "distinct (map f xs) \<Longrightarrow> x \<in> set xs \<Longrightarrow> filter (\<lambda>y. f y = f x) xs = [x]"
proof (induction xs)
  case (Cons y ys)
  show ?case
  proof (cases "f y = f x")
    case True
    with Cons.prems have "y = x" and "\<forall>z \<in> set ys. f z \<noteq> f x"
      by (auto simp: image_iff)
    then show ?thesis by (simp add: filter_empty_conv)
  next
    case False
    with Cons show ?thesis by auto
  qed
qed simp

lemma list_all2_first: "list_all2 P xs ys \<Longrightarrow> x \<in> set xs \<Longrightarrow> \<exists>y \<in> set ys. P x y"
  by (induction rule: list_all2_induct) auto

lemma list_all2_second: "list_all2 P xs ys \<Longrightarrow> y \<in> set ys \<Longrightarrow> \<exists>x \<in> set xs. P x y"
  by (induction rule: list_all2_induct) auto

subsection \<open>The least element of a list\<close>

lemma set_mset_eq: "mset xs = mset ys \<Longrightarrow> set xs = set ys"
  by (metis set_mset_mset)

lemma hd_sort_key_least:
  assumes "xs \<noteq> []"
  shows "hd (sort_key f xs) \<in> set xs \<and> (\<forall>x \<in> set xs. f (hd (sort_key f xs)) \<le> f x)"
proof (cases "sort_key f xs")
  case Nil
  then have "length (sort_key f xs) = 0" by simp
  with assms show ?thesis by simp
next
  case (Cons y ys)
  have "set (sort_key f xs) = set xs" by simp
  moreover have "sorted (map f (sort_key f xs))" by simp
  ultimately show ?thesis using Cons by auto
qed

end
