(* ===== verification/Json.thy ===== *)
theory Json
  imports Prelude Complex_Main "HOL-Library.List_Lexorder" "HOL-Library.Char_ord"
begin

text \<open>
  JSON values as the Python code sees them after \<open>orjson.loads\<close>: \<open>None\<close>, \<open>bool\<close>,
  \<open>int\<close>, \<open>float\<close> (a finite double, here the rational it denotes), \<open>str\<close>,
  \<open>list\<close> and \<open>dict\<close>. A dict is an association list with distinct keys in insertion order.

  Strings are lists of characters and their length is Python's \<open>len\<close>, the number of code
  points; the model names only the first 256 code points.
\<close>

datatype json =
    JNull
  | JBool bool
  | JInt int
  | JFloat rat
  | JStr string
  | JArr "json list"
  | JObj "(string \<times> json) list"

text \<open>\<open>isinstance(payload, dict)\<close>.\<close>

fun is_dict :: "json \<Rightarrow> bool" where
  "is_dict (JObj _) = True"
| "is_dict _ = False"

lemma is_dict_iff: "is_dict j \<longleftrightarrow> (\<exists>d. j = JObj d)"
  by (cases j) auto

text \<open>
  Two values that differ only in the order of the keys of their objects, at any depth. Python's
  \<open>==\<close> on decoded payloads does not distinguish them.
\<close>

inductive key_permuted :: "json \<Rightarrow> json \<Rightarrow> bool" where
  kp_refl: "key_permuted j j"
| kp_arr: "list_all2 key_permuted xs ys \<Longrightarrow> key_permuted (JArr xs) (JArr ys)"
| kp_obj: "mset ys = mset zs \<Longrightarrow> map fst xs = map fst ys \<Longrightarrow>
     list_all2 key_permuted (map snd xs) (map snd ys) \<Longrightarrow>
     key_permuted (JObj xs) (JObj zs)"

lemma key_permuted_obj: "mset xs = mset ys \<Longrightarrow> key_permuted (JObj xs) (JObj ys)"
  by (rule kp_obj [where ys = xs]) (auto intro: kp_refl simp: list_all2_same)

text \<open>The keys of a dict are distinct, at any depth.\<close>

fun wf_json :: "json \<Rightarrow> bool" where
  "wf_json (JArr js) = list_all wf_json js"
| "wf_json (JObj d) = (distinct (map fst d) \<and> list_all (\<lambda>(k, j). wf_json j) d)"
| "wf_json _ = True"

text \<open>The value with the keys of all its objects in order.\<close>

fun sort_keys :: "json \<Rightarrow> json" where
  "sort_keys (JArr js) = JArr (map sort_keys js)"
| "sort_keys (JObj d) = JObj (sort_key fst (map (\<lambda>(k, j). (k, sort_keys j)) d))"
| "sort_keys j = j"

lemma sort_key_mset:
  "mset xs = mset ys \<Longrightarrow> distinct (map f xs) \<Longrightarrow> sort_key f xs = sort_key f ys"
  by (rule sort_key_inj_key_eq) (simp_all add: distinct_map)

lemma map_entries_cong:
  assumes "map fst xs = map fst ys" and "list_all2 (\<lambda>a b. g a = g b) (map snd xs) (map snd ys)"
  shows "map (\<lambda>(k, j). (k, g j)) xs = map (\<lambda>(k, j). (k, g j)) ys"
proof -
  have eq: "map (\<lambda>(k, j). (k, g j)) zs = zip (map fst zs) (map g (map snd zs))" for zs :: "('a \<times> 'b) list"
    by (induction zs) auto
  have "map g (map snd xs) = map g (map snd ys)"
    using assms(2) by (auto simp: list_all2_conv_all_nth intro!: nth_equalityI)
  with assms(1) show ?thesis unfolding eq by simp
qed

lemma sort_keys_permuted: "key_permuted p q \<Longrightarrow> wf_json p \<Longrightarrow> sort_keys p = sort_keys q"
proof (induction rule: key_permuted.induct)
  case (kp_refl j)
  show ?case ..
next
  case (kp_arr xs ys)
  then show ?case
    by (auto simp: list_all2_conv_all_nth list_all_length intro!: nth_equalityI)
next
  case (kp_obj ys zs xs)
  let ?f = "\<lambda>(k, j). (k, sort_keys j)"
  have wf: "list_all wf_json (map snd xs)" using kp_obj.prems by (auto simp: list_all_iff)
  then have "list_all2 (\<lambda>a b. sort_keys a = sort_keys b) (map snd xs) (map snd ys)"
    using kp_obj.IH by (auto simp: list_all2_conv_all_nth list_all_length)
  from map_entries_cong [OF kp_obj.hyps(2) this] have same: "map ?f xs = map ?f ys" .
  have keys: "map fst (map ?f ds) = map fst ds" for ds by (induction ds) auto
  have "sort_key fst (map ?f ys) = sort_key fst (map ?f zs)"
  proof (rule sort_key_mset)
    show "mset (map ?f ys) = mset (map ?f zs)" using kp_obj.hyps(1) by simp
    show "distinct (map fst (map ?f ys))"
      unfolding keys using kp_obj.prems kp_obj.hyps(2) by simp
  qed
  with same show ?case by simp
qed

lemma sort_keys_idem: "sort_keys (sort_keys j) = sort_keys j"
proof (induction j rule: sort_keys.induct)
  case (1 js)
  then show ?case by (simp add: comp_def)
next
  case (2 d)
  let ?L = "sort_key fst (map (\<lambda>(k, j). (k, sort_keys j)) d)"
  have "map (\<lambda>(k, j). (k, sort_keys j)) ?L = ?L" using 2 by (intro map_idI) auto
  then show ?case by (simp add: sort_key_id_if_sorted)
qed simp_all

end
