(* ===== verification/Clock.thy ===== *)
theory Clock
  imports Prelude
begin

text \<open>
  Points in time. A \<open>timestamptz\<close> column and an aware datetime in UTC hold an instant, here the
  number of microseconds since 1970-01-01T00:00Z (\<open>timestamp\<close>, a linear order). A Python
  \<open>datetime\<close> is a wall-clock reading with an optional UTC offset; \<open>_ensure_utc\<close> of
  \<^verbatim>\<open>app/services/normalization.py\<close> turns it into an aware UTC one.
\<close>

datatype timestamp = Ts (micros: int)

instantiation timestamp :: linorder
begin

definition less_eq_timestamp :: "timestamp \<Rightarrow> timestamp \<Rightarrow> bool" where
  "less_eq_timestamp a b = (micros a \<le> micros b)"

definition less_timestamp :: "timestamp \<Rightarrow> timestamp \<Rightarrow> bool" where
  "less_timestamp a b = (micros a < micros b)"

instance
  by standard (auto simp: less_eq_timestamp_def less_timestamp_def timestamp.expand)

end

lemma Ts_le [simp]: "Ts a \<le> Ts b \<longleftrightarrow> a \<le> b"
  by (simp add: less_eq_timestamp_def)

lemma Ts_less [simp]: "Ts a < Ts b \<longleftrightarrow> a < b"
  by (simp add: less_timestamp_def)

subsection \<open>Python datetimes\<close>

text \<open>
  \<open>dt_wall\<close> is the wall-clock reading in microseconds since 1970-01-01T00:00 on that same wall
  clock, \<open>dt_offset\<close> the value of \<open>utcoffset()\<close> in microseconds, \<open>None\<close> for a naive
  datetime. Python's datetimes range from year 1 to year 9999.
\<close>

record datetime =
  dt_wall :: int
  dt_offset :: "int option"

definition datetime_min :: int where
  "datetime_min = - 62135596800 * 1000000"

definition datetime_max :: int where
  "datetime_max = 253402300800 * 1000000 - 1"

definition datetime_in_range :: "int \<Rightarrow> bool" where
  "datetime_in_range w \<longleftrightarrow> datetime_min \<le> w \<and> w \<le> datetime_max"

text \<open>The instant of a datetime; a naive one is read as UTC.\<close>

definition instant :: "datetime \<Rightarrow> timestamp" where
  "instant d = Ts (dt_wall d - (case dt_offset d of None \<Rightarrow> 0 | Some off \<Rightarrow> off))"

text \<open>
  \<open>_ensure_utc\<close>: a naive datetime gets UTC attached; an aware one is converted by
  \<open>astimezone\<close>, which subtracts the offset and raises \<open>OverflowError\<close> when the result is
  outside the representable years. \<open>None\<close> stands for that exception.
\<close>

definition ensure_utc :: "datetime \<Rightarrow> datetime option" where
  "ensure_utc d =
     (case dt_offset d of
        None \<Rightarrow> Some (d\<lparr>dt_offset := Some 0\<rparr>)
      | Some off \<Rightarrow>
          let w = dt_wall d - off in
          if datetime_in_range w then Some \<lparr>dt_wall = w, dt_offset = Some 0\<rparr> else None)"

lemma ensure_utc_instant: "ensure_utc d = Some u \<Longrightarrow> instant u = instant d"
  by (auto simp: ensure_utc_def instant_def Let_def split: option.splits if_splits)

lemma ensure_utc_offset: "ensure_utc d = Some u \<Longrightarrow> dt_offset u = Some 0"
  by (auto simp: ensure_utc_def Let_def split: option.splits if_splits)

lemma ensure_utc_idem:
  "ensure_utc d = Some u \<Longrightarrow> datetime_in_range (dt_wall d) \<Longrightarrow> ensure_utc u = Some u"
  by (cases d) (auto simp: ensure_utc_def Let_def split: option.splits if_splits)

lemma ensure_utc_None_iff:
  "ensure_utc d = None \<longleftrightarrow>
     (\<exists>off. dt_offset d = Some off \<and> \<not> datetime_in_range (dt_wall d - off))"
  by (auto simp: ensure_utc_def Let_def split: option.splits)

subsection \<open>Offsets from a clock reading\<close>

text \<open>
  \<open>datetime.now(tz=UTC) - timedelta(minutes=m)\<close>, with the same overflow rule.
\<close>

definition minutes_before :: "int \<Rightarrow> timestamp \<Rightarrow> timestamp option" where
  "minutes_before m t =
     (let w = micros t - m * 60 * 1000000 in
      if datetime_in_range w then Some (Ts w) else None)"

lemma minutes_before_mono:
  "minutes_before m t = Some a \<Longrightarrow> minutes_before m t' = Some b \<Longrightarrow> t \<le> t' \<Longrightarrow> a \<le> b"
  by (auto simp: minutes_before_def Let_def less_eq_timestamp_def split: if_splits)

end
