(* ===== verification/Effects.thy ===== *)
theory Effects
  imports Prelude
begin

text \<open>
  Effects of the code: Python exceptions as values, a transaction body as a function from the
  database state to a result and the state it leaves, and \<open>session_scope\<close> of
  \<^verbatim>\<open>app/core/db.py\<close>, which commits the state a body leaves or rolls it back. The second half
  models the module's process-wide engine and session factory.
\<close>

subsection \<open>Exceptions\<close>

text \<open>
  A pydantic \<open>ValidationError\<close> carries one entry per failed field: where it is
  (\<open>loc\<close>) and the kind of failure (\<open>type\<close>). \<open>DataError\<close> and \<open>IntegrityError\<close> are
  what SQLAlchemy raises when Postgres rejects a value (too long for its column) or a constraint.
  \<open>OtherError\<close> is any other exception, for instance of the LLM client or of the connection.
\<close>

datatype loc = LKey string | LIdx nat

datatype verror = VError (ve_loc: "loc list") (ve_type: string)

datatype exn =
    PersistError string
  | RetryNotFoundError nat
  | RetryRefusedError string string
  | ValidationError "verror list"
  | HTTPException nat string
  | DataError string
  | IntegrityError string
  | OverflowError
  | JSONEncodeError
  | NoResultFound
  | MultipleResultsFound
  | OtherError string

subsection \<open>Transaction bodies\<close>

text \<open>
  A body that raises leaves the partial writes it made in the state it returns: discarding them is
  the business of the transaction around it.
\<close>

type_synonym ('s, 'a) tx = "'s \<Rightarrow> (exn + 'a) \<times> 's"

definition tx_return :: "'a \<Rightarrow> ('s, 'a) tx" where
  "tx_return x = (\<lambda>s. (Inr x, s))"

definition tx_raise :: "exn \<Rightarrow> ('s, 'a) tx" where
  "tx_raise e = (\<lambda>s. (Inl e, s))"

definition tx_bind :: "('s, 'a) tx \<Rightarrow> ('a \<Rightarrow> ('s, 'b) tx) \<Rightarrow> ('s, 'b) tx" where
  "tx_bind m f = (\<lambda>s. case m s of (Inl e, s') \<Rightarrow> (Inl e, s') | (Inr x, s') \<Rightarrow> f x s')"

definition tx_read :: "('s \<Rightarrow> 'a) \<Rightarrow> ('s, 'a) tx" where
  "tx_read g = (\<lambda>s. (Inr (g s), s))"

definition tx_modify :: "('s \<Rightarrow> 's) \<Rightarrow> ('s, unit) tx" where
  "tx_modify h = (\<lambda>s. (Inr (), h s))"

definition tx_require :: "bool \<Rightarrow> exn \<Rightarrow> ('s, unit) tx" where
  "tx_require b e = (if b then tx_return () else tx_raise e)"

lemma tx_return_apply [simp, tx_simps]: "tx_return x s = (Inr x, s)"
  by (simp add: tx_return_def)

lemma tx_raise_apply [simp, tx_simps]: "tx_raise e s = (Inl e, s)"
  by (simp add: tx_raise_def)

lemma tx_read_apply [simp, tx_simps]: "tx_read g s = (Inr (g s), s)"
  by (simp add: tx_read_def)

lemma tx_modify_apply [simp, tx_simps]: "tx_modify h s = (Inr (), h s)"
  by (simp add: tx_modify_def)

lemma tx_require_apply [simp, tx_simps]:
  "tx_require b e s = (if b then Inr () else Inl e, s)"
  by (simp add: tx_require_def)

lemma tx_bind_apply [tx_simps]:
  "tx_bind m f s = (case m s of (Inl e, s') \<Rightarrow> (Inl e, s') | (Inr x, s') \<Rightarrow> f x s')"
  by (simp add: tx_bind_def)

text \<open>\<open>try: m except Exception as e: h(e)\<close>.\<close>

definition tx_try :: "('s, 'a) tx \<Rightarrow> (exn \<Rightarrow> ('s, 'a) tx) \<Rightarrow> ('s, 'a) tx" where
  "tx_try m h = (\<lambda>s. case m s of (Inl e, s') \<Rightarrow> h e s' | (Inr x, s') \<Rightarrow> (Inr x, s'))"

lemma tx_try_apply [tx_simps]:
  "tx_try m h s = (case m s of (Inl e, s') \<Rightarrow> h e s' | (Inr x, s') \<Rightarrow> (Inr x, s'))"
  by (simp add: tx_try_def)

lemma tx_bind_Inr: "m s = (Inr x, s') \<Longrightarrow> tx_bind m f s = f x s'"
  by (simp add: tx_bind_def)

lemma tx_bind_Inl: "m s = (Inl e, s') \<Longrightarrow> tx_bind m f s = (Inl e, s')"
  by (simp add: tx_bind_def)

lemma tx_bind_assoc: "tx_bind (tx_bind m f) g = tx_bind m (\<lambda>x. tx_bind (f x) g)"
  by (auto simp: tx_bind_def fun_eq_iff split: prod.splits sum.splits)

lemma tx_bind_success:
  "tx_bind m f s = (Inr y, t) \<longleftrightarrow> (\<exists>x s'. m s = (Inr x, s') \<and> f x s' = (Inr y, t))"
  by (auto simp: tx_bind_def split: prod.splits sum.splits)

subsection \<open>Preservation of a predicate of the state\<close>

text \<open>
  \<open>keeps I m\<close>: whether \<open>m\<close> returns or raises, the state it leaves satisfies \<open>I\<close> if the state
  it started from did. The rules below reduce a body to its statements.
\<close>

definition keeps :: "('s \<Rightarrow> bool) \<Rightarrow> ('s, 'a) tx \<Rightarrow> bool" where
  "keeps I m \<longleftrightarrow> (\<forall>s. I s \<longrightarrow> I (snd (m s)))"

lemma keepsI: "(\<And>s. I s \<Longrightarrow> I (snd (m s))) \<Longrightarrow> keeps I m"
  by (simp add: keeps_def)

lemma keepsD: "keeps I m \<Longrightarrow> I s \<Longrightarrow> I (snd (m s))"
  by (simp add: keeps_def)

lemma keeps_return [keeps_intros]: "keeps I (tx_return x)"
  by (simp add: keeps_def)

lemma keeps_raise [keeps_intros]: "keeps I (tx_raise e)"
  by (simp add: keeps_def)

lemma keeps_read [keeps_intros]: "keeps I (tx_read g)"
  by (simp add: keeps_def)

lemma keeps_require [keeps_intros]: "keeps I (tx_require b e)"
  by (simp add: keeps_def)

lemma keeps_bind [keeps_intros]:
  "keeps I m \<Longrightarrow> (\<And>x. keeps I (f x)) \<Longrightarrow> keeps I (tx_bind m f)"
  by (fastforce simp: keeps_def tx_bind_def split: prod.splits sum.splits)

lemma keeps_try [keeps_intros]:
  "keeps I m \<Longrightarrow> (\<And>e. keeps I (h e)) \<Longrightarrow> keeps I (tx_try m h)"
  by (fastforce simp: keeps_def tx_try_def split: prod.splits sum.splits)

lemma keeps_if [keeps_intros]:
  "(b \<Longrightarrow> keeps I m) \<Longrightarrow> (\<not> b \<Longrightarrow> keeps I m') \<Longrightarrow> keeps I (if b then m else m')"
  by simp

lemma keeps_option [keeps_intros]:
  "keeps I m \<Longrightarrow> (\<And>x. keeps I (f x)) \<Longrightarrow> keeps I (case z of None \<Rightarrow> m | Some x \<Rightarrow> f x)"
  by (cases z) auto

lemma keeps_sum [keeps_intros]:
  "(\<And>x. keeps I (f x)) \<Longrightarrow> (\<And>y. keeps I (g y)) \<Longrightarrow>
     keeps I (case z of Inl x \<Rightarrow> f x | Inr y \<Rightarrow> g y)"
  by (cases z) auto

subsection \<open>The exceptions a body can raise\<close>

definition raises_only :: "(exn \<Rightarrow> bool) \<Rightarrow> ('s, 'a) tx \<Rightarrow> bool" where
  "raises_only Q m \<longleftrightarrow> (\<forall>s e. fst (m s) = Inl e \<longrightarrow> Q e)"

lemma raises_onlyI: "(\<And>s e s'. m s = (Inl e, s') \<Longrightarrow> Q e) \<Longrightarrow> raises_only Q m"
  by (metis raises_only_def prod.collapse)

lemma raises_onlyD: "raises_only Q m \<Longrightarrow> fst (m s) = Inl e \<Longrightarrow> Q e"
  by (simp add: raises_only_def)

lemma raises_return [raises_intros]: "raises_only Q (tx_return x)"
  by (simp add: raises_only_def)

lemma raises_raise [raises_intros]: "Q e \<Longrightarrow> raises_only Q (tx_raise e)"
  by (simp add: raises_only_def)

lemma raises_read [raises_intros]: "raises_only Q (tx_read g)"
  by (simp add: raises_only_def)

lemma raises_bind [raises_intros]:
  assumes "raises_only Q m" and "\<And>x. raises_only Q (f x)"
  shows "raises_only Q (tx_bind m f)"
proof (rule raises_onlyI)
  fix s e s'
  assume run: "tx_bind m f s = (Inl e, s')"
  show "Q e"
  proof (cases "m s")
    case (Pair out t)
    then have "out = Inl e \<or> (\<exists>x. fst (f x t) = Inl e)"
      using run by (cases out) (auto simp: tx_bind_def intro: exI [of _ "projr out"])
    then show ?thesis
    proof (elim disjE exE)
      assume "out = Inl e"
      with Pair show "Q e" by (intro raises_onlyD [OF assms(1), of s]) simp
    next
      fix x assume "fst (f x t) = Inl e"
      then show "Q e" by (rule raises_onlyD [OF assms(2)])
    qed
  qed
qed

lemma raises_option [raises_intros]:
  "(z = None \<Longrightarrow> raises_only Q m) \<Longrightarrow> (\<And>x. z = Some x \<Longrightarrow> raises_only Q (f x)) \<Longrightarrow>
     raises_only Q (case z of None \<Rightarrow> m | Some x \<Rightarrow> f x)"
  by (simp split: option.split)

subsection \<open>session_scope\<close>

text \<open>
  \<open>session_scope\<close>: run the body, commit, and on any exception of the body or of the commit roll
  back and re-raise. \<open>commit_fault\<close> is the exception the commit raises, if it does.
\<close>

definition session_scope :: "exn option \<Rightarrow> ('s, 'a) tx \<Rightarrow> ('s, 'a) tx" where
  "session_scope commit_fault body = (\<lambda>s.
     case body s of
       (Inl e, _) \<Rightarrow> (Inl e, s)
     | (Inr x, s') \<Rightarrow> (case commit_fault of None \<Rightarrow> (Inr x, s') | Some e \<Rightarrow> (Inl e, s)))"

lemma session_scope_raises: "session_scope cf body s = (Inl e, t) \<Longrightarrow> t = s"
  by (auto simp: session_scope_def split: prod.splits sum.splits option.splits)

lemma session_scope_returns:
  "session_scope cf body s = (Inr x, t) \<longleftrightarrow> cf = None \<and> body s = (Inr x, t)"
  by (auto simp: session_scope_def split: prod.splits sum.splits option.splits)

lemma session_scope_None:
  "session_scope None body s = (case body s of (Inl e, _) \<Rightarrow> (Inl e, s) | (Inr x, t) \<Rightarrow> (Inr x, t))"
  by (simp add: session_scope_def split: prod.splits sum.splits)

lemma keeps_session_scope [keeps_intros]: "keeps I body \<Longrightarrow> keeps I (session_scope cf body)"
  by (fastforce simp: keeps_def session_scope_def split: prod.splits sum.splits option.splits)

text \<open>All or nothing: the state afterwards is the one before, or the one the body left on success.\<close>

lemma session_scope_atomic:
  "snd (session_scope cf body s) = s \<or>
     (\<exists>x. session_scope cf body s = (Inr x, snd (body s)) \<and> fst (body s) = Inr x)"
  by (auto simp: session_scope_def split: prod.splits sum.splits option.splits)

lemma session_scope_either: "Q s \<Longrightarrow> Q (snd (body s)) \<Longrightarrow> Q (snd (session_scope cf body s))"
  by (auto simp: session_scope_def split: prod.splits sum.splits option.splits)

subsection \<open>The process-wide engine and session factory\<close>

text \<open>
  The module globals \<open>_engine\<close> and \<open>_session_factory\<close>. An engine is identified by the number of
  engines created before it; a session factory by the engine it is bound to. \<open>disposed\<close> lists the
  engines whose connection pools were closed.
\<close>

record db_globals =
  engine :: "nat option"
  session_factory :: "nat option"
  engines_created :: nat
  disposed :: "nat list"

definition get_engine :: "db_globals \<Rightarrow> nat \<times> db_globals" where
  "get_engine g =
     (case engine g of
        Some e \<Rightarrow> (e, g)
      | None \<Rightarrow> (engines_created g,
                  g\<lparr>engine := Some (engines_created g), engines_created := Suc (engines_created g)\<rparr>))"

definition get_session_factory :: "db_globals \<Rightarrow> nat \<times> db_globals" where
  "get_session_factory g =
     (case session_factory g of
        Some f \<Rightarrow> (f, g)
      | None \<Rightarrow> (let (e, g') = get_engine g in (e, g'\<lparr>session_factory := Some e\<rparr>)))"

definition dispose_engine :: "db_globals \<Rightarrow> db_globals" where
  "dispose_engine g =
     (case engine g of
        None \<Rightarrow> g
      | Some e \<Rightarrow> g\<lparr>disposed := e # disposed g, engine := None, session_factory := None\<rparr>)"

datatype engine_op = GetEngine | GetSessionFactory | DisposeEngine

fun engine_step :: "db_globals \<Rightarrow> engine_op \<Rightarrow> db_globals" where
  "engine_step g GetEngine = snd (get_engine g)"
| "engine_step g GetSessionFactory = snd (get_session_factory g)"
| "engine_step g DisposeEngine = dispose_engine g"

definition initial_globals :: db_globals where
  "initial_globals = \<lparr>engine = None, session_factory = None, engines_created = 0, disposed = []\<rparr>"

text \<open>
  A session factory is always bound to the current engine, and the current engine is not disposed.
\<close>

definition globals_ok :: "db_globals \<Rightarrow> bool" where
  "globals_ok g \<longleftrightarrow>
     (\<forall>f. session_factory g = Some f \<longrightarrow> engine g = Some f) \<and>
     (\<forall>e. engine g = Some e \<longrightarrow> e \<notin> set (disposed g)) \<and>
     {..<engines_created g} = set (disposed g) \<union> set_option (engine g)"

lemma globals_ok_initial: "globals_ok initial_globals"
  by (simp add: globals_ok_def initial_globals_def)

lemma globals_ok_below: "globals_ok g \<Longrightarrow> e \<in> set (disposed g) \<Longrightarrow> e < engines_created g"
  unfolding globals_ok_def by blast

lemma globals_ok_get_engine: "globals_ok g \<Longrightarrow> globals_ok (snd (get_engine g))"
  using globals_ok_below [of g "engines_created g"]
  by (auto simp: globals_ok_def get_engine_def lessThan_Suc split: option.split)

lemma globals_ok_step: "globals_ok g \<Longrightarrow> globals_ok (engine_step g op)"
proof (cases op)
  case GetEngine
  moreover assume "globals_ok g"
  ultimately show ?thesis by (simp add: globals_ok_get_engine)
next
  case GetSessionFactory
  moreover assume ok: "globals_ok g"
  moreover have "engine (snd (get_engine g)) = Some (fst (get_engine g))"
    by (simp add: get_engine_def split: option.split)
  ultimately show ?thesis
    using globals_ok_get_engine [OF ok]
    by (cases "get_engine g") (simp add: globals_ok_def get_session_factory_def split: option.split)
next
  case DisposeEngine
  moreover assume "globals_ok g"
  ultimately show ?thesis
    by (auto simp: globals_ok_def dispose_engine_def split: option.split)
qed

lemma globals_ok_sessions:
  assumes "globals_ok g"
  shows "fst (get_session_factory g) = fst (get_engine g) \<and> fst (get_engine g) \<notin> set (disposed g) \<and>
    {..<engines_created g} = set (disposed g) \<union> set_option (engine g)"
proof (intro conjI)
  show "fst (get_session_factory g) = fst (get_engine g)"
    using assms by (auto simp: globals_ok_def get_session_factory_def get_engine_def split: option.split)
  show "fst (get_engine g) \<notin> set (disposed g)"
    using assms globals_ok_below [OF assms, of "engines_created g"]
    by (auto simp: globals_ok_def get_engine_def split: option.split)
  show "{..<engines_created g} = set (disposed g) \<union> set_option (engine g)"
    using assms by (simp add: globals_ok_def)
qed

lemma globals_ok_run: "globals_ok g \<Longrightarrow> globals_ok (foldl engine_step g ops)"
  by (induction ops arbitrary: g) (auto simp: globals_ok_step)

end
