(* ===== verification/Store.thy ===== *)
theory Store
  imports Json Clock Effects
begin

text \<open>
  The five tables of \<^verbatim>\<open>app/core/models.py\<close> and the SQL statements the services run on them.

  A table is the list of its rows. Columns the database fills in by itself take their value from
  arguments: \<open>gen_random_uuid()\<close> from a \<open>uuid\<close>, \<open>now()\<close> from a timestamp. A statement
  checks what Postgres checks: the width of \<open>VARCHAR\<close> and \<open>INTEGER\<close> columns (\<open>DataError\<close>),
  primary keys, unique constraints and indexes, and foreign keys (\<open>IntegrityError\<close>).
\<close>

type_synonym uuid = nat

subsection \<open>Rows\<close>

datatype raw_status = Pending | Processing | Processed | Failed | Duplicate

fun status_text :: "raw_status \<Rightarrow> string" where
  "status_text Pending = ''pending''"
| "status_text Processing = ''processing''"
| "status_text Processed = ''processed''"
| "status_text Failed = ''failed''"
| "status_text Duplicate = ''duplicate''"

lemma status_text_inject [simp]: "status_text a = status_text b \<longleftrightarrow> a = b"
  by (cases a; cases b) auto

lemma status_text_fits: "length (status_text a) \<le> 16"
  by (cases a) auto

record raw_event =
  re_id :: uuid
  re_vendor_hint :: string
  re_payload :: json
  re_received_at :: timestamp
  re_hash_exact :: string
  re_duplicate_of_id :: "uuid option"
  re_status :: raw_status
  re_attempts :: int
  re_last_error :: "string option"
  re_locked_at :: "timestamp option"
  re_processed_at :: "timestamp option"

text \<open>\<open>Shipment\<close> and \<open>Invoice\<close> have the same columns.\<close>

record entity =
  en_id :: uuid
  en_vendor :: string
  en_external_ref :: string
  en_current_state :: "string option"
  en_last_event_at :: "timestamp option"
  en_attributes :: json
  en_created_at :: timestamp
  en_updated_at :: timestamp

text \<open>\<open>ShipmentEvent\<close> and \<open>InvoiceEvent\<close> have the same columns.\<close>

record entity_event =
  ev_id :: uuid
  ev_entity_id :: uuid
  ev_raw_event_id :: uuid
  ev_canonical_state :: string
  ev_event_at :: timestamp
  ev_vendor_milestone :: "string option"
  ev_attributes :: json
  ev_created_at :: timestamp

record db =
  raw_events :: "raw_event list"
  shipments :: "entity list"
  shipment_events :: "entity_event list"
  invoices :: "entity list"
  invoice_events :: "entity_event list"

definition empty_db :: db where
  "empty_db = \<lparr>raw_events = [], shipments = [], shipment_events = [],
               invoices = [], invoice_events = []\<rparr>"

text \<open>
  The pair \<open>(entity_model, event_model)\<close> a statement is built for: \<open>(Shipment, ShipmentEvent)\<close>
  or \<open>(Invoice, InvoiceEvent)\<close>.
\<close>

datatype entity_kind = ShipmentKind | InvoiceKind

lemma all_kinds: "(\<forall>k. P k) \<longleftrightarrow> P ShipmentKind \<and> P InvoiceKind"
  by (metis entity_kind.exhaust)

fun entities :: "entity_kind \<Rightarrow> db \<Rightarrow> entity list" where
  "entities ShipmentKind d = shipments d"
| "entities InvoiceKind d = invoices d"

fun set_entities :: "entity_kind \<Rightarrow> entity list \<Rightarrow> db \<Rightarrow> db" where
  "set_entities ShipmentKind es d = d\<lparr>shipments := es\<rparr>"
| "set_entities InvoiceKind es d = d\<lparr>invoices := es\<rparr>"

fun entity_events :: "entity_kind \<Rightarrow> db \<Rightarrow> entity_event list" where
  "entity_events ShipmentKind d = shipment_events d"
| "entity_events InvoiceKind d = invoice_events d"

fun set_entity_events :: "entity_kind \<Rightarrow> entity_event list \<Rightarrow> db \<Rightarrow> db" where
  "set_entity_events ShipmentKind es d = d\<lparr>shipment_events := es\<rparr>"
| "set_entity_events InvoiceKind es d = d\<lparr>invoice_events := es\<rparr>"

lemma entities_set_entities [simp]:
  "entities k (set_entities k' es d) = (if k = k' then es else entities k d)"
  by (cases k; cases k') auto

lemma entities_set_entity_events [simp]: "entities k (set_entity_events k' es d) = entities k d"
  by (cases k; cases k') auto

lemma entity_events_set_entities [simp]:
  "entity_events k (set_entities k' es d) = entity_events k d"
  by (cases k; cases k') auto

lemma entity_events_set_entity_events [simp]:
  "entity_events k (set_entity_events k' es d) = (if k = k' then es else entity_events k d)"
  by (cases k; cases k') auto

lemma raw_events_set_entities [simp]: "raw_events (set_entities k es d) = raw_events d"
  by (cases k) auto

lemma raw_events_set_entity_events [simp]: "raw_events (set_entity_events k es d) = raw_events d"
  by (cases k) auto

lemma entities_raw_events_update [simp]: "entities k (d\<lparr>raw_events := rs\<rparr>) = entities k d"
  by (cases k) auto

lemma entity_events_raw_events_update [simp]:
  "entity_events k (d\<lparr>raw_events := rs\<rparr>) = entity_events k d"
  by (cases k) auto

lemma set_entities_self [simp]: "set_entities k (entities k d) d = d"
  by (cases k) auto

lemma set_entity_events_self [simp]: "set_entity_events k (entity_events k d) d = d"
  by (cases k) auto

lemma set_entities_twice [simp]: "set_entities k es (set_entities k es' d) = set_entities k es d"
  by (cases k) auto

lemma set_entity_events_twice [simp]:
  "set_entity_events k es (set_entity_events k es' d) = set_entity_events k es d"
  by (cases k) auto

subsection \<open>The interface of a table with a primary key\<close>

text \<open>
  What \<open>session.get\<close>, an \<open>INSERT\<close> and an \<open>UPDATE ... WHERE id = k\<close> rely on: the rows of a table
  can be read and replaced, independently of the rest of the state. The laws below hold for each of
  the five tables.
\<close>

locale keyed_table =
  fixes rows :: "'d \<Rightarrow> 'r list"
    and set_rows :: "'r list \<Rightarrow> 'd \<Rightarrow> 'd"
    and key :: "'r \<Rightarrow> 'k"
  assumes rows_set_rows: "rows (set_rows rs d) = rs"
    and set_rows_rows: "set_rows (rows d) d = d"
begin

lemma get_after_insert:
  assumes "key r \<notin> key ` set (rows d)"
  shows "row_lookup key (rows (set_rows (rows d @ [r]) d)) k =
           (if k = key r then Some r else row_lookup key (rows d) k)"
  using assms row_lookup_None [of key "rows d" "key r"]
  by (cases "row_lookup key (rows d) k") (auto simp: rows_set_rows row_lookup_append)

lemma get_after_update:
  assumes "\<And>r. key (f r) = key r"
  shows "row_lookup key (rows (set_rows (row_update key k f (rows d)) d)) k' =
           (if k' = k then map_option f (row_lookup key (rows d) k) else row_lookup key (rows d) k')"
  using assms by (simp add: rows_set_rows row_lookup_update)

lemma keys_after_update:
  assumes "\<And>r. key (f r) = key r"
  shows "map key (rows (set_rows (row_update key k f (rows d)) d)) = map key (rows d)"
  using assms by (simp add: rows_set_rows map_key_row_update)

lemma distinct_after_insert:
  assumes "distinct (map key (rows d))" and "key r \<notin> key ` set (rows d)"
  shows "distinct (map key (rows (set_rows (rows d @ [r]) d)))"
  using assms by (simp add: rows_set_rows)

lemma update_missing:
  assumes "row_lookup key (rows d) k = None"
  shows "set_rows (row_update key k f (rows d)) d = d"
  using assms by (simp add: row_lookup_None row_update_absent set_rows_rows)

end

definition set_raw_events :: "raw_event list \<Rightarrow> db \<Rightarrow> db" where
  "set_raw_events rs d = d\<lparr>raw_events := rs\<rparr>"

interpretation raw_table: keyed_table raw_events set_raw_events re_id
  by unfold_locales (auto simp: set_raw_events_def)

interpretation entity_table: keyed_table "entities k" "set_entities k" en_id for k
  by unfold_locales auto

interpretation event_table: keyed_table "entity_events k" "set_entity_events k" ev_id for k
  by unfold_locales auto

lemma raw_events_set_raw_events [simp]: "raw_events (set_raw_events rs d) = rs"
  by (simp add: set_raw_events_def)

lemma entities_set_raw_events [simp]: "entities k (set_raw_events rs d) = entities k d"
  by (simp add: set_raw_events_def)

lemma tables_set_raw_events [simp]:
  "shipments (set_raw_events rs d) = shipments d" "shipment_events (set_raw_events rs d) = shipment_events d"
  "invoices (set_raw_events rs d) = invoices d" "invoice_events (set_raw_events rs d) = invoice_events d"
  by (simp_all add: set_raw_events_def)

lemma entity_events_set_raw_events [simp]:
  "entity_events k (set_raw_events rs d) = entity_events k d"
  by (simp add: set_raw_events_def)

subsection \<open>Column types and constraints\<close>

text \<open>\<open>VARCHAR(n)\<close> holds at most \<open>n\<close> characters, \<open>INTEGER\<close> a signed 32-bit value.\<close>

definition varchar :: "nat \<Rightarrow> string \<Rightarrow> bool" where
  "varchar n s \<longleftrightarrow> length s \<le> n"

fun varchar_opt :: "nat \<Rightarrow> string option \<Rightarrow> bool" where
  "varchar_opt n None = True"
| "varchar_opt n (Some s) = varchar n s"

definition int4 :: "int \<Rightarrow> bool" where
  "int4 n \<longleftrightarrow> - (2 ^ 31) \<le> n \<and> n < 2 ^ 31"

text \<open>The typed columns of \<open>RawEvent\<close>, of \<open>Shipment\<close>/\<open>Invoice\<close> and of their events.\<close>

definition raw_fits :: "raw_event \<Rightarrow> bool" where
  "raw_fits r \<longleftrightarrow> varchar 64 (re_vendor_hint r) \<and> varchar 64 (re_hash_exact r) \<and>
     varchar 16 (status_text (re_status r)) \<and> int4 (re_attempts r) \<and>
     varchar_opt 2048 (re_last_error r)"

definition entity_fits :: "entity \<Rightarrow> bool" where
  "entity_fits e \<longleftrightarrow> varchar 64 (en_vendor e) \<and> varchar 128 (en_external_ref e) \<and>
     varchar_opt 32 (en_current_state e)"

definition event_fits :: "entity_event \<Rightarrow> bool" where
  "event_fits v \<longleftrightarrow> varchar 32 (ev_canonical_state v) \<and> varchar_opt 512 (ev_vendor_milestone v)"

lemma varchar_py_prefix [simp]: "m \<le> n \<Longrightarrow> varchar n (py_prefix m s)"
  unfolding varchar_def by (rule order_trans [OF length_py_prefix])

lemma varchar_status_text [simp]: "varchar 16 (status_text a)"
  by (simp add: varchar_def status_text_fits)

text \<open>
  A primary raw event is one with \<open>duplicate_of_id IS NULL\<close>: the rows the partial unique index
  \<open>uq_raw_events_primary_per_hash\<close> on \<open>(vendor_hint, hash_exact)\<close> covers.
\<close>

definition is_primary :: "raw_event \<Rightarrow> bool" where
  "is_primary r \<longleftrightarrow> re_duplicate_of_id r = None"

definition dedup_key :: "raw_event \<Rightarrow> string \<times> string" where
  "dedup_key r = (re_vendor_hint r, re_hash_exact r)"

definition primaries :: "db \<Rightarrow> raw_event list" where
  "primaries d = filter is_primary (raw_events d)"

definition natural_key :: "entity \<Rightarrow> string \<times> string" where
  "natural_key e = (en_vendor e, en_external_ref e)"

text \<open>
  What the schema guarantees of every committed state: column widths, primary keys, the unique
  constraints and the foreign keys.
\<close>

definition raw_schema_ok :: "db \<Rightarrow> bool" where
  "raw_schema_ok d \<longleftrightarrow>
     (\<forall>r \<in> set (raw_events d). raw_fits r) \<and>
     distinct (map re_id (raw_events d)) \<and>
     distinct (map dedup_key (primaries d)) \<and>
     (\<forall>r \<in> set (raw_events d). \<forall>p. re_duplicate_of_id r = Some p \<longrightarrow>
        p \<in> re_id ` set (raw_events d))"

definition kind_schema_ok :: "entity_kind \<Rightarrow> db \<Rightarrow> bool" where
  "kind_schema_ok k d \<longleftrightarrow>
     (\<forall>e \<in> set (entities k d). entity_fits e) \<and>
     distinct (map en_id (entities k d)) \<and>
     distinct (map natural_key (entities k d)) \<and>
     (\<forall>v \<in> set (entity_events k d). event_fits v) \<and>
     distinct (map ev_id (entity_events k d)) \<and>
     distinct (map ev_raw_event_id (entity_events k d)) \<and>
     (\<forall>v \<in> set (entity_events k d).
        ev_entity_id v \<in> en_id ` set (entities k d) \<and>
        ev_raw_event_id v \<in> re_id ` set (raw_events d))"

definition schema_ok :: "db \<Rightarrow> bool" where
  "schema_ok d \<longleftrightarrow> raw_schema_ok d \<and> (\<forall>k. kind_schema_ok k d)"

lemma schema_ok_empty: "schema_ok empty_db"
  by (simp add: schema_ok_def raw_schema_ok_def kind_schema_ok_def empty_db_def primaries_def
      all_kinds)

subsection \<open>Statements on raw_events\<close>

text \<open>
  A row as \<open>INSERT\<close> builds it from the given columns and the server defaults
  (\<open>gen_random_uuid()\<close>, \<open>now()\<close>, \<open>attempts = 0\<close>).
\<close>

definition new_raw_event ::
    "uuid \<Rightarrow> timestamp \<Rightarrow> string \<Rightarrow> json \<Rightarrow> string \<Rightarrow> uuid option \<Rightarrow> raw_status \<Rightarrow> raw_event" where
  "new_raw_event new_id db_now vendor_hint payload h dup_of st =
     \<lparr>re_id = new_id, re_vendor_hint = vendor_hint, re_payload = payload, re_received_at = db_now,
      re_hash_exact = h, re_duplicate_of_id = dup_of, re_status = st, re_attempts = 0,
      re_last_error = None, re_locked_at = None, re_processed_at = None\<rparr>"

definition insert_raw :: "raw_event \<Rightarrow> (db, uuid) tx" where
  "insert_raw r = (\<lambda>d.
     if \<not> raw_fits r then (Inl (DataError ''raw_events''), d)
     else if re_id r \<in> re_id ` set (raw_events d)
       then (Inl (IntegrityError ''raw_events_pkey''), d)
     else if is_primary r \<and> dedup_key r \<in> dedup_key ` set (primaries d)
       then (Inl (IntegrityError ''uq_raw_events_primary_per_hash''), d)
     else if \<not> (case re_duplicate_of_id r of None \<Rightarrow> True | Some p \<Rightarrow> p \<in> re_id ` set (raw_events d))
       then (Inl (IntegrityError ''raw_events_duplicate_of_id_fkey''), d)
     else (Inr (re_id r), set_raw_events (raw_events d @ [r]) d))"

text \<open>
  \<open>INSERT ... ON CONFLICT (vendor_hint, hash_exact) WHERE duplicate_of_id IS NULL DO NOTHING
  RETURNING id\<close>: no row is returned on a conflict in that index; any other violation still raises.
\<close>

definition insert_raw_or_nothing :: "raw_event \<Rightarrow> (db, uuid option) tx" where
  "insert_raw_or_nothing r = (\<lambda>d.
     if \<not> raw_fits r then (Inl (DataError ''raw_events''), d)
     else if is_primary r \<and> dedup_key r \<in> dedup_key ` set (primaries d) then (Inr None, d)
     else tx_bind (insert_raw r) (\<lambda>i. tx_return (Some i)) d)"

text \<open>\<open>session.get(RawEvent, id)\<close>.\<close>

definition get_raw :: "uuid \<Rightarrow> (db, raw_event option) tx" where
  "get_raw i = tx_read (\<lambda>d. row_lookup re_id (raw_events d) i)"

text \<open>
  Flushing the attribute changes \<open>f\<close> made to a loaded row: an \<open>UPDATE ... WHERE id = i\<close> whose new
  column values must fit.
\<close>

definition update_raw :: "uuid \<Rightarrow> (raw_event \<Rightarrow> raw_event) \<Rightarrow> (db, unit) tx" where
  "update_raw i f = (\<lambda>d.
     if \<exists>r \<in> set (raw_events d). re_id r = i \<and> \<not> raw_fits (f r)
     then (Inl (DataError ''raw_events''), d)
     else (Inr (), set_raw_events (row_update re_id i f (raw_events d)) d))"

subsection \<open>Statements on shipments, invoices and their events\<close>

text \<open>
  \<open>INSERT ... ON CONFLICT (vendor, external_ref) DO UPDATE SET updated_at = now RETURNING id\<close>.
  A new row has no current state yet.
\<close>

definition new_entity :: "uuid \<Rightarrow> timestamp \<Rightarrow> string \<Rightarrow> string \<Rightarrow> json \<Rightarrow> entity" where
  "new_entity new_id db_now vendor ref attrs =
     \<lparr>en_id = new_id, en_vendor = vendor, en_external_ref = ref, en_current_state = None,
      en_last_event_at = None, en_attributes = attrs, en_created_at = db_now,
      en_updated_at = db_now\<rparr>"

definition upsert_entity ::
    "entity_kind \<Rightarrow> timestamp \<Rightarrow> entity \<Rightarrow> (db, uuid) tx" where
  "upsert_entity k now e = (\<lambda>d.
     if \<not> entity_fits e then (Inl (DataError ''entities''), d)
     else (case row_lookup natural_key (entities k d) (natural_key e) of
         Some old \<Rightarrow>
           (Inr (en_id old),
            set_entities k
              (row_update en_id (en_id old) (\<lambda>x. x\<lparr>en_updated_at := now\<rparr>) (entities k d)) d)
       | None \<Rightarrow>
           if en_id e \<in> en_id ` set (entities k d) then (Inl (IntegrityError ''entities_pkey''), d)
           else (Inr (en_id e), set_entities k (entities k d @ [e]) d)))"

text \<open>\<open>INSERT ... ON CONFLICT (raw_event_id) DO NOTHING\<close>.\<close>

definition insert_event_or_nothing :: "entity_kind \<Rightarrow> entity_event \<Rightarrow> (db, unit) tx" where
  "insert_event_or_nothing k v = (\<lambda>d.
     if \<not> event_fits v then (Inl (DataError ''entity_events''), d)
     else if ev_raw_event_id v \<in> ev_raw_event_id ` set (entity_events k d) then (Inr (), d)
     else if ev_id v \<in> ev_id ` set (entity_events k d)
       then (Inl (IntegrityError ''entity_events_pkey''), d)
     else if ev_entity_id v \<notin> en_id ` set (entities k d)
       then (Inl (IntegrityError ''entity_id_fkey''), d)
     else if ev_raw_event_id v \<notin> re_id ` set (raw_events d)
       then (Inl (IntegrityError ''raw_event_id_fkey''), d)
     else (Inr (), set_entity_events k (entity_events k d @ [v]) d))"

text \<open>
  \<open>UPDATE ... SET current_state, last_event_at, attributes, updated_at WHERE id = i AND
  (last_event_at IS NULL OR last_event_at < event_at)\<close>.
\<close>

definition is_newer :: "timestamp \<Rightarrow> entity \<Rightarrow> bool" where
  "is_newer t e \<longleftrightarrow> (case en_last_event_at e of None \<Rightarrow> True | Some l \<Rightarrow> l < t)"

definition advance :: "string \<Rightarrow> timestamp \<Rightarrow> json \<Rightarrow> timestamp \<Rightarrow> entity \<Rightarrow> entity" where
  "advance state t attrs now e =
     (if is_newer t e
      then e\<lparr>en_current_state := Some state, en_last_event_at := Some t,
             en_attributes := attrs, en_updated_at := now\<rparr>
      else e)"

definition advance_entity ::
    "entity_kind \<Rightarrow> uuid \<Rightarrow> string \<Rightarrow> timestamp \<Rightarrow> json \<Rightarrow> timestamp \<Rightarrow> (db, unit) tx" where
  "advance_entity k i state t attrs now = (\<lambda>d.
     if \<exists>e \<in> set (entities k d). en_id e = i \<and> \<not> entity_fits (advance state t attrs now e)
     then (Inl (DataError ''entities''), d)
     else (Inr (), set_entities k
             (row_update en_id i (advance state t attrs now) (entities k d)) d))"

lemma advance_columns [simp]:
  "en_id (advance st t a n e) = en_id e"
  "en_vendor (advance st t a n e) = en_vendor e"
  "en_external_ref (advance st t a n e) = en_external_ref e"
  "en_created_at (advance st t a n e) = en_created_at e"
  "natural_key (advance st t a n e) = natural_key e"
  by (auto simp: advance_def natural_key_def)

subsection \<open>Every statement keeps the schema\<close>

text \<open>An attribute change that leaves the columns in keys and indexes alone.\<close>

definition keeps_identity :: "(raw_event \<Rightarrow> raw_event) \<Rightarrow> bool" where
  "keeps_identity f \<longleftrightarrow>
     (\<forall>r. re_id (f r) = re_id r \<and> dedup_key (f r) = dedup_key r \<and>
          re_duplicate_of_id (f r) = re_duplicate_of_id r)"

lemma keeps_identityD:
  assumes "keeps_identity f"
  shows "re_id (f r) = re_id r" "dedup_key (f r) = dedup_key r"
    "re_duplicate_of_id (f r) = re_duplicate_of_id r" "is_primary (f r) = is_primary r"
  using assms by (auto simp: keeps_identity_def is_primary_def)

lemma schema_insert_raw [keeps_intros]: "keeps schema_ok (insert_raw r)"
  by (rule keepsI)
     (auto simp: insert_raw_def schema_ok_def raw_schema_ok_def kind_schema_ok_def primaries_def
        split: option.splits)

lemma schema_insert_raw_or_nothing [keeps_intros]: "keeps schema_ok (insert_raw_or_nothing r)"
proof (rule keepsI)
  fix d assume d: "schema_ok d"
  have "keeps schema_ok (tx_bind (insert_raw r) (\<lambda>i. tx_return (Some i)))"
    by (intro keeps_intros)
  from keepsD [OF this d] d show "schema_ok (snd (insert_raw_or_nothing r d))"
    by (simp add: insert_raw_or_nothing_def)
qed

lemma keeps_get_raw [keeps_intros]: "keeps I (get_raw i)"
  by (simp add: get_raw_def keeps_intros)

lemma primaries_row_update:
  assumes "keeps_identity f"
  shows "map dedup_key (filter is_primary (row_update re_id i f rows)) =
         map dedup_key (filter is_primary rows)"
  using keeps_identityD [OF assms] by (intro filter_row_update_None) auto

lemma raw_schema_row_update:
  assumes f: "keeps_identity f" and d: "raw_schema_ok d"
    and fits: "\<And>r. r \<in> set (raw_events d) \<Longrightarrow> re_id r = i \<Longrightarrow> raw_fits (f r)"
  shows "raw_schema_ok (set_raw_events (row_update re_id i f (raw_events d)) d)"
proof -
  note fid = keeps_identityD [OF f]
  have ids: "map re_id (row_update re_id i f (raw_events d)) = map re_id (raw_events d)"
    by (rule map_key_row_update) (rule fid)
  then have ids': "re_id ` set (row_update re_id i f (raw_events d)) = re_id ` set (raw_events d)"
    by (metis list.set_map)
  show ?thesis
    using d fits unfolding raw_schema_ok_def primaries_def
    by (auto simp: ids ids' primaries_row_update [OF f] fid dest!: in_row_update)
qed

lemma schema_update_raw [keeps_intros]:
  assumes f: "keeps_identity f"
  shows "keeps schema_ok (update_raw i f)"
proof (rule keepsI)
  fix d assume d: "schema_ok d"
  have "re_id ` set (row_update re_id i f (raw_events d)) = re_id ` set (raw_events d)"
    by (metis keeps_identityD(1) [OF f] list.set_map map_key_row_update)
  then show "schema_ok (snd (update_raw i f d))"
    using d raw_schema_row_update [OF f, of d i]
    by (auto simp: update_raw_def schema_ok_def kind_schema_ok_def)
qed

lemma kind_schema_row_update:
  assumes d: "kind_schema_ok k d"
    and id: "\<And>e. en_id (f e) = en_id e" and nk: "\<And>e. natural_key (f e) = natural_key e"
    and fits: "\<And>e. e \<in> set (entities k d) \<Longrightarrow> en_id e = i \<Longrightarrow> entity_fits (f e)"
  shows "kind_schema_ok k' (set_entities k (row_update en_id i f (entities k d)) d)
         = kind_schema_ok k' d"
proof (cases "k' = k")
  case True
  have ids: "map en_id (row_update en_id i f (entities k d)) = map en_id (entities k d)"
    by (rule map_key_row_update) (rule id)
  then have ids': "en_id ` set (row_update en_id i f (entities k d)) = en_id ` set (entities k d)"
    by (metis list.set_map)
  have nks: "map natural_key (row_update en_id i f (entities k d)) = map natural_key (entities k d)"
    by (rule map_key_row_update) (rule nk)
  show ?thesis
    using True d fits unfolding kind_schema_ok_def
    by (auto simp: ids ids' nks dest!: in_row_update)
next
  case False
  then show ?thesis by (simp add: kind_schema_ok_def)
qed

lemma schema_update_entities:
  assumes "schema_ok d"
    and "\<And>e. en_id (f e) = en_id e" and "\<And>e. natural_key (f e) = natural_key e"
    and "\<And>e. e \<in> set (entities k d) \<Longrightarrow> en_id e = i \<Longrightarrow> entity_fits (f e)"
  shows "schema_ok (set_entities k (row_update en_id i f (entities k d)) d)"
  using assms kind_schema_row_update [of k d f i]
  by (simp add: schema_ok_def raw_schema_ok_def primaries_def)

lemma entity_fits_touch [simp]: "entity_fits (e\<lparr>en_updated_at := t\<rparr>) = entity_fits e"
  by (simp add: entity_fits_def)

lemma natural_key_touch [simp]: "natural_key (e\<lparr>en_updated_at := t\<rparr>) = natural_key e"
  by (simp add: natural_key_def)

lemma kind_schema_entity_fits:
  "schema_ok d \<Longrightarrow> e \<in> set (entities k d) \<Longrightarrow> entity_fits e"
  by (simp add: schema_ok_def kind_schema_ok_def)

lemma schema_upsert_entity [keeps_intros]: "keeps schema_ok (upsert_entity k now e)"
proof (rule keepsI)
  fix d assume d: "schema_ok d"
  show "schema_ok (snd (upsert_entity k now e d))"
  proof (cases "row_lookup natural_key (entities k d) (natural_key e)")
    case None
    then have "natural_key e \<notin> natural_key ` set (entities k d)"
      by (simp add: row_lookup_None)
    with d None show ?thesis
      by (auto simp: upsert_entity_def schema_ok_def raw_schema_ok_def kind_schema_ok_def
          primaries_def split: if_splits)
  next
    case (Some old)
    with d show ?thesis
      by (auto simp: upsert_entity_def intro!: schema_update_entities
          dest: kind_schema_entity_fits)
  qed
qed

lemma schema_insert_event [keeps_intros]: "keeps schema_ok (insert_event_or_nothing k v)"
  by (rule keepsI)
     (auto simp: insert_event_or_nothing_def schema_ok_def raw_schema_ok_def kind_schema_ok_def
        primaries_def)

lemma schema_advance_entity [keeps_intros]: "keeps schema_ok (advance_entity k i st t attrs now)"
  by (rule keepsI) (auto simp: advance_entity_def intro!: schema_update_entities)

end
