(* ===== verification/Events.thy ===== *)
theory Events
  imports Json Clock Effects
begin

text \<open>
  \<^verbatim>\<open>app/core/events.py\<close>: the typed event schema. The classes and their inheritance are records that
  extend one another, the discriminated union \<open>EventPayload\<close> is a datatype with the nine classes as
  constructors, and \<open>NormalizedEvent\<close> is the record around it.

  Validation is what the field declarations mean in pydantic's default mode: a \<open>str\<close> field takes
  strings only, length and range limits as declared, a field with a default may be missing, an
  \<open>X | None\<close> field takes null, unknown keys are ignored (or, for line items, refused), and all
  failures of a model are reported together. How datetimes, decimals and floats are read from and
  written to JSON is pydantic's code: the record \<open>scalars\<close> is a parameter.
\<close>

subsection \<open>Classes\<close>

text \<open>A finite \<open>Decimal\<close>: coefficient and decimal exponent.\<close>

datatype decimal = Dec (dec_coeff: int) (dec_exponent: int)

definition dec_ge_0 :: "decimal \<Rightarrow> bool" where
  "dec_ge_0 x \<longleftrightarrow> 0 \<le> dec_coeff x"

record payload_base =
  extras :: "(string \<times> json) list"

record shipment_payload_base = payload_base +
  s_vendor_milestone :: string
  transport_doc_number :: string
  container_id :: "string option"

record invoice_payload_base = payload_base +
  i_vendor_milestone :: string
  document_reference :: string
  currency :: string
  payer :: "string option"
  payee :: "string option"

record shipment_picked_up = shipment_payload_base +
  origin_port_code :: "string option"
  origin_port_name :: "string option"
  shipper_reference :: "string option"

record shipment_in_transit = shipment_payload_base +
  vessel_name :: "string option"
  vessel_imo :: "string option"
  voyage_number :: "string option"
  departure_port_code :: "string option"
  departure_port_name :: "string option"

record shipment_out_for_delivery = shipment_payload_base +
  destination_port_code :: "string option"
  destination_port_name :: "string option"

record shipment_delivered = shipment_payload_base +
  consignee :: "string option"
  delivery_port_code :: "string option"
  delivery_order_number :: "string option"

record invoice_line_item =
  li_description :: string
  li_amount :: decimal
  li_currency :: string

record invoice_issued = invoice_payload_base +
  amount :: decimal
  issued_at :: datetime
  due_at :: "datetime option"
  line_items :: "invoice_line_item list"

record invoice_paid = invoice_payload_base +
  amount_paid :: decimal
  settled_at :: datetime
  remitter :: "string option"
  memo :: "string option"

record invoice_voided = invoice_payload_base +
  voided_at :: datetime
  void_reason :: "string option"

record invoice_refunded = invoice_payload_base +
  refund_amount :: decimal
  refunded_at :: datetime
  refund_reason :: "string option"

record unclassified_payload = payload_base +
  unclassified_reason :: string

datatype event_payload =
    ShipmentPickedUpPayload shipment_picked_up
  | ShipmentInTransitPayload shipment_in_transit
  | ShipmentOutForDeliveryPayload shipment_out_for_delivery
  | ShipmentDeliveredPayload shipment_delivered
  | InvoiceIssuedPayload invoice_issued
  | InvoicePaidPayload invoice_paid
  | InvoiceVoidedPayload invoice_voided
  | InvoiceRefundedPayload invoice_refunded
  | UnclassifiedPayload unclassified_payload

record normalized_event =
  ne_vendor :: string
  ne_event_at :: datetime
  ne_confidence :: rat
  ne_payload :: event_payload

subsection \<open>Accessors\<close>

text \<open>The \<open>canonical_state\<close> and \<open>entity_type\<close> literals of each class.\<close>

fun payload_state :: "event_payload \<Rightarrow> string" where
  "payload_state (ShipmentPickedUpPayload _) = ''PICKED_UP''"
| "payload_state (ShipmentInTransitPayload _) = ''IN_TRANSIT''"
| "payload_state (ShipmentOutForDeliveryPayload _) = ''OUT_FOR_DELIVERY''"
| "payload_state (ShipmentDeliveredPayload _) = ''DELIVERED''"
| "payload_state (InvoiceIssuedPayload _) = ''ISSUED''"
| "payload_state (InvoicePaidPayload _) = ''PAID''"
| "payload_state (InvoiceVoidedPayload _) = ''VOIDED''"
| "payload_state (InvoiceRefundedPayload _) = ''REFUNDED''"
| "payload_state (UnclassifiedPayload _) = ''UNCLASSIFIED''"

text \<open>\<open>isinstance(p, _ShipmentPayloadBase)\<close> and \<open>isinstance(p, _InvoicePayloadBase)\<close>.\<close>

fun is_shipment_payload :: "event_payload \<Rightarrow> bool" where
  "is_shipment_payload (ShipmentPickedUpPayload _) = True"
| "is_shipment_payload (ShipmentInTransitPayload _) = True"
| "is_shipment_payload (ShipmentOutForDeliveryPayload _) = True"
| "is_shipment_payload (ShipmentDeliveredPayload _) = True"
| "is_shipment_payload _ = False"

fun is_invoice_payload :: "event_payload \<Rightarrow> bool" where
  "is_invoice_payload (InvoiceIssuedPayload _) = True"
| "is_invoice_payload (InvoicePaidPayload _) = True"
| "is_invoice_payload (InvoiceVoidedPayload _) = True"
| "is_invoice_payload (InvoiceRefundedPayload _) = True"
| "is_invoice_payload _ = False"

definition payload_entity_type :: "event_payload \<Rightarrow> string" where
  "payload_entity_type p =
     (if is_shipment_payload p then ''shipment''
      else if is_invoice_payload p then ''invoice'' else ''unclassified'')"

definition canonical_state :: "normalized_event \<Rightarrow> string" where
  "canonical_state e = payload_state (ne_payload e)"

definition entity_type :: "normalized_event \<Rightarrow> string" where
  "entity_type e = payload_entity_type (ne_payload e)"

text \<open>\<open>getattr(self.payload, "vendor_milestone", None)\<close>.\<close>

fun payload_vendor_milestone :: "event_payload \<Rightarrow> string option" where
  "payload_vendor_milestone (ShipmentPickedUpPayload p) = Some (s_vendor_milestone p)"
| "payload_vendor_milestone (ShipmentInTransitPayload p) = Some (s_vendor_milestone p)"
| "payload_vendor_milestone (ShipmentOutForDeliveryPayload p) = Some (s_vendor_milestone p)"
| "payload_vendor_milestone (ShipmentDeliveredPayload p) = Some (s_vendor_milestone p)"
| "payload_vendor_milestone (InvoiceIssuedPayload p) = Some (i_vendor_milestone p)"
| "payload_vendor_milestone (InvoicePaidPayload p) = Some (i_vendor_milestone p)"
| "payload_vendor_milestone (InvoiceVoidedPayload p) = Some (i_vendor_milestone p)"
| "payload_vendor_milestone (InvoiceRefundedPayload p) = Some (i_vendor_milestone p)"
| "payload_vendor_milestone (UnclassifiedPayload p) = None"

definition vendor_milestone :: "normalized_event \<Rightarrow> string option" where
  "vendor_milestone e = payload_vendor_milestone (ne_payload e)"

fun payload_external_ref :: "event_payload \<Rightarrow> string option" where
  "payload_external_ref (ShipmentPickedUpPayload p) = Some (transport_doc_number p)"
| "payload_external_ref (ShipmentInTransitPayload p) = Some (transport_doc_number p)"
| "payload_external_ref (ShipmentOutForDeliveryPayload p) = Some (transport_doc_number p)"
| "payload_external_ref (ShipmentDeliveredPayload p) = Some (transport_doc_number p)"
| "payload_external_ref (InvoiceIssuedPayload p) = Some (document_reference p)"
| "payload_external_ref (InvoicePaidPayload p) = Some (document_reference p)"
| "payload_external_ref (InvoiceVoidedPayload p) = Some (document_reference p)"
| "payload_external_ref (InvoiceRefundedPayload p) = Some (document_reference p)"
| "payload_external_ref (UnclassifiedPayload p) = None"

definition external_ref :: "normalized_event \<Rightarrow> string option" where
  "external_ref e = payload_external_ref (ne_payload e)"

text \<open>The constants of \<^verbatim>\<open>app/core/schemas.py\<close>.\<close>

definition SHIPMENT_STATES :: "string list" where
  "SHIPMENT_STATES = [''PICKED_UP'', ''IN_TRANSIT'', ''OUT_FOR_DELIVERY'', ''DELIVERED'']"

definition INVOICE_STATES :: "string list" where
  "INVOICE_STATES = [''ISSUED'', ''PAID'', ''VOIDED'', ''REFUNDED'']"

definition ALL_CANONICAL_STATES :: "string list" where
  "ALL_CANONICAL_STATES = SHIPMENT_STATES @ INVOICE_STATES"

lemma payload_state_shipment:
  "is_shipment_payload p \<longleftrightarrow> payload_state p \<in> set SHIPMENT_STATES"
  by (cases p) (simp_all add: SHIPMENT_STATES_def)

lemma payload_state_invoice:
  "is_invoice_payload p \<longleftrightarrow> payload_state p \<in> set INVOICE_STATES"
  by (cases p) (simp_all add: INVOICE_STATES_def)

lemma payload_state_fits: "length (payload_state p) \<le> 32"
  by (cases p) simp_all

lemma external_ref_iff:
  "payload_external_ref p \<noteq> None \<longleftrightarrow> is_shipment_payload p \<or> is_invoice_payload p"
  by (cases p) simp_all

lemma vendor_milestone_iff:
  "payload_vendor_milestone p \<noteq> None \<longleftrightarrow> is_shipment_payload p \<or> is_invoice_payload p"
  by (cases p) simp_all

lemma not_both_kinds: "\<not> (is_shipment_payload p \<and> is_invoice_payload p)"
  by (cases p) simp_all

end
