(* ===== verification/Validation.thy ===== *)
theory Validation
  imports Events
begin

text \<open>
  Validation of \<^verbatim>\<open>app/core/events.py\<close>'s models from JSON (\<open>NormalizedEvent.model_validate\<close>) and
  \<open>model_dump(mode="json")\<close> of the payloads.

  A validator returns either the list of all failures or the value. \<open>vap\<close> applies a constructor to
  one more field and collects the failures of both sides, in the order of the fields: those a class
  inherits come first.
\<close>

subsection \<open>Validators\<close>

type_synonym 'a validated = "verror list + 'a"

fun vap :: "('a \<Rightarrow> 'b) validated \<Rightarrow> 'a validated \<Rightarrow> 'b validated" where
  "vap (Inr f) (Inr x) = Inr (f x)"
| "vap (Inr f) (Inl es) = Inl es"
| "vap (Inl es) (Inr x) = Inl es"
| "vap (Inl es) (Inl es') = Inl (es @ es')"

fun errors :: "'a validated \<Rightarrow> verror list" where
  "errors (Inl es) = es"
| "errors (Inr x) = []"

lemma vap_Inr: "vap f x = Inr y \<longleftrightarrow> (\<exists>g a. f = Inr g \<and> x = Inr a \<and> y = g a)"
  by (induction f x rule: vap.induct) auto

lemma errors_vap [simp]: "errors (vap f x) = errors f @ errors x"
  by (induction f x rule: vap.induct) auto

lemma errors_Inl: "errors x \<noteq> [] \<Longrightarrow> x = Inl (errors x)"
  by (cases x) auto

text \<open>Failures inside a field, list item or union member are located under it.\<close>

fun under :: "loc \<Rightarrow> verror \<Rightarrow> verror" where
  "under l (VError ls ty) = VError (l # ls) ty"

fun at_loc :: "loc \<Rightarrow> 'a validated \<Rightarrow> 'a validated" where
  "at_loc l (Inl es) = Inl (map (under l) es)"
| "at_loc l (Inr x) = Inr x"

lemma at_loc_Inr [simp]: "at_loc l x = Inr y \<longleftrightarrow> x = Inr y"
  by (cases x) auto

lemma errors_at_loc [simp]: "errors (at_loc l x) = map (under l) (errors x)"
  by (cases x) auto

definition fail_with :: "string \<Rightarrow> 'a validated" where
  "fail_with ty = Inl [VError [] ty]"

text \<open>A field without a default, and one with a default.\<close>

definition required :: "(string \<times> json) list \<Rightarrow> string \<Rightarrow> (json \<Rightarrow> 'a validated) \<Rightarrow> 'a validated" where
  "required d k p =
     (case map_of d k of
        None \<Rightarrow> Inl [VError [LKey k] ''missing'']
      | Some j \<Rightarrow> at_loc (LKey k) (p j))"

definition defaulted ::
    "(string \<times> json) list \<Rightarrow> string \<Rightarrow> 'a \<Rightarrow> (json \<Rightarrow> 'a validated) \<Rightarrow> 'a validated" where
  "defaulted d k dflt p =
     (case map_of d k of None \<Rightarrow> Inr dflt | Some j \<Rightarrow> at_loc (LKey k) (p j))"

text \<open>\<open>str\<close> with \<open>min_length\<close> and, if given, \<open>max_length\<close>.\<close>

definition v_str :: "nat \<Rightarrow> nat option \<Rightarrow> json \<Rightarrow> string validated" where
  "v_str lo hi j =
     (case j of
        JStr s \<Rightarrow>
          if length s < lo then fail_with ''string_too_short''
          else if (case hi of None \<Rightarrow> False | Some n \<Rightarrow> n < length s) then fail_with ''string_too_long''
          else Inr s
      | _ \<Rightarrow> fail_with ''string_type'')"

text \<open>\<open>X | None\<close>.\<close>

fun v_opt :: "(json \<Rightarrow> 'a validated) \<Rightarrow> json \<Rightarrow> 'a option validated" where
  "v_opt p JNull = Inr None"
| "v_opt p j = vap (Inr Some) (p j)"

text \<open>\<open>Literal["c"]\<close>.\<close>

definition v_literal :: "string \<Rightarrow> json \<Rightarrow> unit validated" where
  "v_literal c j = (if j = JStr c then Inr () else fail_with ''literal_error'')"

text \<open>\<open>dict[str, Any]\<close>.\<close>

fun v_dict :: "json \<Rightarrow> (string \<times> json) list validated" where
  "v_dict (JObj d) = Inr d"
| "v_dict _ = fail_with ''dict_type''"

fun v_items :: "nat \<Rightarrow> (json \<Rightarrow> 'a validated) \<Rightarrow> json list \<Rightarrow> 'a list validated" where
  "v_items n p [] = Inr []"
| "v_items n p (j # js) = vap (vap (Inr Cons) (at_loc (LIdx n) (p j))) (v_items (Suc n) p js)"

fun v_list :: "(json \<Rightarrow> 'a validated) \<Rightarrow> json \<Rightarrow> 'a list validated" where
  "v_list p (JArr js) = v_items 0 p js"
| "v_list p _ = fail_with ''list_type''"

subsection \<open>Scalars\<close>

text \<open>
  pydantic's conversions between JSON and datetimes, decimals and floats; \<open>None\<close> is a value it
  does not accept.
\<close>

record scalars =
  parse_datetime :: "json \<Rightarrow> datetime option"
  dump_datetime :: "datetime \<Rightarrow> json"
  parse_decimal :: "json \<Rightarrow> decimal option"
  dump_decimal :: "decimal \<Rightarrow> json"
  parse_float :: "json \<Rightarrow> rat option"

definition v_datetime :: "scalars \<Rightarrow> json \<Rightarrow> datetime validated" where
  "v_datetime sc j =
     (case parse_datetime sc j of None \<Rightarrow> fail_with ''datetime_parsing'' | Some t \<Rightarrow> Inr t)"

text \<open>\<open>Decimal = Field(ge=0)\<close>.\<close>

definition v_amount :: "scalars \<Rightarrow> json \<Rightarrow> decimal validated" where
  "v_amount sc j =
     (case parse_decimal sc j of
        None \<Rightarrow> fail_with ''decimal_parsing''
      | Some x \<Rightarrow> if dec_ge_0 x then Inr x else fail_with ''greater_than_equal'')"

text \<open>\<open>float = Field(ge=0.0, le=1.0)\<close>.\<close>

definition v_confidence :: "scalars \<Rightarrow> json \<Rightarrow> rat validated" where
  "v_confidence sc j =
     (case parse_float sc j of
        None \<Rightarrow> fail_with ''float_parsing''
      | Some x \<Rightarrow> if x < 0 then fail_with ''greater_than_equal''
                  else if 1 < x then fail_with ''less_than_equal'' else Inr x)"

subsection \<open>The payload classes\<close>

abbreviation v_opt_str :: "json \<Rightarrow> string option validated" where
  "v_opt_str \<equiv> v_opt (v_str 0 None)"

abbreviation v_currency :: "json \<Rightarrow> string validated" where
  "v_currency \<equiv> v_str 3 (Some 3)"

definition v_shipment_base :: "(string \<times> json) list \<Rightarrow> shipment_payload_base validated" where
  "v_shipment_base d =
     vap (vap (vap (vap (vap
       (Inr (\<lambda>ex ty vm tdn cid.
          \<lparr>extras = ex, s_vendor_milestone = vm, transport_doc_number = tdn, container_id = cid\<rparr>))
       (defaulted d ''extras'' [] v_dict))
       (defaulted d ''entity_type'' () (v_literal ''shipment'')))
       (required d ''vendor_milestone'' (v_str 1 None)))
       (required d ''transport_doc_number'' (v_str 1 None)))
       (defaulted d ''container_id'' None v_opt_str)"

definition v_invoice_base :: "(string \<times> json) list \<Rightarrow> invoice_payload_base validated" where
  "v_invoice_base d =
     vap (vap (vap (vap (vap (vap (vap
       (Inr (\<lambda>ex ty vm ref cur pr pe.
          \<lparr>extras = ex, i_vendor_milestone = vm, document_reference = ref, currency = cur,
           payer = pr, payee = pe\<rparr>))
       (defaulted d ''extras'' [] v_dict))
       (defaulted d ''entity_type'' () (v_literal ''invoice'')))
       (required d ''vendor_milestone'' (v_str 1 None)))
       (required d ''document_reference'' (v_str 1 None)))
       (required d ''currency'' v_currency))
       (defaulted d ''payer'' None v_opt_str))
       (defaulted d ''payee'' None v_opt_str)"

abbreviation v_state :: "(string \<times> json) list \<Rightarrow> string \<Rightarrow> unit validated" where
  "v_state d c \<equiv> defaulted d ''canonical_state'' () (v_literal c)"

definition v_picked_up :: "(string \<times> json) list \<Rightarrow> shipment_picked_up validated" where
  "v_picked_up d =
     vap (vap (vap (vap (vap
       (Inr (\<lambda>b st a1 a2 a3. shipment_payload_base.extend b (shipment_picked_up.fields a1 a2 a3)))
       (v_shipment_base d))
       (v_state d ''PICKED_UP''))
       (defaulted d ''origin_port_code'' None v_opt_str))
       (defaulted d ''origin_port_name'' None v_opt_str))
       (defaulted d ''shipper_reference'' None v_opt_str)"

definition v_in_transit :: "(string \<times> json) list \<Rightarrow> shipment_in_transit validated" where
  "v_in_transit d =
     vap (vap (vap (vap (vap (vap (vap
       (Inr (\<lambda>b st a1 a2 a3 a4 a5.
          shipment_payload_base.extend b (shipment_in_transit.fields a1 a2 a3 a4 a5)))
       (v_shipment_base d))
       (v_state d ''IN_TRANSIT''))
       (defaulted d ''vessel_name'' None v_opt_str))
       (defaulted d ''vessel_imo'' None v_opt_str))
       (defaulted d ''voyage_number'' None v_opt_str))
       (defaulted d ''departure_port_code'' None v_opt_str))
       (defaulted d ''departure_port_name'' None v_opt_str)"

definition v_out_for_delivery :: "(string \<times> json) list \<Rightarrow> shipment_out_for_delivery validated" where
  "v_out_for_delivery d =
     vap (vap (vap (vap
       (Inr (\<lambda>b st a1 a2. shipment_payload_base.extend b (shipment_out_for_delivery.fields a1 a2)))
       (v_shipment_base d))
       (v_state d ''OUT_FOR_DELIVERY''))
       (defaulted d ''destination_port_code'' None v_opt_str))
       (defaulted d ''destination_port_name'' None v_opt_str)"

definition v_delivered :: "(string \<times> json) list \<Rightarrow> shipment_delivered validated" where
  "v_delivered d =
     vap (vap (vap (vap (vap
       (Inr (\<lambda>b st a1 a2 a3. shipment_payload_base.extend b (shipment_delivered.fields a1 a2 a3)))
       (v_shipment_base d))
       (v_state d ''DELIVERED''))
       (defaulted d ''consignee'' None v_opt_str))
       (defaulted d ''delivery_port_code'' None v_opt_str))
       (defaulted d ''delivery_order_number'' None v_opt_str)"

text \<open>
  \<open>InvoiceLineItem\<close> forbids unknown keys: each is a failure of its own, after those of the fields.
\<close>

definition v_forbid_extra :: "string list \<Rightarrow> (string \<times> json) list \<Rightarrow> unit validated" where
  "v_forbid_extra ks d =
     (case filter (\<lambda>k. k \<notin> set ks) (map fst d) of
        [] \<Rightarrow> Inr ()
      | unknown \<Rightarrow> Inl (map (\<lambda>k. VError [LKey k] ''extra_forbidden'') unknown))"

fun v_line_item :: "scalars \<Rightarrow> json \<Rightarrow> invoice_line_item validated" where
  "v_line_item sc (JObj d) =
     vap (vap (vap (vap
       (Inr (\<lambda>ds am cur ok. \<lparr>li_description = ds, li_amount = am, li_currency = cur\<rparr>))
       (required d ''description'' (v_str 1 None)))
       (required d ''amount'' (v_amount sc)))
       (required d ''currency'' v_currency))
       (v_forbid_extra [''description'', ''amount'', ''currency''] d)"
| "v_line_item sc _ = fail_with ''model_type''"

definition v_issued :: "scalars \<Rightarrow> (string \<times> json) list \<Rightarrow> invoice_issued validated" where
  "v_issued sc d =
     vap (vap (vap (vap (vap (vap
       (Inr (\<lambda>b st a1 a2 a3 a4. invoice_payload_base.extend b (invoice_issued.fields a1 a2 a3 a4)))
       (v_invoice_base d))
       (v_state d ''ISSUED''))
       (required d ''amount'' (v_amount sc)))
       (required d ''issued_at'' (v_datetime sc)))
       (defaulted d ''due_at'' None (v_opt (v_datetime sc))))
       (defaulted d ''line_items'' [] (v_list (v_line_item sc)))"

definition v_paid :: "scalars \<Rightarrow> (string \<times> json) list \<Rightarrow> invoice_paid validated" where
  "v_paid sc d =
     vap (vap (vap (vap (vap (vap
       (Inr (\<lambda>b st a1 a2 a3 a4. invoice_payload_base.extend b (invoice_paid.fields a1 a2 a3 a4)))
       (v_invoice_base d))
       (v_state d ''PAID''))
       (required d ''amount_paid'' (v_amount sc)))
       (required d ''settled_at'' (v_datetime sc)))
       (defaulted d ''remitter'' None v_opt_str))
       (defaulted d ''memo'' None v_opt_str)"

definition v_voided :: "scalars \<Rightarrow> (string \<times> json) list \<Rightarrow> invoice_voided validated" where
  "v_voided sc d =
     vap (vap (vap (vap
       (Inr (\<lambda>b st a1 a2. invoice_payload_base.extend b (invoice_voided.fields a1 a2)))
       (v_invoice_base d))
       (v_state d ''VOIDED''))
       (required d ''voided_at'' (v_datetime sc)))
       (defaulted d ''void_reason'' None v_opt_str)"

definition v_refunded :: "scalars \<Rightarrow> (string \<times> json) list \<Rightarrow> invoice_refunded validated" where
  "v_refunded sc d =
     vap (vap (vap (vap (vap
       (Inr (\<lambda>b st a1 a2 a3. invoice_payload_base.extend b (invoice_refunded.fields a1 a2 a3)))
       (v_invoice_base d))
       (v_state d ''REFUNDED''))
       (required d ''refund_amount'' (v_amount sc)))
       (required d ''refunded_at'' (v_datetime sc)))
       (defaulted d ''refund_reason'' None v_opt_str)"

definition v_unclassified :: "(string \<times> json) list \<Rightarrow> unclassified_payload validated" where
  "v_unclassified d =
     vap (vap (vap (vap
       (Inr (\<lambda>ex ty st rs. \<lparr>extras = ex, unclassified_reason = rs\<rparr>))
       (defaulted d ''extras'' [] v_dict))
       (defaulted d ''entity_type'' () (v_literal ''unclassified'')))
       (v_state d ''UNCLASSIFIED''))
       (required d ''reason'' (v_str 1 None))"

subsection \<open>The discriminated union and the envelope\<close>

text \<open>
  \<open>Field(discriminator="canonical_state")\<close>: the tag must be present and known; failures of the
  chosen class are located under the tag.
\<close>

definition v_member :: "scalars \<Rightarrow> string \<Rightarrow> (string \<times> json) list \<Rightarrow> event_payload validated" where
  "v_member sc tag d =
     (if tag = ''PICKED_UP'' then vap (Inr ShipmentPickedUpPayload) (v_picked_up d)
      else if tag = ''IN_TRANSIT'' then vap (Inr ShipmentInTransitPayload) (v_in_transit d)
      else if tag = ''OUT_FOR_DELIVERY''
        then vap (Inr ShipmentOutForDeliveryPayload) (v_out_for_delivery d)
      else if tag = ''DELIVERED'' then vap (Inr ShipmentDeliveredPayload) (v_delivered d)
      else if tag = ''ISSUED'' then vap (Inr InvoiceIssuedPayload) (v_issued sc d)
      else if tag = ''PAID'' then vap (Inr InvoicePaidPayload) (v_paid sc d)
      else if tag = ''VOIDED'' then vap (Inr InvoiceVoidedPayload) (v_voided sc d)
      else if tag = ''REFUNDED'' then vap (Inr InvoiceRefundedPayload) (v_refunded sc d)
      else vap (Inr UnclassifiedPayload) (v_unclassified d))"

definition union_tags :: "string list" where
  "union_tags = ALL_CANONICAL_STATES @ [''UNCLASSIFIED'']"

fun validate_payload :: "scalars \<Rightarrow> json \<Rightarrow> event_payload validated" where
  "validate_payload sc (JObj d) =
     (case map_of d ''canonical_state'' of
        None \<Rightarrow> fail_with ''union_tag_not_found''
      | Some (JStr tag) \<Rightarrow>
          if tag \<in> set union_tags then at_loc (LKey tag) (v_member sc tag d)
          else fail_with ''union_tag_invalid''
      | Some _ \<Rightarrow> fail_with ''union_tag_invalid'')"
| "validate_payload sc _ = fail_with ''model_attributes_type''"

fun model_validate :: "scalars \<Rightarrow> json \<Rightarrow> normalized_event validated" where
  "model_validate sc (JObj d) =
     vap (vap (vap (vap
       (Inr (\<lambda>v t c p. \<lparr>ne_vendor = v, ne_event_at = t, ne_confidence = c, ne_payload = p\<rparr>))
       (required d ''vendor'' (v_str 1 None)))
       (required d ''event_at'' (v_datetime sc)))
       (defaulted d ''confidence'' 1 (v_confidence sc)))
       (required d ''payload'' (validate_payload sc))"
| "model_validate sc _ = fail_with ''model_type''"

subsection \<open>What validation guarantees\<close>

definition wf_shipment :: "'a shipment_payload_base_scheme \<Rightarrow> bool" where
  "wf_shipment p \<longleftrightarrow> s_vendor_milestone p \<noteq> [] \<and> transport_doc_number p \<noteq> []"

definition wf_invoice :: "'a invoice_payload_base_scheme \<Rightarrow> bool" where
  "wf_invoice p \<longleftrightarrow> i_vendor_milestone p \<noteq> [] \<and> document_reference p \<noteq> [] \<and> length (currency p) = 3"

definition wf_line_item :: "invoice_line_item \<Rightarrow> bool" where
  "wf_line_item i \<longleftrightarrow>
     li_description i \<noteq> [] \<and> dec_ge_0 (li_amount i) \<and> length (li_currency i) = 3"

fun wf_payload :: "event_payload \<Rightarrow> bool" where
  "wf_payload (ShipmentPickedUpPayload p) = wf_shipment p"
| "wf_payload (ShipmentInTransitPayload p) = wf_shipment p"
| "wf_payload (ShipmentOutForDeliveryPayload p) = wf_shipment p"
| "wf_payload (ShipmentDeliveredPayload p) = wf_shipment p"
| "wf_payload (InvoiceIssuedPayload p) =
     (wf_invoice p \<and> dec_ge_0 (amount p) \<and> (\<forall>i \<in> set (line_items p). wf_line_item i))"
| "wf_payload (InvoicePaidPayload p) = (wf_invoice p \<and> dec_ge_0 (amount_paid p))"
| "wf_payload (InvoiceVoidedPayload p) = wf_invoice p"
| "wf_payload (InvoiceRefundedPayload p) = (wf_invoice p \<and> dec_ge_0 (refund_amount p))"
| "wf_payload (UnclassifiedPayload p) = (unclassified_reason p \<noteq> [])"

definition wf_event :: "normalized_event \<Rightarrow> bool" where
  "wf_event e \<longleftrightarrow>
     ne_vendor e \<noteq> [] \<and> 0 \<le> ne_confidence e \<and> ne_confidence e \<le> 1 \<and> wf_payload (ne_payload e)"

text \<open>Inversion of a validator that succeeded.\<close>

lemma required_Inr: "required d k p = Inr x \<longleftrightarrow> (\<exists>j. map_of d k = Some j \<and> p j = Inr x)"
  by (auto simp: required_def split: option.splits)

lemma v_str_Inr:
  "v_str lo hi j = Inr s \<longleftrightarrow>
     j = JStr s \<and> lo \<le> length s \<and> (\<forall>n. hi = Some n \<longrightarrow> length s \<le> n)"
  by (auto simp: v_str_def fail_with_def split: json.splits option.splits)

lemma v_currency_Inr: "v_currency j = Inr s \<longleftrightarrow> j = JStr s \<and> length s = 3"
  by (auto simp: v_str_Inr)

lemma v_nonempty_Inr: "v_str (Suc 0) None j = Inr s \<longleftrightarrow> j = JStr s \<and> s \<noteq> []"
  by (auto simp: v_str_Inr Suc_le_eq)

lemma v_amount_Inr: "v_amount sc j = Inr x \<longleftrightarrow> parse_decimal sc j = Some x \<and> dec_ge_0 x"
  by (auto simp: v_amount_def fail_with_def split: option.splits)

lemma v_datetime_Inr: "v_datetime sc j = Inr t \<longleftrightarrow> parse_datetime sc j = Some t"
  by (auto simp: v_datetime_def fail_with_def split: option.splits)

lemma v_confidence_Inr:
  "v_confidence sc j = Inr x \<longleftrightarrow> parse_float sc j = Some x \<and> 0 \<le> x \<and> x \<le> 1"
  by (auto simp: v_confidence_def fail_with_def split: option.splits)

lemma defaulted_Inr:
  "defaulted d k x p = Inr y \<longleftrightarrow>
     (map_of d k = None \<and> y = x) \<or> (\<exists>j. map_of d k = Some j \<and> p j = Inr y)"
  by (auto simp: defaulted_def split: option.splits)

lemma v_items_Inr:
  "v_items n p js = Inr xs \<Longrightarrow> (\<And>j x. p j = Inr x \<Longrightarrow> Q x) \<Longrightarrow> \<forall>x \<in> set xs. Q x"
  by (induction js arbitrary: n xs) (auto simp: vap_Inr)

lemma v_list_Inr:
  "v_list p j = Inr xs \<Longrightarrow> (\<And>j x. p j = Inr x \<Longrightarrow> Q x) \<Longrightarrow> \<forall>x \<in> set xs. Q x"
  by (cases j) (auto simp: fail_with_def dest: v_items_Inr)

lemma v_line_item_wf: "v_line_item sc j = Inr i \<Longrightarrow> wf_line_item i"
  by (cases j)
     (auto simp: fail_with_def vap_Inr required_Inr v_nonempty_Inr v_currency_Inr v_amount_Inr
        wf_line_item_def)

lemma v_shipment_base_wf: "v_shipment_base d = Inr b \<Longrightarrow> wf_shipment b"
  by (auto simp: v_shipment_base_def vap_Inr required_Inr v_nonempty_Inr wf_shipment_def)

lemma v_invoice_base_wf: "v_invoice_base d = Inr b \<Longrightarrow> wf_invoice b"
  by (auto simp: v_invoice_base_def vap_Inr required_Inr v_nonempty_Inr v_currency_Inr
      wf_invoice_def)

lemma wf_shipment_extend [simp]: "wf_shipment (shipment_payload_base.extend b m) = wf_shipment b"
  by (simp add: wf_shipment_def shipment_payload_base.defs)

lemma wf_invoice_extend [simp]: "wf_invoice (invoice_payload_base.extend b m) = wf_invoice b"
  by (simp add: wf_invoice_def invoice_payload_base.defs)

lemma v_shipments_wf:
  "v_picked_up d = Inr p1 \<Longrightarrow> wf_shipment p1"
  "v_in_transit d = Inr p2 \<Longrightarrow> wf_shipment p2"
  "v_out_for_delivery d = Inr p3 \<Longrightarrow> wf_shipment p3"
  "v_delivered d = Inr p4 \<Longrightarrow> wf_shipment p4"
  unfolding v_picked_up_def v_in_transit_def v_out_for_delivery_def v_delivered_def
  by (auto simp: vap_Inr dest: v_shipment_base_wf)

lemma v_issued_wf:
  assumes "v_issued sc d = Inr p"
  shows "wf_payload (InvoiceIssuedPayload p)"
proof -
  from assms obtain b am ia da li where b: "v_invoice_base d = Inr b"
    and am: "required d ''amount'' (v_amount sc) = Inr am"
    and li: "defaulted d ''line_items'' [] (v_list (v_line_item sc)) = Inr li"
    and p: "p = invoice_payload_base.extend b (invoice_issued.fields am ia da li)"
    unfolding v_issued_def by (auto simp only: vap_Inr)
  have "\<forall>i \<in> set li. wf_line_item i"
    using li v_list_Inr [of "v_line_item sc" _ li wf_line_item] v_line_item_wf
    by (auto simp: defaulted_Inr)
  moreover have "dec_ge_0 am" using am by (auto simp: required_Inr v_amount_Inr)
  moreover have "amount p = am" "line_items p = li"
    by (simp_all add: p invoice_payload_base.defs invoice_issued.defs)
  ultimately show ?thesis using v_invoice_base_wf [OF b] by (simp add: p)
qed

lemma v_paid_wf: "v_paid sc d = Inr p \<Longrightarrow> wf_payload (InvoicePaidPayload p)"
  using v_invoice_base_wf [of d]
  by (auto simp: v_paid_def vap_Inr required_Inr v_amount_Inr)
     (simp add: invoice_payload_base.defs invoice_paid.defs)

lemma v_voided_wf: "v_voided sc d = Inr p \<Longrightarrow> wf_payload (InvoiceVoidedPayload p)"
  using v_invoice_base_wf [of d] by (auto simp: v_voided_def vap_Inr)

lemma v_refunded_wf: "v_refunded sc d = Inr p \<Longrightarrow> wf_payload (InvoiceRefundedPayload p)"
  using v_invoice_base_wf [of d]
  by (auto simp: v_refunded_def vap_Inr required_Inr v_amount_Inr)
     (simp add: invoice_payload_base.defs invoice_refunded.defs)

lemma v_unclassified_wf: "v_unclassified d = Inr p \<Longrightarrow> wf_payload (UnclassifiedPayload p)"
  by (auto simp: v_unclassified_def vap_Inr required_Inr v_nonempty_Inr)

lemma v_member_wf: "v_member sc tag d = Inr p \<Longrightarrow> wf_payload p"
  by (auto simp: v_member_def vap_Inr v_shipments_wf split: if_splits
      dest: v_issued_wf v_paid_wf v_voided_wf v_refunded_wf v_unclassified_wf simp del: wf_payload.simps(5-9))

lemma validate_payload_wf: "validate_payload sc j = Inr p \<Longrightarrow> wf_payload p"
  by (cases j) (auto simp: fail_with_def v_member_wf split: option.splits json.splits if_splits)

lemma model_validate_wf: "model_validate sc j = Inr e \<Longrightarrow> wf_event e"
  by (cases j)
     (auto simp: fail_with_def vap_Inr required_Inr defaulted_Inr v_nonempty_Inr v_confidence_Inr
        wf_event_def validate_payload_wf)

text \<open>The tag selects the class.\<close>

lemma v_member_state:
  "v_member sc tag d = Inr p \<Longrightarrow> tag \<in> set union_tags \<Longrightarrow> payload_state p = tag"
  by (auto simp: v_member_def vap_Inr union_tags_def ALL_CANONICAL_STATES_def SHIPMENT_STATES_def
      INVOICE_STATES_def split: if_splits)

lemma validate_payload_state:
  assumes "validate_payload sc (JObj d) = Inr p"
  shows "map_of d ''canonical_state'' = Some (JStr (payload_state p))"
  using assms v_member_state [of sc _ d p]
  by (auto simp: fail_with_def split: option.splits json.splits if_splits)

subsection \<open>Missing required fields\<close>

text \<open>The fields each class declares without a default.\<close>

definition required_fields :: "string \<Rightarrow> string list" where
  "required_fields tag =
     (if tag \<in> set SHIPMENT_STATES then [''vendor_milestone'', ''transport_doc_number'']
      else if tag = ''ISSUED''
        then [''vendor_milestone'', ''document_reference'', ''currency'', ''amount'', ''issued_at'']
      else if tag = ''PAID''
        then [''vendor_milestone'', ''document_reference'', ''currency'', ''amount_paid'', ''settled_at'']
      else if tag = ''VOIDED''
        then [''vendor_milestone'', ''document_reference'', ''currency'', ''voided_at'']
      else if tag = ''REFUNDED''
        then [''vendor_milestone'', ''document_reference'', ''currency'', ''refund_amount'', ''refunded_at'']
      else [''reason''])"

lemma errors_required_missing:
  "map_of d k = None \<Longrightarrow> errors (required d k p) = [VError [LKey k] ''missing'']"
  by (simp add: required_def)

text \<open>\<open>lacks d k x\<close>: if \<open>k\<close> is missing from \<open>d\<close>, then \<open>x\<close> reports it.\<close>

definition lacks :: "(string \<times> json) list \<Rightarrow> string \<Rightarrow> 'a validated \<Rightarrow> bool" where
  "lacks d k x \<longleftrightarrow> (map_of d k = None \<longrightarrow> VError [LKey k] ''missing'' \<in> set (errors x))"

lemma lacks_right: "lacks d k x \<Longrightarrow> lacks d k (vap f x)"
  by (simp add: lacks_def)

lemma lacks_shipment_base:
  "lacks d ''vendor_milestone'' (v_shipment_base d)"
  "lacks d ''transport_doc_number'' (v_shipment_base d)"
  unfolding v_shipment_base_def by (simp_all add: lacks_def errors_required_missing)

lemma lacks_invoice_base:
  "lacks d ''vendor_milestone'' (v_invoice_base d)"
  "lacks d ''document_reference'' (v_invoice_base d)"
  "lacks d ''currency'' (v_invoice_base d)"
  unfolding v_invoice_base_def by (simp_all add: lacks_def errors_required_missing)

lemma lacks_shipments:
  assumes "lacks d k (v_shipment_base d)"
  shows "lacks d k (v_picked_up d)" "lacks d k (v_in_transit d)"
    "lacks d k (v_out_for_delivery d)" "lacks d k (v_delivered d)"
  using assms
  unfolding v_picked_up_def v_in_transit_def v_out_for_delivery_def v_delivered_def
  by (simp_all add: lacks_def)

lemma lacks_invoices:
  assumes "lacks d k (v_invoice_base d)"
  shows "lacks d k (v_issued sc d)" "lacks d k (v_paid sc d)"
    "lacks d k (v_voided sc d)" "lacks d k (v_refunded sc d)"
  using assms unfolding v_issued_def v_paid_def v_voided_def v_refunded_def
  by (simp_all add: lacks_def)

lemma lacks_invoice_fields:
  "lacks d ''amount'' (v_issued sc d)" "lacks d ''issued_at'' (v_issued sc d)"
  "lacks d ''amount_paid'' (v_paid sc d)" "lacks d ''settled_at'' (v_paid sc d)"
  "lacks d ''voided_at'' (v_voided sc d)"
  "lacks d ''refund_amount'' (v_refunded sc d)" "lacks d ''refunded_at'' (v_refunded sc d)"
  "lacks d ''reason'' (v_unclassified d)"
  unfolding v_issued_def v_paid_def v_voided_def v_refunded_def v_unclassified_def
  by (simp_all add: lacks_def errors_required_missing)

lemma v_member_simps:
  "v_member sc ''PICKED_UP'' d = vap (Inr ShipmentPickedUpPayload) (v_picked_up d)"
  "v_member sc ''IN_TRANSIT'' d = vap (Inr ShipmentInTransitPayload) (v_in_transit d)"
  "v_member sc ''OUT_FOR_DELIVERY'' d = vap (Inr ShipmentOutForDeliveryPayload) (v_out_for_delivery d)"
  "v_member sc ''DELIVERED'' d = vap (Inr ShipmentDeliveredPayload) (v_delivered d)"
  "v_member sc ''ISSUED'' d = vap (Inr InvoiceIssuedPayload) (v_issued sc d)"
  "v_member sc ''PAID'' d = vap (Inr InvoicePaidPayload) (v_paid sc d)"
  "v_member sc ''VOIDED'' d = vap (Inr InvoiceVoidedPayload) (v_voided sc d)"
  "v_member sc ''REFUNDED'' d = vap (Inr InvoiceRefundedPayload) (v_refunded sc d)"
  "v_member sc ''UNCLASSIFIED'' d = vap (Inr UnclassifiedPayload) (v_unclassified d)"
  by (simp_all add: v_member_def)

lemma required_fields_simps:
  "tag \<in> set SHIPMENT_STATES \<Longrightarrow>
     required_fields tag = [''vendor_milestone'', ''transport_doc_number'']"
  "required_fields ''ISSUED'' =
     [''vendor_milestone'', ''document_reference'', ''currency'', ''amount'', ''issued_at'']"
  "required_fields ''PAID'' =
     [''vendor_milestone'', ''document_reference'', ''currency'', ''amount_paid'', ''settled_at'']"
  "required_fields ''VOIDED'' =
     [''vendor_milestone'', ''document_reference'', ''currency'', ''voided_at'']"
  "required_fields ''REFUNDED'' =
     [''vendor_milestone'', ''document_reference'', ''currency'', ''refund_amount'', ''refunded_at'']"
  "required_fields ''UNCLASSIFIED'' = [''reason'']"
  by (simp_all add: required_fields_def SHIPMENT_STATES_def)

text \<open>Every required field of a class is reported by its validator.\<close>

definition lacks_all :: "(string \<times> json) list \<Rightarrow> string list \<Rightarrow> 'a validated \<Rightarrow> bool" where
  "lacks_all d ks x \<longleftrightarrow> (\<forall>k \<in> set ks. lacks d k x)"

lemma lacks_all_simps [simp]:
  "lacks_all d [] x"
  "lacks_all d (k # ks) x \<longleftrightarrow> lacks d k x \<and> lacks_all d ks x"
  by (simp_all add: lacks_all_def)

lemma lacks_all_right: "lacks_all d ks x \<Longrightarrow> lacks_all d ks (vap f x)"
  by (simp add: lacks_all_def lacks_right)

lemma lacks_all_shipment:
  "lacks_all d [''vendor_milestone'', ''transport_doc_number''] (v_shipment_base d)"
  by (simp only: lacks_all_simps lacks_shipment_base simp_thms)

lemma lacks_all_members:
  "lacks_all d (required_fields ''ISSUED'') (v_issued sc d)"
  "lacks_all d (required_fields ''PAID'') (v_paid sc d)"
  "lacks_all d (required_fields ''VOIDED'') (v_voided sc d)"
  "lacks_all d (required_fields ''REFUNDED'') (v_refunded sc d)"
  "lacks_all d (required_fields ''UNCLASSIFIED'') (v_unclassified d)"
  by (simp_all only: required_fields_simps lacks_all_simps lacks_invoice_fields simp_thms
      lacks_invoice_base [THEN lacks_invoices(1)] lacks_invoice_base [THEN lacks_invoices(2)]
      lacks_invoice_base [THEN lacks_invoices(3)] lacks_invoice_base [THEN lacks_invoices(4)])

lemma lacks_all_shipments:
  "lacks_all d [''vendor_milestone'', ''transport_doc_number''] (v_picked_up d)"
  "lacks_all d [''vendor_milestone'', ''transport_doc_number''] (v_in_transit d)"
  "lacks_all d [''vendor_milestone'', ''transport_doc_number''] (v_out_for_delivery d)"
  "lacks_all d [''vendor_milestone'', ''transport_doc_number''] (v_delivered d)"
  using lacks_all_shipment [of d] lacks_shipments [of d] unfolding lacks_all_def by blast+

lemma v_member_missing:
  assumes "tag \<in> set union_tags"
  shows "lacks_all d (required_fields tag) (v_member sc tag d)"
proof -
  have "tag \<in> set SHIPMENT_STATES \<or>
      tag \<in> {''ISSUED'', ''PAID'', ''VOIDED'', ''REFUNDED'', ''UNCLASSIFIED''}"
    using assms by (auto simp: union_tags_def ALL_CANONICAL_STATES_def INVOICE_STATES_def)
  then show ?thesis
  proof
    assume t: "tag \<in> set SHIPMENT_STATES"
    then consider "tag = ''PICKED_UP''" | "tag = ''IN_TRANSIT''" | "tag = ''OUT_FOR_DELIVERY''"
      | "tag = ''DELIVERED''" by (auto simp: SHIPMENT_STATES_def)
    then show ?thesis
      unfolding required_fields_simps(1) [OF t]
      by cases (simp_all only: v_member_simps lacks_all_right lacks_all_shipments)
  next
    assume "tag \<in> {''ISSUED'', ''PAID'', ''VOIDED'', ''REFUNDED'', ''UNCLASSIFIED''}"
    then show ?thesis
      by (elim insertE emptyE)
         (simp_all only: v_member_simps lacks_all_right lacks_all_members)
  qed
qed

lemma payload_error_reported:
  assumes "e \<in> set (errors (required d ''payload'' (validate_payload sc)))"
  shows "\<exists>es. model_validate sc (JObj d) = Inl es \<and> e \<in> set es"
proof -
  have "e \<in> set (errors (model_validate sc (JObj d)))" using assms by simp
  moreover from this have "model_validate sc (JObj d) = Inl (errors (model_validate sc (JObj d)))"
    by (intro errors_Inl) force
  ultimately show ?thesis by blast
qed

lemma validate_payload_missing:
  assumes tag: "map_of d ''canonical_state'' = Some (JStr tag)" "tag \<in> set union_tags"
    and k: "k \<in> set (required_fields tag)" "map_of d k = None"
  shows "VError [LKey tag, LKey k] ''missing'' \<in> set (errors (validate_payload sc (JObj d)))"
proof -
  have "under (LKey tag) (VError [LKey k] ''missing'')
          \<in> set (map (under (LKey tag)) (errors (v_member sc tag d)))"
    using v_member_missing [OF tag(2), of d sc] k
    by (auto simp: lacks_all_def lacks_def intro: rev_image_eqI)
  with tag show ?thesis by simp
qed

subsection \<open>model_dump\<close>

text \<open>
  \<open>payload.model_dump(mode="json", exclude_none=False)\<close>: every field of the class, inherited ones
  first, absent values as null.
\<close>

fun dump_opt :: "('a \<Rightarrow> json) \<Rightarrow> 'a option \<Rightarrow> json" where
  "dump_opt f None = JNull"
| "dump_opt f (Some x) = f x"

definition dump_shipment_base :: "'a shipment_payload_base_scheme \<Rightarrow> (string \<times> json) list" where
  "dump_shipment_base p =
     [(''extras'', JObj (extras p)), (''entity_type'', JStr ''shipment''),
      (''vendor_milestone'', JStr (s_vendor_milestone p)),
      (''transport_doc_number'', JStr (transport_doc_number p)),
      (''container_id'', dump_opt JStr (container_id p))]"

definition dump_invoice_base :: "'a invoice_payload_base_scheme \<Rightarrow> (string \<times> json) list" where
  "dump_invoice_base p =
     [(''extras'', JObj (extras p)), (''entity_type'', JStr ''invoice''),
      (''vendor_milestone'', JStr (i_vendor_milestone p)),
      (''document_reference'', JStr (document_reference p)),
      (''currency'', JStr (currency p)),
      (''payer'', dump_opt JStr (payer p)), (''payee'', dump_opt JStr (payee p))]"

definition dump_line_item :: "scalars \<Rightarrow> invoice_line_item \<Rightarrow> json" where
  "dump_line_item sc i =
     JObj [(''description'', JStr (li_description i)), (''amount'', dump_decimal sc (li_amount i)),
           (''currency'', JStr (li_currency i))]"

fun dump_payload :: "scalars \<Rightarrow> event_payload \<Rightarrow> (string \<times> json) list" where
  "dump_payload sc (ShipmentPickedUpPayload p) = dump_shipment_base p @
     [(''canonical_state'', JStr ''PICKED_UP''),
      (''origin_port_code'', dump_opt JStr (origin_port_code p)),
      (''origin_port_name'', dump_opt JStr (origin_port_name p)),
      (''shipper_reference'', dump_opt JStr (shipper_reference p))]"
| "dump_payload sc (ShipmentInTransitPayload p) = dump_shipment_base p @
     [(''canonical_state'', JStr ''IN_TRANSIT''),
      (''vessel_name'', dump_opt JStr (vessel_name p)),
      (''vessel_imo'', dump_opt JStr (vessel_imo p)),
      (''voyage_number'', dump_opt JStr (voyage_number p)),
      (''departure_port_code'', dump_opt JStr (departure_port_code p)),
      (''departure_port_name'', dump_opt JStr (departure_port_name p))]"
| "dump_payload sc (ShipmentOutForDeliveryPayload p) = dump_shipment_base p @
     [(''canonical_state'', JStr ''OUT_FOR_DELIVERY''),
      (''destination_port_code'', dump_opt JStr (destination_port_code p)),
      (''destination_port_name'', dump_opt JStr (destination_port_name p))]"
| "dump_payload sc (ShipmentDeliveredPayload p) = dump_shipment_base p @
     [(''canonical_state'', JStr ''DELIVERED''),
      (''consignee'', dump_opt JStr (consignee p)),
      (''delivery_port_code'', dump_opt JStr (delivery_port_code p)),
      (''delivery_order_number'', dump_opt JStr (delivery_order_number p))]"
| "dump_payload sc (InvoiceIssuedPayload p) = dump_invoice_base p @
     [(''canonical_state'', JStr ''ISSUED''),
      (''amount'', dump_decimal sc (amount p)),
      (''issued_at'', dump_datetime sc (issued_at p)),
      (''due_at'', dump_opt (dump_datetime sc) (due_at p)),
      (''line_items'', JArr (map (dump_line_item sc) (line_items p)))]"
| "dump_payload sc (InvoicePaidPayload p) = dump_invoice_base p @
     [(''canonical_state'', JStr ''PAID''),
      (''amount_paid'', dump_decimal sc (amount_paid p)),
      (''settled_at'', dump_datetime sc (settled_at p)),
      (''remitter'', dump_opt JStr (remitter p)),
      (''memo'', dump_opt JStr (memo p))]"
| "dump_payload sc (InvoiceVoidedPayload p) = dump_invoice_base p @
     [(''canonical_state'', JStr ''VOIDED''),
      (''voided_at'', dump_datetime sc (voided_at p)),
      (''void_reason'', dump_opt JStr (void_reason p))]"
| "dump_payload sc (InvoiceRefundedPayload p) = dump_invoice_base p @
     [(''canonical_state'', JStr ''REFUNDED''),
      (''refund_amount'', dump_decimal sc (refund_amount p)),
      (''refunded_at'', dump_datetime sc (refunded_at p)),
      (''refund_reason'', dump_opt JStr (refund_reason p))]"
| "dump_payload sc (UnclassifiedPayload p) =
     [(''extras'', JObj (extras p)), (''entity_type'', JStr ''unclassified''),
      (''canonical_state'', JStr ''UNCLASSIFIED''),
      (''reason'', JStr (unclassified_reason p))]"

subsection \<open>Dumping and validating again\<close>

text \<open>The datetimes and decimals a payload carries.\<close>

fun payload_datetimes :: "event_payload \<Rightarrow> datetime list" where
  "payload_datetimes (InvoiceIssuedPayload p) =
     issued_at p # (case due_at p of None \<Rightarrow> [] | Some t \<Rightarrow> [t])"
| "payload_datetimes (InvoicePaidPayload p) = [settled_at p]"
| "payload_datetimes (InvoiceVoidedPayload p) = [voided_at p]"
| "payload_datetimes (InvoiceRefundedPayload p) = [refunded_at p]"
| "payload_datetimes _ = []"

fun payload_decimals :: "event_payload \<Rightarrow> decimal list" where
  "payload_decimals (InvoiceIssuedPayload p) = amount p # map li_amount (line_items p)"
| "payload_decimals (InvoicePaidPayload p) = [amount_paid p]"
| "payload_decimals (InvoiceRefundedPayload p) = [refund_amount p]"
| "payload_decimals _ = []"

text \<open>
  What is required of pydantic's scalar conversions: the JSON form it writes for the datetimes and
  decimals of this payload is read back to the same value (and is not null).
\<close>

definition scalars_roundtrip :: "scalars \<Rightarrow> event_payload \<Rightarrow> bool" where
  "scalars_roundtrip sc p \<longleftrightarrow>
     (\<forall>t \<in> set (payload_datetimes p).
        parse_datetime sc (dump_datetime sc t) = Some t \<and> dump_datetime sc t \<noteq> JNull) \<and>
     (\<forall>x \<in> set (payload_decimals p). parse_decimal sc (dump_decimal sc x) = Some x)"

lemma v_opt_str_dump [simp]: "v_opt_str (dump_opt JStr x) = Inr x"
  by (cases x) (auto simp: v_str_def)

lemma v_opt_some: "j \<noteq> JNull \<Longrightarrow> v_opt p j = vap (Inr Some) (p j)"
  by (cases j) auto

lemma v_opt_datetime_dump:
  assumes "\<And>t. x = Some t \<Longrightarrow> parse_datetime sc (dump_datetime sc t) = Some t \<and> dump_datetime sc t \<noteq> JNull"
  shows "v_opt (v_datetime sc) (dump_opt (dump_datetime sc) x) = Inr x"
  using assms by (cases x) (auto simp: v_opt_some v_datetime_def)

lemma v_line_item_dump:
  "wf_line_item i \<Longrightarrow> parse_decimal sc (dump_decimal sc (li_amount i)) = Some (li_amount i) \<Longrightarrow>
     v_line_item sc (dump_line_item sc i) = Inr i"
  by (cases i)
     (auto simp: dump_line_item_def wf_line_item_def required_def v_str_def v_amount_def
        v_forbid_extra_def fail_with_def Suc_le_eq)

lemma v_items_dump:
  "(\<And>x. x \<in> set xs \<Longrightarrow> p (f x) = Inr x) \<Longrightarrow> v_items n p (map f xs) = Inr xs"
  by (induction xs arbitrary: n) auto

text \<open>Reading back a dumped field.\<close>

lemma required_str_dump:
  "map_of d k = Some (JStr s) \<Longrightarrow> s \<noteq> [] \<Longrightarrow> required d k (v_str (Suc 0) None) = Inr s"
  by (simp add: required_Inr v_nonempty_Inr)

lemma required_currency_dump:
  "map_of d k = Some (JStr s) \<Longrightarrow> length s = 3 \<Longrightarrow> required d k v_currency = Inr s"
  by (simp add: required_Inr v_currency_Inr)

lemma required_amount_dump:
  "map_of d k = Some (dump_decimal sc x) \<Longrightarrow> parse_decimal sc (dump_decimal sc x) = Some x \<Longrightarrow>
     dec_ge_0 x \<Longrightarrow> required d k (v_amount sc) = Inr x"
  by (simp add: required_Inr v_amount_Inr)

lemma required_datetime_dump:
  "map_of d k = Some (dump_datetime sc t) \<Longrightarrow> parse_datetime sc (dump_datetime sc t) = Some t \<Longrightarrow>
     required d k (v_datetime sc) = Inr t"
  by (simp add: required_Inr v_datetime_Inr)

lemma defaulted_dump: "map_of d k = Some j \<Longrightarrow> p j = Inr y \<Longrightarrow> defaulted d k x p = Inr y"
  by (simp add: defaulted_Inr)

lemma defaulted_opt_str_dump:
  "map_of d k = Some (dump_opt JStr x) \<Longrightarrow> defaulted d k None v_opt_str = Inr x"
  by (simp add: defaulted_dump)

lemma defaulted_literal_dump:
  "map_of d k = Some (JStr c) \<Longrightarrow> defaulted d k () (v_literal c) = Inr ()"
  by (simp add: defaulted_dump v_literal_def)

lemma defaulted_dict_dump:
  "map_of d k = Some (JObj x) \<Longrightarrow> defaulted d k [] v_dict = Inr x"
  by (simp add: defaulted_dump)

lemmas read_back = required_str_dump required_currency_dump required_amount_dump
  required_datetime_dump defaulted_opt_str_dump defaulted_literal_dump defaulted_dict_dump

lemma v_shipment_base_dump:
  assumes "wf_shipment p"
  shows "v_shipment_base (dump_shipment_base p @ rest) = Inr (shipment_payload_base.truncate p)"
  using assms
  by (simp add: v_shipment_base_def dump_shipment_base_def wf_shipment_def read_back
      shipment_payload_base.defs)

lemma v_invoice_base_dump:
  assumes "wf_invoice p"
  shows "v_invoice_base (dump_invoice_base p @ rest) = Inr (invoice_payload_base.truncate p)"
  using assms
  by (simp add: v_invoice_base_def dump_invoice_base_def wf_invoice_def read_back
      invoice_payload_base.defs)

lemma map_of_shipment_base:
  "map_of (dump_shipment_base p @ rest) k =
     (if k \<in> {''extras'', ''entity_type'', ''vendor_milestone'', ''transport_doc_number'', ''container_id''}
      then map_of (dump_shipment_base p) k else map_of rest k)"
  by (simp add: dump_shipment_base_def)

lemma map_of_invoice_base:
  "map_of (dump_invoice_base p @ rest) k =
     (if k \<in> {''extras'', ''entity_type'', ''vendor_milestone'', ''document_reference'', ''currency'',
              ''payer'', ''payee''}
      then map_of (dump_invoice_base p) k else map_of rest k)"
  by (simp add: dump_invoice_base_def)

lemma v_shipments_dump:
  "wf_shipment p1 \<Longrightarrow> v_picked_up (dump_payload sc (ShipmentPickedUpPayload p1)) = Inr p1"
  "wf_shipment p2 \<Longrightarrow> v_in_transit (dump_payload sc (ShipmentInTransitPayload p2)) = Inr p2"
  "wf_shipment p3 \<Longrightarrow>
     v_out_for_delivery (dump_payload sc (ShipmentOutForDeliveryPayload p3)) = Inr p3"
  "wf_shipment p4 \<Longrightarrow> v_delivered (dump_payload sc (ShipmentDeliveredPayload p4)) = Inr p4"
  by (simp_all add: v_picked_up_def v_in_transit_def v_out_for_delivery_def v_delivered_def
      v_shipment_base_dump map_of_shipment_base read_back shipment_payload_base.defs
      shipment_picked_up.defs shipment_in_transit.defs shipment_out_for_delivery.defs
      shipment_delivered.defs del: map_of_append)

lemma line_items_dump:
  assumes "\<forall>i \<in> set is. wf_line_item i"
    and "\<forall>i \<in> set is. parse_decimal sc (dump_decimal sc (li_amount i)) = Some (li_amount i)"
  shows "v_list (v_line_item sc) (JArr (map (dump_line_item sc) is)) = Inr is"
  using assms by (simp add: v_items_dump v_line_item_dump)

lemma v_issued_dump:
  assumes wf: "wf_payload (InvoiceIssuedPayload p)" and sc: "scalars_roundtrip sc (InvoiceIssuedPayload p)"
  shows "v_issued sc (dump_payload sc (InvoiceIssuedPayload p)) = Inr p"
proof -
  let ?d = "dump_payload sc (InvoiceIssuedPayload p)"
  have keys:
    "map_of ?d ''canonical_state'' = Some (JStr ''ISSUED'')"
    "map_of ?d ''amount'' = Some (dump_decimal sc (amount p))"
    "map_of ?d ''issued_at'' = Some (dump_datetime sc (issued_at p))"
    "map_of ?d ''due_at'' = Some (dump_opt (dump_datetime sc) (due_at p))"
    "map_of ?d ''line_items'' = Some (JArr (map (dump_line_item sc) (line_items p)))"
    by (simp_all add: map_of_invoice_base del: map_of_append)
  have base: "v_invoice_base ?d = Inr (invoice_payload_base.truncate p)"
    using wf by (simp add: v_invoice_base_dump)
  have due: "defaulted ?d ''due_at'' None (v_opt (v_datetime sc)) = Inr (due_at p)"
    by (rule defaulted_dump [OF keys(4)], rule v_opt_datetime_dump)
       (use sc in \<open>simp add: scalars_roundtrip_def\<close>)
  have li: "defaulted ?d ''line_items'' [] (v_list (v_line_item sc)) = Inr (line_items p)"
    by (rule defaulted_dump [OF keys(5)], rule line_items_dump)
       (use wf sc in \<open>simp_all add: scalars_roundtrip_def\<close>)
  have am: "required ?d ''amount'' (v_amount sc) = Inr (amount p)"
    by (rule required_amount_dump [OF keys(2)]) (use wf sc in \<open>simp_all add: scalars_roundtrip_def\<close>)
  have at: "required ?d ''issued_at'' (v_datetime sc) = Inr (issued_at p)"
    by (rule required_datetime_dump [OF keys(3)]) (use sc in \<open>simp add: scalars_roundtrip_def\<close>)
  show ?thesis
    unfolding v_issued_def base due li am at defaulted_literal_dump [OF keys(1)]
    by (simp add: invoice_payload_base.defs invoice_issued.defs)
qed

lemma v_invoices_dump:
  "wf_payload (InvoicePaidPayload p1) \<Longrightarrow> scalars_roundtrip sc (InvoicePaidPayload p1) \<Longrightarrow>
     v_paid sc (dump_payload sc (InvoicePaidPayload p1)) = Inr p1"
  "wf_payload (InvoiceVoidedPayload p2) \<Longrightarrow> scalars_roundtrip sc (InvoiceVoidedPayload p2) \<Longrightarrow>
     v_voided sc (dump_payload sc (InvoiceVoidedPayload p2)) = Inr p2"
  "wf_payload (InvoiceRefundedPayload p3) \<Longrightarrow> scalars_roundtrip sc (InvoiceRefundedPayload p3) \<Longrightarrow>
     v_refunded sc (dump_payload sc (InvoiceRefundedPayload p3)) = Inr p3"
  by (simp_all add: v_paid_def v_voided_def v_refunded_def v_invoice_base_dump map_of_invoice_base
      read_back scalars_roundtrip_def invoice_payload_base.defs invoice_paid.defs
      invoice_voided.defs invoice_refunded.defs del: map_of_append)

lemma v_unclassified_dump:
  "wf_payload (UnclassifiedPayload p) \<Longrightarrow>
     v_unclassified (dump_payload sc (UnclassifiedPayload p)) = Inr p"
  by (simp add: v_unclassified_def read_back)

lemma map_of_dump_state:
  "map_of (dump_payload sc p) ''canonical_state'' = Some (JStr (payload_state p))"
  by (cases p) (simp_all add: map_of_shipment_base map_of_invoice_base del: map_of_append)

lemma payload_state_tag: "payload_state p \<in> set union_tags"
  by (cases p) (simp_all add: union_tags_def ALL_CANONICAL_STATES_def SHIPMENT_STATES_def
      INVOICE_STATES_def)

lemma v_member_dump:
  assumes "wf_payload p" and "scalars_roundtrip sc p"
  shows "v_member sc (payload_state p) (dump_payload sc p) = Inr p"
  using assms
  by (cases p)
     (simp_all only: payload_state.simps v_member_simps wf_payload.simps(1-4) v_shipments_dump
       v_issued_dump v_invoices_dump v_unclassified_dump vap.simps)

lemma validate_payload_dump:
  "wf_payload p \<Longrightarrow> scalars_roundtrip sc p \<Longrightarrow> validate_payload sc (JObj (dump_payload sc p)) = Inr p"
  by (simp add: map_of_dump_state payload_state_tag v_member_dump)

end
