(* ===== verification/Normalization.thy ===== *)
theory Normalization
  imports Store Validation Config
begin

text \<open>
  \<^verbatim>\<open>app/services/normalization.py\<close>: \<open>persist_normalized\<close> writes a classified event into the
  entity and event tables and marks the raw event processed. \<open>Projection\<close> states what it implements.
\<close>

subsection \<open>persist_normalized\<close>

text \<open>\<open>_event_attributes\<close>.\<close>

definition event_attributes :: "scalars \<Rightarrow> normalized_event \<Rightarrow> json" where
  "event_attributes sc e = JObj (dump_payload sc (ne_payload e))"

text \<open>The choice of \<open>entity_model\<close> and \<open>event_model\<close>; \<open>None\<close> is the \<open>PersistError\<close> branch.\<close>

definition payload_kind :: "event_payload \<Rightarrow> entity_kind option" where
  "payload_kind p =
     (if is_shipment_payload p then Some ShipmentKind
      else if is_invoice_payload p then Some InvoiceKind
      else None)"

definition mark_processed :: "timestamp \<Rightarrow> string option \<Rightarrow> raw_event \<Rightarrow> raw_event" where
  "mark_processed now err r =
     r\<lparr>re_status := Processed, re_processed_at := Some now, re_last_error := err\<rparr>"

definition dropped_note :: "string \<Rightarrow> string" where
  "dropped_note rsn = py_prefix 2000 (''dropped: unclassified payload ('' @ rsn @ '')'')"

text \<open>
  \<open>now\<close> is the application's \<open>datetime.now(tz=UTC)\<close>, \<open>db_now\<close> the transaction's \<open>now()\<close>,
  \<open>eid\<close> and \<open>vid\<close> the ids \<open>gen_random_uuid()\<close> gives to a new entity and event row. The loaded
  row contributes its id and its \<open>vendor_hint\<close>. A missing natural key would violate the
  \<open>NOT NULL\<close> of \<open>external_ref\<close>.
\<close>

definition persist_classified ::
    "scalars \<Rightarrow> timestamp \<Rightarrow> timestamp \<Rightarrow> uuid \<Rightarrow> uuid \<Rightarrow> raw_event \<Rightarrow> normalized_event \<Rightarrow>
     (db, unit) tx" where
  "persist_classified sc now db_now eid vid raw e =
     (case ensure_utc (ne_event_at e) of
        None \<Rightarrow> tx_raise OverflowError
      | Some event_at \<Rightarrow>
     (let t = instant event_at; state = canonical_state e; vendor = re_vendor_hint raw;
          attributes = event_attributes sc e in
      case payload_kind (ne_payload e) of
        None \<Rightarrow> tx_raise (PersistError ''unsupported payload type'')
      | Some k \<Rightarrow>
     (case external_ref e of
        None \<Rightarrow> tx_raise (IntegrityError ''external_ref not null'')
      | Some ref \<Rightarrow>
          tx_bind (upsert_entity k now (new_entity eid db_now vendor ref attributes)) (\<lambda>entity_id.
          tx_bind (insert_event_or_nothing k
            \<lparr>ev_id = vid, ev_entity_id = entity_id, ev_raw_event_id = re_id raw,
             ev_canonical_state = state, ev_event_at = t,
             ev_vendor_milestone = vendor_milestone e, ev_attributes = attributes,
             ev_created_at = db_now\<rparr>) (\<lambda>_.
          tx_bind (advance_entity k entity_id state t attributes now) (\<lambda>_.
          update_raw (re_id raw) (mark_processed now None)))))))"

definition persist_normalized ::
    "scalars \<Rightarrow> settings \<Rightarrow> timestamp \<Rightarrow> timestamp \<Rightarrow> uuid \<Rightarrow> uuid \<Rightarrow> raw_event \<Rightarrow>
     normalized_event \<Rightarrow> (db, unit) tx" where
  "persist_normalized sc cfg now db_now eid vid raw e =
     (case ne_payload e of
        UnclassifiedPayload p \<Rightarrow>
          update_raw (re_id raw)
            (mark_processed now
              (if worker_keep_unclassified_events cfg then None
               else Some (dropped_note (unclassified_reason p))))
      | _ \<Rightarrow> persist_classified sc now db_now eid vid raw e)"

lemma mark_processed_simps [simp]:
  "re_id (mark_processed now err r) = re_id r"
  "re_vendor_hint (mark_processed now err r) = re_vendor_hint r"
  "re_payload (mark_processed now err r) = re_payload r"
  "re_hash_exact (mark_processed now err r) = re_hash_exact r"
  "re_duplicate_of_id (mark_processed now err r) = re_duplicate_of_id r"
  "re_status (mark_processed now err r) = Processed"
  "re_attempts (mark_processed now err r) = re_attempts r"
  "re_last_error (mark_processed now err r) = err"
  "re_locked_at (mark_processed now err r) = re_locked_at r"
  "re_processed_at (mark_processed now err r) = Some now"
  by (simp_all add: mark_processed_def)

lemma keeps_identity_mark_processed [keeps_intros]: "keeps_identity (mark_processed now err)"
  by (simp add: keeps_identity_def dedup_key_def)

lemma length_dropped_note: "length (dropped_note rsn) \<le> 2000"
  by (simp add: dropped_note_def)

lemma payload_kind_None: "payload_kind p = None \<longleftrightarrow> (\<exists>u. p = UnclassifiedPayload u)"
  by (cases p) (auto simp: payload_kind_def)

lemma payload_kind_external_ref: "payload_kind p = Some k \<Longrightarrow> \<exists>ref. payload_external_ref p = Some ref"
  by (cases p) (auto simp: payload_kind_def)

lemma persist_normalized_unclassified:
  "ne_payload e = UnclassifiedPayload p \<Longrightarrow>
     persist_normalized sc cfg now db_now eid vid raw e =
       update_raw (re_id raw)
         (mark_processed now
           (if worker_keep_unclassified_events cfg then None
            else Some (dropped_note (unclassified_reason p))))"
  by (simp add: persist_normalized_def)

lemma persist_normalized_classified:
  "payload_kind (ne_payload e) = Some k \<Longrightarrow>
     persist_normalized sc cfg now db_now eid vid raw e =
       persist_classified sc now db_now eid vid raw e"
  by (auto simp: persist_normalized_def payload_kind_def split: event_payload.splits)

lemma schema_persist_classified:
  "keeps schema_ok (persist_classified sc now db_now eid vid raw e)"
  unfolding persist_classified_def Let_def by (intro keeps_intros)

lemma schema_persist_normalized [keeps_intros]:
  "keeps schema_ok (persist_normalized sc cfg now db_now eid vid raw e)"
proof (cases "ne_payload e")
  case (UnclassifiedPayload p)
  show ?thesis
    unfolding persist_normalized_unclassified [OF UnclassifiedPayload] by (intro keeps_intros)
qed (simp_all add: persist_normalized_def schema_persist_classified)

text \<open>
  Neither the vendor nor the confidence the classifier extracted has any effect on what is stored.
\<close>

lemma persist_classified_ignores_envelope:
  "persist_classified sc now db_now eid vid raw (e\<lparr>ne_vendor := v, ne_confidence := c\<rparr>) =
     persist_classified sc now db_now eid vid raw e"
proof -
  let ?e = "e\<lparr>ne_vendor := v, ne_confidence := c\<rparr>"
  have eqs: "ne_event_at ?e = ne_event_at e" "canonical_state ?e = canonical_state e"
    "event_attributes sc ?e = event_attributes sc e" "ne_payload ?e = ne_payload e"
    "external_ref ?e = external_ref e" "vendor_milestone ?e = vendor_milestone e"
    by (simp_all add: canonical_state_def event_attributes_def external_ref_def vendor_milestone_def)
  show ?thesis unfolding persist_classified_def eqs ..
qed

lemma persist_ignores_envelope:
  "persist_normalized sc cfg now db_now eid vid raw (e\<lparr>ne_vendor := v, ne_confidence := c\<rparr>) =
     persist_normalized sc cfg now db_now eid vid raw e"
proof -
  have "ne_payload (e\<lparr>ne_vendor := v, ne_confidence := c\<rparr>) = ne_payload e" by simp
  then show ?thesis
    unfolding persist_normalized_def persist_classified_ignores_envelope by simp
qed

end
