(* ===== verification/Projection.thy ===== *)
theory Projection
  imports Normalization
begin

text \<open>
  What the entity tables are for: the latest event of each natural key. The specification is a map
  from keys to the latest event with the operation \<open>jump_to_latest\<close>; \<open>persist_normalized\<close> refines
  it, for shipments and for invoices. The contract is the locale \<open>latest_store\<close>, in which the
  ordering results are proved once.
\<close>

subsection \<open>Specification\<close>

text \<open>Time, state and attributes of an event.\<close>

datatype latest = Latest (lt_at: timestamp) (lt_state: string) (lt_attributes: json)

definition jump_to_latest :: "latest \<Rightarrow> latest option \<Rightarrow> latest option" where
  "jump_to_latest x p =
     (case p of None \<Rightarrow> Some x | Some y \<Rightarrow> if lt_at y < lt_at x then Some x else Some y)"

lemma jump_to_latest_commute:
  "lt_at x \<noteq> lt_at y \<Longrightarrow>
     jump_to_latest x (jump_to_latest y p) = jump_to_latest y (jump_to_latest x p)"
  by (auto simp: jump_to_latest_def split: option.splits)

lemma jump_to_latest_permutation:
  assumes "mset xs = mset ys" and "distinct (map lt_at xs)"
  shows "fold jump_to_latest xs p = fold jump_to_latest ys p"
proof -
  have "jump_to_latest x \<circ> jump_to_latest y = jump_to_latest y \<circ> jump_to_latest x"
    if "x \<in> set xs" "y \<in> set xs" for x y
  proof (cases "x = y")
    case False
    with that assms(2) have "lt_at x \<noteq> lt_at y"
      by (auto simp: distinct_map dest: inj_onD)
    then show ?thesis by (auto simp: fun_eq_iff jump_to_latest_commute)
  qed simp
  with assms(1) show ?thesis
    by (metis fold_multiset_equiv)
qed

lemma jump_to_latest_Some: "\<exists>y. jump_to_latest x p = Some y \<and> lt_at x \<le> lt_at y"
  by (auto simp: jump_to_latest_def split: option.splits)

lemma fold_jump_bound:
  "fold jump_to_latest xs (Some y) = Some z \<Longrightarrow> lt_at y \<le> lt_at z \<and> (\<forall>x \<in> set xs. lt_at x \<le> lt_at z)"
proof (induction xs arbitrary: y)
  case (Cons x xs)
  obtain w where w: "jump_to_latest x (Some y) = Some w" "lt_at x \<le> lt_at w" "lt_at y \<le> lt_at w"
    using that by (cases "lt_at y < lt_at x") (auto simp: jump_to_latest_def)
  with Cons.prems Cons.IH [of w] show ?case by auto
qed simp

lemma fold_jump_is_Some: "\<exists>z. fold jump_to_latest xs (Some y) = Some z"
proof (induction xs arbitrary: y)
  case (Cons x xs)
  then show ?case using jump_to_latest_Some [of x "Some y"] by auto
qed simp

lemma fold_jump_member:
  "fold jump_to_latest xs p = Some z \<Longrightarrow> p = Some z \<or> z \<in> set xs"
proof (induction xs arbitrary: p)
  case (Cons x xs)
  then have "jump_to_latest x p = Some z \<or> z \<in> set xs" by auto
  then show ?case by (auto simp: jump_to_latest_def split: option.splits if_splits)
qed simp

text \<open>From nothing, the result is an event no other event is later than.\<close>

lemma fold_jump_greatest:
  assumes "xs \<noteq> []"
  shows "\<exists>z \<in> set xs. fold jump_to_latest xs None = Some z \<and> (\<forall>x \<in> set xs. lt_at x \<le> lt_at z)"
proof -
  obtain y ys where xs: "xs = y # ys" using assms by (cases xs) auto
  obtain z where z: "fold jump_to_latest ys (Some y) = Some z" using fold_jump_is_Some by blast
  from fold_jump_bound [OF z] fold_jump_member [OF z] z show ?thesis
    unfolding xs by (intro bexI [of _ z]) (auto simp: jump_to_latest_def)
qed

subsection \<open>The contract of a store of latest events\<close>

text \<open>
  \<open>put n x\<close> relates the states before and after recording event \<open>x\<close> for key \<open>n\<close>; \<open>view\<close> is the
  abstraction.
\<close>

locale latest_store =
  fixes ok :: "'d \<Rightarrow> bool"
    and view :: "'d \<Rightarrow> 'n \<Rightarrow> latest option"
    and put :: "'n \<times> latest \<Rightarrow> 'd \<Rightarrow> 'd \<Rightarrow> bool"
  assumes put_ok: "ok d \<Longrightarrow> put (n, x) d d' \<Longrightarrow> ok d'"
    and view_put: "ok d \<Longrightarrow> put (n, x) d d' \<Longrightarrow>
          view d' m = (if m = n then jump_to_latest x (view d n) else view d m)"
begin

text \<open>A run computes, for each key, the fold of its events.\<close>

lemma view_run:
  "ok d \<Longrightarrow> run_steps put xs d d' \<Longrightarrow>
     view d' n = fold jump_to_latest (map snd (filter (\<lambda>y. fst y = n) xs)) (view d n)"
proof (induction xs arbitrary: d)
  case (Cons y ys)
  obtain m x where y: "y = (m, x)" by (cases y)
  with Cons.prems obtain u where u: "put (m, x) d u" "run_steps put ys u d'" by auto
  from Cons.IH [OF put_ok [OF Cons.prems(1) u(1)] u(2)]
  show ?case by (simp add: y view_put [OF Cons.prems(1) u(1)])
qed simp

text \<open>The outcome does not depend on the order of arrival.\<close>

lemma view_order_independent:
  assumes "ok d" and "run_steps put xs d d1" and "run_steps put ys d d2" and "mset xs = mset ys"
    and "distinct (map lt_at (map snd (filter (\<lambda>y. fst y = n) xs)))"
  shows "view d1 n = view d2 n"
  unfolding view_run [OF assms(1,2)] view_run [OF assms(1,3)]
  by (rule jump_to_latest_permutation) (use assms in simp_all)

text \<open>From a state without the key, the outcome is one of its events, and none is later.\<close>

lemma view_latest:
  assumes "ok d" and "run_steps put xs d d'" and "view d n = None"
    and "filter (\<lambda>y. fst y = n) xs \<noteq> []"
  shows "\<exists>x. (n, x) \<in> set xs \<and> view d' n = Some x \<and> (\<forall>z. (n, z) \<in> set xs \<longrightarrow> lt_at z \<le> lt_at x)"
proof -
  let ?es = "map snd (filter (\<lambda>y. fst y = n) xs)"
  have "?es \<noteq> []" using assms(4) by simp
  from fold_jump_greatest [OF this]
  obtain x where x: "x \<in> set ?es" "fold jump_to_latest ?es None = Some x"
      "\<forall>z \<in> set ?es. lt_at z \<le> lt_at x"
    by blast
  have "(n, z) \<in> set xs \<longleftrightarrow> z \<in> set ?es" for z by force
  with x view_run [OF assms(1,2), of n] assms(3) show ?thesis by auto
qed

text \<open>A key's latest event never moves back in time.\<close>

lemma view_monotone:
  assumes "ok d" and "run_steps put xs d d'" and "view d n = Some y"
  shows "\<exists>z. view d' n = Some z \<and> lt_at y \<le> lt_at z"
  using view_run [OF assms(1,2), of n] assms(3) fold_jump_is_Some fold_jump_bound by metis

end

subsection \<open>The projection an entity row holds\<close>

text \<open>A row as the upsert creates it has no state yet: it stands for no event.\<close>

definition projection :: "entity \<Rightarrow> latest option" where
  "projection e =
     (case en_last_event_at e of
        None \<Rightarrow> None
      | Some t \<Rightarrow> (case en_current_state e of
          None \<Rightarrow> None
        | Some s \<Rightarrow> Some (Latest t s (en_attributes e))))"

definition entity_view :: "entity_kind \<Rightarrow> db \<Rightarrow> string \<times> string \<Rightarrow> latest option" where
  "entity_view k d n = Option.bind (row_lookup natural_key (entities k d) n) projection"

text \<open>The state and the time of the last event are set together.\<close>

definition stamped :: "entity \<Rightarrow> bool" where
  "stamped e \<longleftrightarrow> (en_last_event_at e = None \<longleftrightarrow> en_current_state e = None)"

definition projection_ok :: "db \<Rightarrow> bool" where
  "projection_ok d \<longleftrightarrow> schema_ok d \<and> (\<forall>k. \<forall>e \<in> set (entities k d). stamped e)"

lemma projection_advance:
  "stamped e \<Longrightarrow> projection (advance s t a now e) = jump_to_latest (Latest t s a) (projection e)"
  by (cases "en_last_event_at e"; cases "en_current_state e")
     (auto simp: projection_def advance_def is_newer_def stamped_def jump_to_latest_def)

lemma stamped_advance: "stamped e \<Longrightarrow> stamped (advance s t a now e)"
  by (auto simp: stamped_def advance_def)

lemma projection_touch [simp]: "projection (e\<lparr>en_updated_at := t\<rparr>) = projection e"
  by (simp add: projection_def split: option.splits)

lemma stamped_touch [simp]: "stamped (e\<lparr>en_updated_at := t\<rparr>) = stamped e"
  by (simp add: stamped_def)

lemma stamped_new_entity [simp]: "stamped (new_entity i t v r a)"
  by (simp add: stamped_def new_entity_def)

lemma new_entity_simps [simp]:
  "en_id (new_entity i t v r a) = i"
  "natural_key (new_entity i t v r a) = (v, r)"
  "projection (new_entity i t v r a) = None"
  "en_last_event_at (new_entity i t v r a) = None"
  "entity_fits (new_entity i t v r a) = (varchar 64 v \<and> varchar 128 r)"
  by (simp_all add: new_entity_def natural_key_def projection_def entity_fits_def)

subsection \<open>Effect of the statements\<close>

text \<open>What \<open>upsert_entity\<close> leaves: one row for the key, with the returned id and the old view.\<close>

lemma upsert_entity_effect:
  assumes d: "schema_ok d" and run: "upsert_entity k now e d = (Inr i, d1)"
  obtains x where "row_lookup natural_key (entities k d1) (natural_key e) = Some x" "en_id x = i"
    "x = e \<and> row_lookup natural_key (entities k d) (natural_key e) = None \<or>
     (\<exists>old. row_lookup natural_key (entities k d) (natural_key e) = Some old \<and>
            x = old\<lparr>en_updated_at := now\<rparr>)"
    "\<And>n. n \<noteq> natural_key e \<Longrightarrow>
       row_lookup natural_key (entities k d1) n = row_lookup natural_key (entities k d) n"
    "\<And>k'. k' \<noteq> k \<Longrightarrow> entities k' d1 = entities k' d"
    "\<And>k'. entity_events k' d1 = entity_events k' d" "raw_events d1 = raw_events d"
proof (cases "row_lookup natural_key (entities k d) (natural_key e)")
  case None
  with run have d1: "d1 = set_entities k (entities k d @ [e]) d" "i = en_id e"
    by (auto simp: upsert_entity_def split: if_splits)
  have "row_lookup natural_key (entities k d1) (natural_key e) = Some e"
    using None by (simp add: d1 row_lookup_append)
  moreover have "row_lookup natural_key (entities k d1) n = row_lookup natural_key (entities k d) n"
    if "n \<noteq> natural_key e" for n
    using that by (simp add: d1 row_lookup_append split: option.splits)
  ultimately show ?thesis using None by (intro that [of e]) (simp_all add: d1)
next
  case (Some old)
  let ?f = "\<lambda>x. x\<lparr>en_updated_at := now\<rparr>"
  from run Some have d1: "d1 = set_entities k (row_update en_id (en_id old) ?f (entities k d)) d"
      "i = en_id old"
    by (auto simp: upsert_entity_def split: if_splits)
  have ids: "distinct (map en_id (entities k d))"
    using d by (simp add: schema_ok_def kind_schema_ok_def)
  have "row_lookup natural_key (entities k d1) n =
          (if n = natural_key e then Some (?f old) else row_lookup natural_key (entities k d) n)" for n
    using row_lookup_other_key [OF ids Some, of ?f] by (simp add: d1)
  then show ?thesis using Some by (intro that [of "?f old"]) (simp_all add: d1)
qed

lemma advance_entity_effect:
  assumes d: "schema_ok d" and run: "advance_entity k i s t a now d = (Inr (), d1)"
    and x: "row_lookup natural_key (entities k d) n = Some x" "en_id x = i"
  shows "row_lookup natural_key (entities k d1) m =
           (if m = n then Some (advance s t a now x) else row_lookup natural_key (entities k d) m)"
    and "k' \<noteq> k \<Longrightarrow> entities k' d1 = entities k' d"
    and "entity_events k' d1 = entity_events k' d" and "raw_events d1 = raw_events d"
proof -
  from run x have d1: "d1 = set_entities k (row_update en_id (en_id x) (advance s t a now) (entities k d)) d"
    by (auto simp: advance_entity_def split: if_splits)
  have ids: "distinct (map en_id (entities k d))"
    using d by (simp add: schema_ok_def kind_schema_ok_def)
  show "row_lookup natural_key (entities k d1) m =
           (if m = n then Some (advance s t a now x) else row_lookup natural_key (entities k d) m)"
    using row_lookup_other_key [OF ids x(1), of "advance s t a now"] by (simp add: d1)
qed (use run in \<open>auto simp: advance_entity_def split: if_splits\<close>)

lemma insert_event_effect:
  assumes "insert_event_or_nothing k v d = (Inr (), d1)"
  shows "entities k' d1 = entities k' d" and "raw_events d1 = raw_events d"
    and "k' \<noteq> k \<Longrightarrow> entity_events k' d1 = entity_events k' d"
    and "entity_events k d1 =
           (if ev_raw_event_id v \<in> ev_raw_event_id ` set (entity_events k d) then entity_events k d
            else entity_events k d @ [v])"
  using assms by (auto simp: insert_event_or_nothing_def split: if_splits)

lemma update_raw_effect:
  assumes "update_raw i f d = (Inr (), d1)"
  shows "entities k d1 = entities k d" and "entity_events k d1 = entity_events k d"
    and "raw_events d1 = row_update re_id i f (raw_events d)"
  using assms by (auto simp: update_raw_def split: if_splits)

subsection \<open>Effect of persist_normalized\<close>

definition event_latest :: "scalars \<Rightarrow> normalized_event \<Rightarrow> latest" where
  "event_latest sc e = Latest (instant (ne_event_at e)) (canonical_state e) (event_attributes sc e)"

text \<open>The history row the event leads to, for entity \<open>i\<close>.\<close>

definition event_row ::
    "scalars \<Rightarrow> timestamp \<Rightarrow> uuid \<Rightarrow> uuid \<Rightarrow> uuid \<Rightarrow> normalized_event \<Rightarrow> entity_event" where
  "event_row sc db_now vid i raw_id e =
     \<lparr>ev_id = vid, ev_entity_id = i, ev_raw_event_id = raw_id,
      ev_canonical_state = canonical_state e, ev_event_at = instant (ne_event_at e),
      ev_vendor_milestone = vendor_milestone e, ev_attributes = event_attributes sc e,
      ev_created_at = db_now\<rparr>"

lemma persist_classified_steps:
  assumes "persist_classified sc now db_now eid vid raw e d = (Inr (), d')"
    and k: "payload_kind (ne_payload e) = Some k" and ref: "external_ref e = Some ref"
  obtains i d1 d2 d3 where
    "upsert_entity k now (new_entity eid db_now (re_vendor_hint raw) ref (event_attributes sc e)) d
       = (Inr i, d1)"
    "insert_event_or_nothing k (event_row sc db_now vid i (re_id raw) e) d1 = (Inr (), d2)"
    "advance_entity k i (canonical_state e) (instant (ne_event_at e)) (event_attributes sc e) now d2
       = (Inr (), d3)"
    "update_raw (re_id raw) (mark_processed now None) d3 = (Inr (), d')"
proof -
  obtain u where u: "ensure_utc (ne_event_at e) = Some u"
    using assms(1) by (cases "ensure_utc (ne_event_at e)") (auto simp: persist_classified_def)
  show ?thesis
    using assms(1) ensure_utc_instant [OF u]
    by (auto simp: persist_classified_def u k ref Let_def tx_bind_success event_row_def
        intro: that)
qed

lemma persist_effect:
  assumes d: "schema_ok d" and run: "persist_normalized sc cfg now db_now eid vid raw e d = (Inr (), d')"
    and k: "payload_kind (ne_payload e) = Some k" and ref: "external_ref e = Some ref"
  obtains x where
    "row_lookup natural_key (entities k d') (re_vendor_hint raw, ref) =
       Some (advance (canonical_state e) (instant (ne_event_at e)) (event_attributes sc e) now x)"
    "projection x = entity_view k d (re_vendor_hint raw, ref)"
    "x = new_entity eid db_now (re_vendor_hint raw) ref (event_attributes sc e) \<and>
       row_lookup natural_key (entities k d) (re_vendor_hint raw, ref) = None \<or>
     (\<exists>old. row_lookup natural_key (entities k d) (re_vendor_hint raw, ref) = Some old \<and>
            x = old\<lparr>en_updated_at := now\<rparr>)"
    "\<And>n. n \<noteq> (re_vendor_hint raw, ref) \<Longrightarrow>
       row_lookup natural_key (entities k d') n = row_lookup natural_key (entities k d) n"
    "\<And>k'. k' \<noteq> k \<Longrightarrow> entities k' d' = entities k' d"
    "\<And>k'. k' \<noteq> k \<Longrightarrow> entity_events k' d' = entity_events k' d"
    "entity_events k d' =
       (if re_id raw \<in> ev_raw_event_id ` set (entity_events k d) then entity_events k d
        else entity_events k d @ [event_row sc db_now vid (en_id x) (re_id raw) e])"
    "raw_events d' = row_update re_id (re_id raw) (mark_processed now None) (raw_events d)"
proof -
  let ?n = "(re_vendor_hint raw, ref)"
  have "persist_classified sc now db_now eid vid raw e d = (Inr (), d')"
    using run by (simp add: persist_normalized_classified [OF k])
  from persist_classified_steps [OF this k ref] obtain i d1 d2 d3 where steps:
    "upsert_entity k now (new_entity eid db_now (re_vendor_hint raw) ref (event_attributes sc e)) d
       = (Inr i, d1)"
    "insert_event_or_nothing k (event_row sc db_now vid i (re_id raw) e) d1 = (Inr (), d2)"
    "advance_entity k i (canonical_state e) (instant (ne_event_at e)) (event_attributes sc e) now d2
       = (Inr (), d3)"
    "update_raw (re_id raw) (mark_processed now None) d3 = (Inr (), d')" by blast
  have s1: "schema_ok d1" using keepsD [OF schema_upsert_entity d] steps(1) by (metis snd_conv)
  have s2: "schema_ok d2" using keepsD [OF schema_insert_event s1] steps(2) by (metis snd_conv)
  let ?new = "new_entity eid db_now (re_vendor_hint raw) ref (event_attributes sc e)"
  have nk: "natural_key ?new = ?n" by simp
  obtain x where x:
    "row_lookup natural_key (entities k d1) ?n = Some x" "en_id x = i"
    "x = ?new \<and> row_lookup natural_key (entities k d) ?n = None \<or>
     (\<exists>old. row_lookup natural_key (entities k d) ?n = Some old \<and> x = old\<lparr>en_updated_at := now\<rparr>)"
    "\<And>n. n \<noteq> ?n \<Longrightarrow>
       row_lookup natural_key (entities k d1) n = row_lookup natural_key (entities k d) n"
    "\<And>k'. k' \<noteq> k \<Longrightarrow> entities k' d1 = entities k' d"
    "\<And>k'. entity_events k' d1 = entity_events k' d" "raw_events d1 = raw_events d"
    by (fact upsert_entity_effect [OF d steps(1), unfolded nk])
  note e2 = insert_event_effect [OF steps(2)]
  have x2: "row_lookup natural_key (entities k d2) ?n = Some x" using x(1) by (simp add: e2)
  note e3 = advance_entity_effect [OF s2 steps(3) x2 x(2)]
  note e4 = update_raw_effect [OF steps(4)]
  have "projection x = entity_view k d ?n"
    using x(3) by (auto simp: entity_view_def)
  then show ?thesis
    using x(3) by (intro that [of x])
      (simp_all add: e4 e3 e2 x(2,4,5,6,7) event_row_def cong: if_cong)
qed

subsection \<open>persist_normalized refines the specification\<close>

text \<open>
  \<open>persist_step k (n, x) d d'\<close>: some call of \<open>persist_normalized\<close> with an event of kind \<open>k\<close>, key
  \<open>n\<close> and content \<open>x\<close> returned and took \<open>d\<close> to \<open>d'\<close>.
\<close>

definition persist_step ::
    "entity_kind \<Rightarrow> (string \<times> string) \<times> latest \<Rightarrow> db \<Rightarrow> db \<Rightarrow> bool" where
  "persist_step k y d d' \<longleftrightarrow>
     (\<exists>sc cfg now db_now eid vid raw e ref.
        payload_kind (ne_payload e) = Some k \<and> external_ref e = Some ref \<and>
        y = ((re_vendor_hint raw, ref), event_latest sc e) \<and>
        persist_normalized sc cfg now db_now eid vid raw e d = (Inr (), d'))"

lemma persist_stepI:
  "payload_kind (ne_payload e) = Some k \<Longrightarrow> external_ref e = Some ref \<Longrightarrow>
     persist_normalized sc cfg now db_now eid vid raw e d = (Inr (), d') \<Longrightarrow>
     persist_step k ((re_vendor_hint raw, ref), event_latest sc e) d d'"
  unfolding persist_step_def by blast

lemma schema_natural_keys: "schema_ok d \<Longrightarrow> distinct (map natural_key (entities k d))"
  by (simp add: schema_ok_def kind_schema_ok_def)

lemma lookup_natural_key:
  "schema_ok d \<Longrightarrow> e \<in> set (entities k d) \<Longrightarrow>
     row_lookup natural_key (entities k d) (natural_key e) = Some e"
  by (rule row_lookup_in [OF schema_natural_keys])

lemma schema_after_persist:
  "schema_ok d \<Longrightarrow> persist_normalized sc cfg now db_now eid vid raw e d = (r, d') \<Longrightarrow> schema_ok d'"
  using keepsD [OF schema_persist_normalized, of d] by (metis snd_conv)

text \<open>A property of rows that creation, touching and advancing give or keep holds after a persist.\<close>

lemma persist_rows:
  assumes d: "schema_ok d" and run: "persist_normalized sc cfg now db_now eid vid raw e d = (Inr (), d')"
    and kind: "payload_kind (ne_payload e) = Some k" and ref: "external_ref e = Some ref"
    and old: "\<And>k'. \<forall>x \<in> set (entities k' d). P x"
    and new: "\<And>i t v r a s t' now. P (advance s t' a now (new_entity i t v r a))"
    and upd: "\<And>x s t a now. P x \<Longrightarrow> P (advance s t a now (x\<lparr>en_updated_at := now\<rparr>))"
  shows "\<forall>x \<in> set (entities k' d'). P x"
proof (cases "k' = k")
  case True
  show ?thesis
  proof (rule persist_effect [OF d run kind ref])
    fix x
    let ?x = "advance (canonical_state e) (instant (ne_event_at e)) (event_attributes sc e) now x"
    assume x: "row_lookup natural_key (entities k d') (re_vendor_hint raw, ref) = Some ?x"
      and o: "x = new_entity eid db_now (re_vendor_hint raw) ref (event_attributes sc e) \<and>
       row_lookup natural_key (entities k d) (re_vendor_hint raw, ref) = None \<or>
       (\<exists>old. row_lookup natural_key (entities k d) (re_vendor_hint raw, ref) = Some old \<and>
            x = old\<lparr>en_updated_at := now\<rparr>)"
      and n: "\<And>n. n \<noteq> (re_vendor_hint raw, ref) \<Longrightarrow>
       row_lookup natural_key (entities k d') n = row_lookup natural_key (entities k d) n"
    from o have "P ?x" using old [of k] new upd by (auto dest: row_lookup_Some)
    moreover have "P y" if "row_lookup natural_key (entities k d) m = Some y" for m y
      using that old [of k] by (auto dest: row_lookup_Some)
    ultimately have "P y" if "row_lookup natural_key (entities k d') m = Some y" for m y
      using that x n [of m] by (cases "m = (re_vendor_hint raw, ref)") auto
    then show ?thesis
      unfolding True rows_by_lookup [OF schema_natural_keys [OF schema_after_persist [OF d run]]]
      by blast
  qed
next
  case False
  show ?thesis
  proof (rule persist_effect [OF d run kind ref])
    assume "\<And>k'. k' \<noteq> k \<Longrightarrow> entities k' d' = entities k' d"
    with False old show ?thesis by simp
  qed
qed

lemma stamped_step: "stamped x \<Longrightarrow> stamped (advance s t a now (x\<lparr>en_updated_at := now\<rparr>))"
  by (simp add: stamped_advance)

lemma projection_ok_persist:
  assumes ok: "projection_ok d" and run: "persist_normalized sc cfg now db_now eid vid raw e d = (Inr (), d')"
    and kind: "payload_kind (ne_payload e) = Some k" and ref: "external_ref e = Some ref"
  shows "projection_ok d'"
proof -
  have d: "schema_ok d" and "\<And>k. \<forall>x \<in> set (entities k d). stamped x"
    using ok by (simp_all add: projection_ok_def)
  then have "\<forall>x \<in> set (entities k' d'). stamped x" for k'
    by (intro persist_rows [OF d run kind ref]) (auto simp: stamped_advance)
  with schema_after_persist [OF d run] show ?thesis by (simp add: projection_ok_def)
qed

lemma persist_view:
  assumes ok: "projection_ok d" and run: "persist_normalized sc cfg now db_now eid vid raw e d = (Inr (), d')"
    and kind: "payload_kind (ne_payload e) = Some k" and ref: "external_ref e = Some ref"
  shows "entity_view k d' n =
           (if n = (re_vendor_hint raw, ref) then jump_to_latest (event_latest sc e) (entity_view k d n)
            else entity_view k d n)"
    and "k' \<noteq> k \<Longrightarrow> entity_view k' d' n = entity_view k' d n"
proof -
  have d: "schema_ok d" using ok by (simp add: projection_ok_def)
  show "entity_view k d' n =
           (if n = (re_vendor_hint raw, ref) then jump_to_latest (event_latest sc e) (entity_view k d n)
            else entity_view k d n)"
  proof (rule persist_effect [OF d run kind ref])
    fix x
    let ?x = "advance (canonical_state e) (instant (ne_event_at e)) (event_attributes sc e) now x"
    assume x: "row_lookup natural_key (entities k d') (re_vendor_hint raw, ref) = Some ?x"
      "projection x = entity_view k d (re_vendor_hint raw, ref)"
      and o: "x = new_entity eid db_now (re_vendor_hint raw) ref (event_attributes sc e) \<and>
       row_lookup natural_key (entities k d) (re_vendor_hint raw, ref) = None \<or>
       (\<exists>old. row_lookup natural_key (entities k d) (re_vendor_hint raw, ref) = Some old \<and>
            x = old\<lparr>en_updated_at := now\<rparr>)"
      and n: "\<And>n. n \<noteq> (re_vendor_hint raw, ref) \<Longrightarrow>
       row_lookup natural_key (entities k d') n = row_lookup natural_key (entities k d) n"
    from o have "stamped x" using ok by (auto simp: projection_ok_def dest: row_lookup_Some)
    from projection_advance [OF this] x n [of n] show ?thesis
      by (simp add: entity_view_def event_latest_def)
  qed
  show "k' \<noteq> k \<Longrightarrow> entity_view k' d' n = entity_view k' d n"
  proof (rule persist_effect [OF d run kind ref])
    assume "k' \<noteq> k" "\<And>k'. k' \<noteq> k \<Longrightarrow> entities k' d' = entities k' d"
    then show ?thesis by (simp add: entity_view_def)
  qed
qed

interpretation persisted: latest_store projection_ok "entity_view k" "persist_step k" for k
proof unfold_locales
  fix d d' n m x
  assume ok: "projection_ok d" and "persist_step k (n, x) d d'"
  then obtain sc cfg now db_now eid vid raw e ref where e:
    "payload_kind (ne_payload e) = Some k" "external_ref e = Some ref"
    "n = (re_vendor_hint raw, ref)" "x = event_latest sc e"
    "persist_normalized sc cfg now db_now eid vid raw e d = (Inr (), d')"
    by (auto simp: persist_step_def)
  show "projection_ok d'" by (rule projection_ok_persist [OF ok e(5,1,2)])
  show "entity_view k d' m =
      (if m = n then jump_to_latest x (entity_view k d n) else entity_view k d m)"
    using persist_view(1) [OF ok e(5,1,2), of m] by (simp add: e(3,4))
qed

end
