(* ===== verification/History.thy ===== *)
theory History
  imports Projection
begin

text \<open>
  The event log against the entity rows. \<open>history_bound\<close>: no logged event is later than its entity's
  \<open>last_event_at\<close>; every persist keeps it. \<open>replay_ok\<close>: an entity row is exactly the replay of its
  log in order of insertion; a persist of a raw event that has no logged event yet keeps it.
\<close>

definition event_as_latest :: "entity_event \<Rightarrow> latest" where
  "event_as_latest v = Latest (ev_event_at v) (ev_canonical_state v) (ev_attributes v)"

definition history :: "entity_kind \<Rightarrow> uuid \<Rightarrow> db \<Rightarrow> entity_event list" where
  "history k i d = filter (\<lambda>v. ev_entity_id v = i) (entity_events k d)"

definition replay :: "entity_kind \<Rightarrow> uuid \<Rightarrow> db \<Rightarrow> latest option" where
  "replay k i d = fold jump_to_latest (map event_as_latest (history k i d)) None"

definition replay_ok :: "db \<Rightarrow> bool" where
  "replay_ok d \<longleftrightarrow> (\<forall>k. \<forall>e \<in> set (entities k d). projection e = replay k (en_id e) d)"

definition history_bound :: "db \<Rightarrow> bool" where
  "history_bound d \<longleftrightarrow>
     (\<forall>k. \<forall>v \<in> set (entity_events k d). \<forall>e \<in> set (entities k d).
        en_id e = ev_entity_id v \<longrightarrow>
          (\<exists>t. en_last_event_at e = Some t \<and> ev_event_at v \<le> t))"

lemma replay_ok_empty: "replay_ok empty_db"
  by (simp add: replay_ok_def empty_db_def all_kinds)

lemma history_bound_empty: "history_bound empty_db"
  by (simp add: history_bound_def empty_db_def all_kinds)

lemma advance_last:
  "\<exists>l. en_last_event_at (advance s t a now x) = Some l \<and> t \<le> l \<and>
       (\<forall>l0. en_last_event_at x = Some l0 \<longrightarrow> l0 \<le> l)"
  by (cases "en_last_event_at x") (auto simp: advance_def is_newer_def)

lemma event_row_simps [simp]:
  "ev_id (event_row sc t vid i r e) = vid"
  "ev_entity_id (event_row sc t vid i r e) = i"
  "ev_raw_event_id (event_row sc t vid i r e) = r"
  "ev_event_at (event_row sc t vid i r e) = instant (ne_event_at e)"
  "event_as_latest (event_row sc t vid i r e) = event_latest sc e"
  by (simp_all add: event_row_def event_as_latest_def event_latest_def)

text \<open>
  The rows after a persist: the one row it wrote, which no other row shares its id with, and rows
  that were there before.
\<close>

lemma persist_entity_rows:
  assumes d: "schema_ok d" and run: "persist_normalized sc cfg now db_now eid vid raw e d = (Inr (), d')"
    and kind: "payload_kind (ne_payload e) = Some k" and ref: "external_ref e = Some ref"
  obtains x where
    "\<And>y. y \<in> set (entities k d') \<Longrightarrow>
       y = advance (canonical_state e) (instant (ne_event_at e)) (event_attributes sc e) now x \<or>
       y \<in> set (entities k d) \<and> en_id y \<noteq> en_id x"
    "(\<forall>y \<in> set (entities k d). en_id y \<noteq> en_id x) \<and> en_last_event_at x = None \<and> projection x = None \<and> stamped x \<or>
     (\<exists>old \<in> set (entities k d). en_id old = en_id x \<and> projection x = projection old \<and>
        en_last_event_at x = en_last_event_at old \<and> stamped x = stamped old)"
    "\<And>k'. k' \<noteq> k \<Longrightarrow> entities k' d' = entities k' d \<and> entity_events k' d' = entity_events k' d"
    "entity_events k d' =
       (if re_id raw \<in> ev_raw_event_id ` set (entity_events k d) then entity_events k d
        else entity_events k d @ [event_row sc db_now vid (en_id x) (re_id raw) e])"
proof (rule persist_effect [OF d run kind ref])
  fix x
  let ?n = "(re_vendor_hint raw, ref)"
  let ?x = "advance (canonical_state e) (instant (ne_event_at e)) (event_attributes sc e) now x"
  assume x: "row_lookup natural_key (entities k d') ?n = Some ?x"
    and o: "x = new_entity eid db_now (re_vendor_hint raw) ref (event_attributes sc e) \<and>
       row_lookup natural_key (entities k d) ?n = None \<or>
       (\<exists>old. row_lookup natural_key (entities k d) ?n = Some old \<and> x = old\<lparr>en_updated_at := now\<rparr>)"
    and n: "\<And>n. n \<noteq> ?n \<Longrightarrow>
       row_lookup natural_key (entities k d') n = row_lookup natural_key (entities k d) n"
    and other: "\<And>k'. k' \<noteq> k \<Longrightarrow> entities k' d' = entities k' d"
      "\<And>k'. k' \<noteq> k \<Longrightarrow> entity_events k' d' = entity_events k' d"
    and events: "entity_events k d' =
       (if re_id raw \<in> ev_raw_event_id ` set (entity_events k d) then entity_events k d
        else entity_events k d @ [event_row sc db_now vid (en_id x) (re_id raw) e])"
  have d': "schema_ok d'" by (rule schema_after_persist [OF d run])
  then have ids: "distinct (map en_id (entities k d'))"
    by (simp add: schema_ok_def kind_schema_ok_def)
  have x': "?x \<in> set (entities k d')" "natural_key ?x = ?n"
    using row_lookup_Some [OF x] by auto
  have away: "y \<in> set (entities k d') \<and> en_id y \<noteq> en_id x"
    if y: "y \<in> set (entities k d)" "natural_key y \<noteq> ?n" for y
  proof -
    have y': "y \<in> set (entities k d')"
      using lookup_natural_key [OF d y(1)] n [OF y(2)] by (auto dest: row_lookup_Some)
    have "en_id y \<noteq> en_id ?x"
      using row_lookup_in [OF ids y'] row_lookup_in [OF ids x'(1)] x'(2) y(2) by fastforce
    with y' show ?thesis by simp
  qed
  have rows: "y = ?x \<or> y \<in> set (entities k d) \<and> en_id y \<noteq> en_id x" if y: "y \<in> set (entities k d')" for y
  proof (cases "natural_key y = ?n")
    case True
    with lookup_natural_key [OF d' y] x show ?thesis by simp
  next
    case False
    with lookup_natural_key [OF d' y] n have "y \<in> set (entities k d)"
      by (auto dest: row_lookup_Some)
    with away False show ?thesis by blast
  qed
  have prior: "(\<forall>y \<in> set (entities k d). en_id y \<noteq> en_id x) \<and> en_last_event_at x = None \<and> projection x = None \<and> stamped x \<or>
     (\<exists>old \<in> set (entities k d). en_id old = en_id x \<and> projection x = projection old \<and>
        en_last_event_at x = en_last_event_at old \<and> stamped x = stamped old)"
    using o
  proof (elim disjE conjE exE)
    assume new: "x = new_entity eid db_now (re_vendor_hint raw) ref (event_attributes sc e)"
      and none: "row_lookup natural_key (entities k d) ?n = None"
    have "\<forall>y \<in> set (entities k d). natural_key y \<noteq> ?n"
      using none by (metis image_eqI row_lookup_None)
    with away new show ?thesis by auto
  qed (auto dest!: row_lookup_Some)
  show ?thesis
    by (rule that [of x]) (use rows prior other events in auto)
qed

lemma stamped_projection:
  "projection_ok d \<Longrightarrow> e \<in> set (entities k d) \<Longrightarrow> projection e = None \<longleftrightarrow> en_last_event_at e = None"
  by (fastforce simp: projection_ok_def stamped_def projection_def split: option.splits)

lemma events_reference_entities:
  "schema_ok d \<Longrightarrow> v \<in> set (entity_events k d) \<Longrightarrow> \<exists>e \<in> set (entities k d). en_id e = ev_entity_id v"
  by (fastforce simp: schema_ok_def kind_schema_ok_def)

lemma history_bound_persist:
  assumes d: "schema_ok d" and bound: "history_bound d"
    and run: "persist_normalized sc cfg now db_now eid vid raw e d = (Inr (), d')"
    and kind: "payload_kind (ne_payload e) = Some k" and ref: "external_ref e = Some ref"
  shows "history_bound d'"
proof (rule persist_entity_rows [OF d run kind ref])
  fix x
  let ?x = "advance (canonical_state e) (instant (ne_event_at e)) (event_attributes sc e) now x"
  assume rows: "\<And>y. y \<in> set (entities k d') \<Longrightarrow> y = ?x \<or> y \<in> set (entities k d) \<and> en_id y \<noteq> en_id x"
    and prior: "(\<forall>y \<in> set (entities k d). en_id y \<noteq> en_id x) \<and> en_last_event_at x = None \<and> projection x = None \<and> stamped x \<or>
     (\<exists>old \<in> set (entities k d). en_id old = en_id x \<and> projection x = projection old \<and>
        en_last_event_at x = en_last_event_at old \<and> stamped x = stamped old)"
    and other: "\<And>k'. k' \<noteq> k \<Longrightarrow> entities k' d' = entities k' d \<and> entity_events k' d' = entity_events k' d"
    and events: "entity_events k d' =
       (if re_id raw \<in> ev_raw_event_id ` set (entity_events k d) then entity_events k d
        else entity_events k d @ [event_row sc db_now vid (en_id x) (re_id raw) e])"
  have old_events: "\<exists>t. en_last_event_at y = Some t \<and> ev_event_at v \<le> t"
    if y: "y \<in> set (entities k d')" "en_id y = ev_entity_id v" and v: "v \<in> set (entity_events k d)" for y v
    using rows [OF y(1)]
  proof
    assume yx: "y = ?x"
    obtain z where z: "z \<in> set (entities k d)" "en_id z = ev_entity_id v"
      using events_reference_entities [OF d v] by blast
    with yx y(2) prior obtain old where old: "old \<in> set (entities k d)" "en_id old = ev_entity_id v"
        "en_last_event_at x = en_last_event_at old" by auto
    with bound v obtain t where "en_last_event_at old = Some t" "ev_event_at v \<le> t"
      unfolding history_bound_def by blast
    then show ?thesis
      using old(3) advance_last [of "canonical_state e" "instant (ne_event_at e)" "event_attributes sc e" now x]
        order_trans unfolding yx by auto
  next
    assume "y \<in> set (entities k d) \<and> en_id y \<noteq> en_id x"
    with bound v y(2) show ?thesis unfolding history_bound_def by blast
  qed
  have new_event: "\<exists>t. en_last_event_at y = Some t \<and> instant (ne_event_at e) \<le> t"
    if "y \<in> set (entities k d')" "en_id y = en_id x" for y
    using rows [OF that(1)] that(2)
      advance_last [of "canonical_state e" "instant (ne_event_at e)" "event_attributes sc e" now x] by auto
  have "\<exists>t. en_last_event_at y = Some t \<and> ev_event_at v \<le> t"
    if "v \<in> set (entity_events k' d')" "y \<in> set (entities k' d')" "en_id y = ev_entity_id v" for k' v y
  proof (cases "k' = k")
    case True
    with that old_events new_event events show ?thesis by (auto split: if_splits)
  next
    case False
    with that other [of k'] bound show ?thesis unfolding history_bound_def by fastforce
  qed
  then show ?thesis unfolding history_bound_def by blast
qed

lemma history_append:
  "entity_events k d' = entity_events k d @ [v] \<Longrightarrow>
     history k i d' = history k i d @ (if ev_entity_id v = i then [v] else [])"
  by (simp add: history_def)

lemma replay_append:
  "entity_events k d' = entity_events k d @ [v] \<Longrightarrow>
     replay k i d' = (if ev_entity_id v = i then jump_to_latest (event_as_latest v) (replay k i d)
                      else replay k i d)"
  by (simp add: replay_def history_append)

lemma replay_unused:
  assumes "schema_ok d" and "\<forall>y \<in> set (entities k d). en_id y \<noteq> i"
  shows "replay k i d = None"
proof -
  have "history k i d = []"
    using assms events_reference_entities [OF assms(1)] unfolding history_def filter_empty_conv by blast
  then show ?thesis by (simp add: replay_def)
qed

lemma replay_ok_persist:
  assumes ok: "projection_ok d" and replay: "replay_ok d"
    and run: "persist_normalized sc cfg now db_now eid vid raw e d = (Inr (), d')"
    and kind: "payload_kind (ne_payload e) = Some k" and ref: "external_ref e = Some ref"
    and first: "re_id raw \<notin> ev_raw_event_id ` set (entity_events k d)"
  shows "replay_ok d'"
proof -
  have d: "schema_ok d" using ok by (simp add: projection_ok_def)
  show ?thesis
  proof (rule persist_entity_rows [OF d run kind ref])
    fix x
    let ?x = "advance (canonical_state e) (instant (ne_event_at e)) (event_attributes sc e) now x"
    assume rows: "\<And>y. y \<in> set (entities k d') \<Longrightarrow> y = ?x \<or> y \<in> set (entities k d) \<and> en_id y \<noteq> en_id x"
      and prior: "(\<forall>y \<in> set (entities k d). en_id y \<noteq> en_id x) \<and> en_last_event_at x = None \<and> projection x = None \<and> stamped x \<or>
       (\<exists>old \<in> set (entities k d). en_id old = en_id x \<and> projection x = projection old \<and>
          en_last_event_at x = en_last_event_at old \<and> stamped x = stamped old)"
      and other: "\<And>k'. k' \<noteq> k \<Longrightarrow> entities k' d' = entities k' d \<and> entity_events k' d' = entity_events k' d"
      and events: "entity_events k d' =
         (if re_id raw \<in> ev_raw_event_id ` set (entity_events k d) then entity_events k d
          else entity_events k d @ [event_row sc db_now vid (en_id x) (re_id raw) e])"
    have app: "entity_events k d' = entity_events k d @ [event_row sc db_now vid (en_id x) (re_id raw) e]"
      using events first by simp
    have "projection x = replay k (en_id x) d"
      using prior replay replay_unused [OF d] unfolding replay_ok_def by metis
    moreover have "stamped x"
      using prior ok unfolding projection_ok_def by blast
    ultimately have "projection ?x = replay k (en_id x) d'"
      using replay_append [OF app, of "en_id x"] by (simp add: projection_advance event_latest_def)
    moreover have "projection y = replay k (en_id y) d'"
      if "y \<in> set (entities k d)" "en_id y \<noteq> en_id x" for y
      using that replay replay_append [OF app, of "en_id y"] unfolding replay_ok_def by simp
    moreover have "projection y = replay k' (en_id y) d'" if "k' \<noteq> k" "y \<in> set (entities k' d')" for k' y
      using that other [of k'] replay by (simp add: replay_ok_def replay_def history_def)
    ultimately show ?thesis
      unfolding replay_ok_def using rows by (metis advance_columns(1))
  qed
qed

end
