(* ===== verification/Hashing.thy ===== *)
theory Hashing
  imports Json Effects "HOL-Library.Word"
begin

unbundle bit_operations_syntax

text \<open>
  \<^verbatim>\<open>app/utils/hashing.py\<close>: the content hash of a payload, \<open>hashlib.sha256(orjson.dumps(payload,
  option=OPT_SORT_KEYS)).hexdigest()\<close>.

  \<open>orjson.dumps\<close> is a parameter \<open>dumps\<close>: the bytes it produces, or \<open>None\<close> when it raises
  \<open>JSONEncodeError\<close>. What the code relies on is stated by \<open>sorts_keys\<close>. SHA-256 of Python's standard
  library is written out on 32-bit words, following FIPS 180-4.
\<close>

type_synonym byte = "8 word"
type_synonym w32 = "32 word"

subsection \<open>SHA-256\<close>

definition sha_K :: "w32 list" where
  "sha_K =
    [1116352408, 1899447441, 3049323471, 3921009573, 961987163, 1508970993, 2453635748, 2870763221,
     3624381080, 310598401, 607225278, 1426881987, 1925078388, 2162078206, 2614888103, 3248222580,
     3835390401, 4022224774, 264347078, 604807628, 770255983, 1249150122, 1555081692, 1996064986,
     2554220882, 2821834349, 2952996808, 3210313671, 3336571891, 3584528711, 113926993, 338241895,
     666307205, 773529912, 1294757372, 1396182291, 1695183700, 1986661051, 2177026350, 2456956037,
     2730485921, 2820302411, 3259730800, 3345764771, 3516065817, 3600352804, 4094571909, 275423344,
     430227734, 506948616, 659060556, 883997877, 958139571, 1322822218, 1537002063, 1747873779,
     1955562222, 2024104815, 2227730452, 2361852424, 2428436474, 2756734187, 3204031479, 3329325298]"

definition sha_H0 :: "w32 list" where
  "sha_H0 =
    [1779033703, 3144134277, 1013904242, 2773480762,
     1359893119, 2600822924, 528734635, 1541459225]"

text \<open>
  The constants are the first 32 bits of the fractional parts of the cube roots of the first 64 primes
  and of the square roots of the first 8.
\<close>

definition first_primes :: "int list" where
  "first_primes =
    [2, 3, 5, 7, 11, 13, 17, 19, 23, 29, 31, 37, 41, 43, 47, 53,
     59, 61, 67, 71, 73, 79, 83, 89, 97, 101, 103, 107, 109, 113, 127, 131,
     137, 139, 149, 151, 157, 163, 167, 173, 179, 181, 191, 193, 197, 199, 211, 223,
     227, 229, 233, 239, 241, 251, 257, 263, 269, 271, 277, 281, 283, 293, 307, 311]"

definition root_digits :: "nat \<Rightarrow> int \<Rightarrow> w32 \<Rightarrow> bool" where
  "root_digits n p w \<longleftrightarrow>
     (let y = int (length (takeWhile (\<lambda>c. c ^ n \<le> p) [1, 2, 3, 4, 5, 6, 7])) * 2 ^ 32 + uint w in
      y ^ n \<le> p * 2 ^ (32 * n) \<and> p * 2 ^ (32 * n) < (y + 1) ^ n)"

lemma sha_constants:
  "list_all2 (root_digits 3) first_primes sha_K" "list_all2 (root_digits 2) (take 8 first_primes) sha_H0"
  by (simp_all add: first_primes_def sha_K_def sha_H0_def root_digits_def)

definition rotr :: "nat \<Rightarrow> w32 \<Rightarrow> w32" where
  "rotr n x = drop_bit n x OR push_bit (32 - n) x"

text \<open>Padding: a one bit, zeros up to 56 modulo 64 bytes, the length in bits as 64 bits.\<close>

definition sha_pad :: "byte list \<Rightarrow> byte list" where
  "sha_pad m = m @ [0x80] @ replicate ((119 - length m mod 64) mod 64) 0 @
     rev (map (\<lambda>i. of_nat (8 * length m div 256 ^ i)) [0..<8])"

fun be_words :: "byte list \<Rightarrow> w32 list" where
  "be_words (a # b # c # d # bs) =
     (push_bit 24 (ucast a) OR push_bit 16 (ucast b) OR push_bit 8 (ucast c) OR ucast d) # be_words bs"
| "be_words _ = []"

fun sha_extend :: "nat \<Rightarrow> w32 list \<Rightarrow> w32 list" where
  "sha_extend 0 ws = ws"
| "sha_extend (Suc n) ws =
    (let x = ws ! (length ws - 15); y = ws ! (length ws - 2);
         s0 = rotr 7 x XOR rotr 18 x XOR drop_bit 3 x;
         s1 = rotr 17 y XOR rotr 19 y XOR drop_bit 10 y
     in sha_extend n (ws @ [ws ! (length ws - 16) + s0 + ws ! (length ws - 7) + s1]))"

fun sha_round :: "w32 list \<Rightarrow> w32 \<times> w32 \<Rightarrow> w32 list" where
  "sha_round [a, b, c, d, e, f, g, h] (k, w) =
    (let s1 = rotr 6 e XOR rotr 11 e XOR rotr 25 e;
         ch = (e AND f) XOR (NOT e AND g);
         t1 = h + s1 + ch + k + w;
         s0 = rotr 2 a XOR rotr 13 a XOR rotr 22 a;
         mj = (a AND b) XOR (a AND c) XOR (b AND c)
     in [t1 + (s0 + mj), a, b, c, d + t1, e, f, g])"
| "sha_round st _ = st"

definition sha_block :: "w32 list \<Rightarrow> w32 list \<Rightarrow> w32 list" where
  "sha_block st ws = map2 (+) st (foldl sha_round st (zip sha_K (sha_extend 48 ws)))"

fun chunks :: "nat \<Rightarrow> nat \<Rightarrow> 'a list \<Rightarrow> 'a list list" where
  "chunks 0 n xs = []"
| "chunks (Suc m) n xs = take n xs # chunks m n (drop n xs)"

definition sha256 :: "byte list \<Rightarrow> w32 list" where
  "sha256 m =
     (let ws = be_words (sha_pad m) in foldl sha_block sha_H0 (chunks (length ws div 16) 16 ws))"

definition hex_digits :: string where
  "hex_digits = ''0123456789abcdef''"

text \<open>The eight lowercase hexadecimal digits of a word, most significant first.\<close>

definition hex_word :: "w32 \<Rightarrow> string" where
  "hex_word w = map (\<lambda>i. hex_digits ! (unat (drop_bit (28 - 4 * i) w) mod 16)) [0..<8]"

definition hexdigest :: "w32 list \<Rightarrow> string" where
  "hexdigest ws = concat (map hex_word ws)"

lemma length_sha_round [simp]: "length (sha_round st kw) = length st"
  by (induction st kw rule: sha_round.induct) (auto simp: Let_def)

lemma length_sha_rounds [simp]: "length (foldl sha_round st kws) = length st"
  by (induction kws arbitrary: st) auto

lemma length_sha_block [simp]: "length (sha_block st ws) = length st"
  by (simp add: sha_block_def)

lemma length_sha_blocks [simp]: "length (foldl sha_block st bs) = length st"
  by (induction bs arbitrary: st) auto

lemma length_sha256 [simp]: "length (sha256 m) = 8"
  by (simp add: sha256_def Let_def sha_H0_def)

lemma length_hex_word [simp]: "length (hex_word w) = 8"
  by (simp add: hex_word_def)

lemma length_hexdigest: "length (hexdigest ws) = 8 * length ws"
  by (induction ws) (auto simp: hexdigest_def)

lemma set_hex_word: "set (hex_word w) \<subseteq> set hex_digits"
proof
  fix c assume "c \<in> set (hex_word w)"
  then obtain n where "c = hex_digits ! (n mod 16)" by (auto simp: hex_word_def)
  moreover have "n mod 16 < length hex_digits" by (simp add: hex_digits_def)
  ultimately show "c \<in> set hex_digits" using nth_mem by blast
qed

lemma set_hexdigest: "set (hexdigest ws) \<subseteq> set hex_digits"
  using set_hex_word by (auto simp: hexdigest_def)

subsection \<open>canonical_hash\<close>

definition canonical_hash :: "(json \<Rightarrow> byte list option) \<Rightarrow> json \<Rightarrow> exn + string" where
  "canonical_hash dumps payload =
     (case dumps payload of
        None \<Rightarrow> Inl JSONEncodeError
      | Some serialized \<Rightarrow> Inr (hexdigest (sha256 serialized)))"

text \<open>
  The documented effect of \<open>OPT_SORT_KEYS\<close>: the dict keys are serialised in sorted order, so the bytes
  are those of the value with its keys sorted.
\<close>

definition sorts_keys :: "(json \<Rightarrow> byte list option) \<Rightarrow> bool" where
  "sorts_keys dumps \<longleftrightarrow> (\<forall>p. dumps p = dumps (sort_keys p))"

lemma canonical_hash_format:
  assumes "canonical_hash dumps p = Inr h"
  shows "length h = 64" and "set h \<subseteq> set hex_digits"
  using assms set_hexdigest
  by (auto simp: canonical_hash_def length_hexdigest split: option.splits)

lemma canonical_hash_cong: "dumps p = dumps q \<Longrightarrow> canonical_hash dumps p = canonical_hash dumps q"
  by (simp add: canonical_hash_def)

lemma canonical_hash_permuted:
  assumes "sorts_keys dumps" and "wf_json p" and "key_permuted p q"
  shows "canonical_hash dumps p = canonical_hash dumps q"
proof (rule canonical_hash_cong)
  have "dumps p = dumps (sort_keys p)" using assms(1) unfolding sorts_keys_def ..
  also have "\<dots> = dumps (sort_keys q)" using sort_keys_permuted [OF assms(3,2)] by simp
  also have "\<dots> = dumps q" using assms(1) unfolding sorts_keys_def by metis
  finally show "dumps p = dumps q" .
qed

end
