(* ===== verification/Ingestion.thy ===== *)
theory Ingestion
  imports Store Hashing
begin

text \<open>
  \<^verbatim>\<open>app/services/ingestion.py\<close>: \<open>insert_raw_event\<close> stores a webhook payload as a primary raw
  event, or, when the partial unique index already has a primary with the same vendor and content
  hash, as a duplicate row that points at it.
\<close>

subsection \<open>Results of a query\<close>

text \<open>SQLAlchemy's \<open>scalar_one\<close> and \<open>scalar_one_or_none\<close> on the rows of a result.\<close>

fun scalar_one :: "'a list \<Rightarrow> exn + 'a" where
  "scalar_one [] = Inl NoResultFound"
| "scalar_one [x] = Inr x"
| "scalar_one (x # y # zs) = Inl MultipleResultsFound"

fun scalar_one_or_none :: "'a list \<Rightarrow> exn + 'a option" where
  "scalar_one_or_none [] = Inr None"
| "scalar_one_or_none [x] = Inr (Some x)"
| "scalar_one_or_none (x # y # zs) = Inl MultipleResultsFound"

definition tx_of :: "exn + 'a \<Rightarrow> (db, 'a) tx" where
  "tx_of r = (case r of Inl e \<Rightarrow> tx_raise e | Inr x \<Rightarrow> tx_return x)"

lemma tx_of_simps [simp, tx_simps]:
  "tx_of (Inl e) = tx_raise e" "tx_of (Inr x) = tx_return x"
  by (simp_all add: tx_of_def)

lemma keeps_tx_of [keeps_intros]: "keeps I (tx_of r)"
  by (cases r) (auto intro: keeps_intros)

subsection \<open>insert_raw_event\<close>

record ingest_result =
  ir_raw_event_id :: uuid
  ir_duplicate :: bool
  ir_duplicate_of :: "uuid option"

text \<open>
  Phase 2: \<open>SELECT id WHERE vendor_hint = ... AND hash_exact = ... AND duplicate_of_id IS NULL
  ORDER BY received_at LIMIT 1\<close>.
\<close>

definition select_primary :: "string \<Rightarrow> string \<Rightarrow> db \<Rightarrow> uuid list" where
  "select_primary vendor_hint h d =
     take 1 (map re_id (sort_key re_received_at
       (filter (\<lambda>r. re_vendor_hint r = vendor_hint \<and> re_hash_exact r = h \<and>
                    re_duplicate_of_id r = None) (raw_events d))))"

text \<open>
  \<open>id1\<close> and \<open>id2\<close> are the ids \<open>gen_random_uuid()\<close> gives to the primary and to the duplicate row,
  \<open>db_now\<close> the transaction's \<open>now()\<close>.
\<close>

definition insert_raw_event ::
    "(json \<Rightarrow> byte list option) \<Rightarrow> uuid \<Rightarrow> uuid \<Rightarrow> timestamp \<Rightarrow> string \<Rightarrow> json \<Rightarrow>
     (db, ingest_result) tx" where
  "insert_raw_event dumps id1 id2 db_now vendor_hint payload =
     tx_bind (tx_of (canonical_hash dumps payload)) (\<lambda>h.
     tx_bind (insert_raw_or_nothing (new_raw_event id1 db_now vendor_hint payload h None Pending))
       (\<lambda>primary_id. case primary_id of
          Some i \<Rightarrow>
            tx_return \<lparr>ir_raw_event_id = i, ir_duplicate = False, ir_duplicate_of = None\<rparr>
        | None \<Rightarrow>
            tx_bind (tx_read (select_primary vendor_hint h)) (\<lambda>ids.
            tx_bind (tx_of (scalar_one ids)) (\<lambda>parent_id.
            tx_bind (insert_raw (new_raw_event id2 db_now vendor_hint payload h (Some parent_id)
                       Duplicate)) (\<lambda>dup_id.
            tx_return \<lparr>ir_raw_event_id = dup_id, ir_duplicate = True,
                       ir_duplicate_of = Some parent_id\<rparr>)))))"

lemma schema_insert_raw_event [keeps_intros]:
  "keeps schema_ok (insert_raw_event dumps id1 id2 t v p)"
  unfolding insert_raw_event_def by (intro keeps_intros)

subsection \<open>Behaviour on each branch\<close>

lemma new_raw_event_simps [simp]:
  "re_id (new_raw_event i t v p h dup st) = i"
  "re_vendor_hint (new_raw_event i t v p h dup st) = v"
  "re_payload (new_raw_event i t v p h dup st) = p"
  "re_hash_exact (new_raw_event i t v p h dup st) = h"
  "re_duplicate_of_id (new_raw_event i t v p h dup st) = dup"
  "re_status (new_raw_event i t v p h dup st) = st"
  "re_attempts (new_raw_event i t v p h dup st) = 0"
  "re_received_at (new_raw_event i t v p h dup st) = t"
  "re_last_error (new_raw_event i t v p h dup st) = None"
  "re_locked_at (new_raw_event i t v p h dup st) = None"
  "re_processed_at (new_raw_event i t v p h dup st) = None"
  "dedup_key (new_raw_event i t v p h dup st) = (v, h)"
  "is_primary (new_raw_event i t v p h dup st) = (dup = None)"
  "raw_fits (new_raw_event i t v p h dup st) = (varchar 64 v \<and> varchar 64 h)"
  by (simp_all add: new_raw_event_def dedup_key_def is_primary_def raw_fits_def int4_def)

lemma select_primary_unique:
  assumes d: "raw_schema_ok d" and p: "p \<in> set (primaries d)" and key: "dedup_key p = (v, h)"
  shows "select_primary v h d = [re_id p]"
proof -
  have "filter (\<lambda>r. re_vendor_hint r = v \<and> re_hash_exact r = h \<and> re_duplicate_of_id r = None)
          (raw_events d) = filter (\<lambda>r. dedup_key r = dedup_key p) (primaries d)"
    unfolding primaries_def filter_filter
    by (rule filter_cong) (use key in \<open>auto simp: dedup_key_def is_primary_def\<close>)
  also have "\<dots> = [p]"
    using d p by (intro filter_key_unique) (simp_all add: raw_schema_ok_def)
  finally show ?thesis by (simp add: select_primary_def)
qed

lemma select_primary_in:
  assumes "scalar_one (select_primary v h d) = Inr i"
  shows "\<exists>p \<in> set (primaries d). re_id p = i \<and> dedup_key p = (v, h)"
proof -
  have "set (select_primary v h d) \<subseteq> re_id ` {p \<in> set (primaries d). dedup_key p = (v, h)}"
    by (auto simp: select_primary_def primaries_def is_primary_def dedup_key_def
        dest!: in_set_takeD)
  moreover have "i \<in> set (select_primary v h d)"
    using assms by (cases "select_primary v h d" rule: scalar_one.cases) auto
  ultimately show ?thesis by auto
qed

text \<open>The payload is new for this vendor: it is stored as a pending primary.\<close>

lemma insert_raw_event_new:
  assumes h: "canonical_hash dumps p = Inr h" and v: "varchar 64 v"
    and new: "(v, h) \<notin> dedup_key ` set (primaries d)" and id: "id1 \<notin> re_id ` set (raw_events d)"
  shows "insert_raw_event dumps id1 id2 t v p d =
    (Inr \<lparr>ir_raw_event_id = id1, ir_duplicate = False, ir_duplicate_of = None\<rparr>,
     set_raw_events (raw_events d @ [new_raw_event id1 t v p h None Pending]) d)"
  using assms canonical_hash_format(1) [OF h]
  by (simp add: insert_raw_event_def tx_simps insert_raw_or_nothing_def insert_raw_def varchar_def)

text \<open>A primary with this vendor and content exists: the row is stored as its duplicate.\<close>

lemma insert_raw_event_duplicate:
  assumes h: "canonical_hash dumps q = Inr h" and v: "varchar 64 v" and d: "raw_schema_ok d"
    and p: "p \<in> set (primaries d)" "dedup_key p = (v, h)" and id: "id2 \<notin> re_id ` set (raw_events d)"
  shows "insert_raw_event dumps id1 id2 t v q d =
    (Inr \<lparr>ir_raw_event_id = id2, ir_duplicate = True, ir_duplicate_of = Some (re_id p)\<rparr>,
     set_raw_events (raw_events d @ [new_raw_event id2 t v q h (Some (re_id p)) Duplicate]) d)"
proof -
  have "(v, h) \<in> dedup_key ` set (primaries d)" using p by force
  moreover have "re_id p \<in> re_id ` set (raw_events d)" using p by (simp add: primaries_def)
  ultimately show ?thesis
    using h v id select_primary_unique [OF d p] canonical_hash_format(1) [OF h]
    by (simp add: insert_raw_event_def tx_simps insert_raw_or_nothing_def insert_raw_def varchar_def)
qed

text \<open>Every successful call is one of the two; a call that raises leaves the tables as they were.\<close>

lemma insert_raw_event_cases:
  assumes "insert_raw_event dumps id1 id2 t v p d = (Inr res, d')"
  obtains (primary) h where "canonical_hash dumps p = Inr h"
      "(v, h) \<notin> dedup_key ` set (primaries d)" "id1 \<notin> re_id ` set (raw_events d)" "varchar 64 v"
      "res = \<lparr>ir_raw_event_id = id1, ir_duplicate = False, ir_duplicate_of = None\<rparr>"
      "d' = set_raw_events (raw_events d @ [new_raw_event id1 t v p h None Pending]) d"
  | (duplicate) h q where "canonical_hash dumps p = Inr h"
      "q \<in> set (primaries d)" "dedup_key q = (v, h)" "id2 \<notin> re_id ` set (raw_events d)" "varchar 64 v"
      "res = \<lparr>ir_raw_event_id = id2, ir_duplicate = True, ir_duplicate_of = Some (re_id q)\<rparr>"
      "d' = set_raw_events (raw_events d @ [new_raw_event id2 t v p h (Some (re_id q)) Duplicate]) d"
proof -
  obtain h where h: "canonical_hash dumps p = Inr h"
    using assms by (cases "canonical_hash dumps p") (auto simp: insert_raw_event_def tx_simps)
  show ?thesis
  proof (cases "(v, h) \<in> dedup_key ` set (primaries d)")
    case False
    with assms h show ?thesis
      by (intro primary [of h])
         (auto simp: insert_raw_event_def tx_simps insert_raw_or_nothing_def insert_raw_def
           split: if_splits)
  next
    case True
    with assms h obtain i where i: "scalar_one (select_primary v h d) = Inr i"
      by (cases "scalar_one (select_primary v h d)")
         (auto simp: insert_raw_event_def tx_simps insert_raw_or_nothing_def split: if_splits)
    with select_primary_in obtain q where q: "q \<in> set (primaries d)" "re_id q = i" "dedup_key q = (v, h)"
      by blast
    with assms h True i show ?thesis
      by (intro duplicate [of h q])
         (auto simp: insert_raw_event_def tx_simps insert_raw_or_nothing_def insert_raw_def
           split: if_splits)
  qed
qed

lemma insert_raw_event_raises:
  assumes "insert_raw_event dumps id1 id2 t v p d = (Inl e, d')"
  shows "d' = d"
proof (cases "canonical_hash dumps p")
  case (Inl e)
  with assms show ?thesis by (simp add: insert_raw_event_def tx_simps)
next
  case (Inr h)
  show ?thesis
  proof (cases "scalar_one (select_primary v h d)")
    case (Inl e')
    with Inr assms show ?thesis
      by (auto simp: insert_raw_event_def tx_simps insert_raw_or_nothing_def insert_raw_def
          split: if_splits)
  next
    case (Inr i)
    with \<open>canonical_hash dumps p = Inr h\<close> assms show ?thesis
      by (auto simp: insert_raw_event_def tx_simps insert_raw_or_nothing_def insert_raw_def
          split: if_splits)
  qed
qed

subsection \<open>The deduplication invariant\<close>

text \<open>
  A row has status \<open>duplicate\<close> exactly when it points at a parent, and the parent is a primary with
  the same vendor and content hash: chains of duplicates do not arise.
\<close>

definition dedup_ok :: "db \<Rightarrow> bool" where
  "dedup_ok d \<longleftrightarrow>
     (\<forall>r \<in> set (raw_events d).
        (re_status r = Duplicate \<longleftrightarrow> re_duplicate_of_id r \<noteq> None) \<and>
        (\<forall>i. re_duplicate_of_id r = Some i \<longrightarrow>
           (\<exists>p \<in> set (primaries d). re_id p = i \<and> dedup_key p = dedup_key r)))"

lemma dedup_ok_empty: "dedup_ok empty_db"
  by (simp add: dedup_ok_def empty_db_def)

lemma primaries_append [simp]:
  "primaries (set_raw_events (raw_events d @ [r]) d) =
     primaries d @ (if is_primary r then [r] else [])"
  by (simp add: primaries_def)

lemma dedup_insert_raw_event [keeps_intros]:
  "keeps dedup_ok (insert_raw_event dumps id1 id2 t v p)"
proof (rule keepsI)
  fix d assume d: "dedup_ok d"
  obtain out d' where run: "insert_raw_event dumps id1 id2 t v p d = (out, d')" by fastforce
  show "dedup_ok (snd (insert_raw_event dumps id1 id2 t v p d))"
  proof (cases out)
    case (Inl e)
    with run d insert_raw_event_raises show ?thesis by fastforce
  next
    case (Inr res)
    with run have "insert_raw_event dumps id1 id2 t v p d = (Inr res, d')" by simp
    then show ?thesis
      by (cases rule: insert_raw_event_cases) (use run d in \<open>auto simp: dedup_ok_def\<close>)
  qed
qed

text \<open>
  Changes that leave identity and duplicate status alone keep it; this covers every write of the
  worker and of the retry service.
\<close>

lemma dedup_update_raw:
  assumes f: "keeps_identity f" and d: "dedup_ok d"
    and st: "\<And>r. r \<in> set (raw_events d) \<Longrightarrow> re_id r = i \<Longrightarrow>
               (re_status (f r) = Duplicate \<longleftrightarrow> re_status r = Duplicate)"
  shows "dedup_ok (set_raw_events (row_update re_id i f (raw_events d)) d)"
proof -
  note fid = keeps_identityD [OF f]
  have "\<exists>p' \<in> set (primaries (set_raw_events (row_update re_id i f (raw_events d)) d)).
          re_id p' = re_id p \<and> dedup_key p' = dedup_key p" if "p \<in> set (primaries d)" for p
    using that fid
    by (intro bexI [where x = "if re_id p = i then f p else p"])
       (auto simp: primaries_def row_update_def)
  then show ?thesis
    using d st fid unfolding dedup_ok_def by (fastforce simp: dest!: in_row_update)
qed

subsection \<open>A series of deliveries\<close>

text \<open>
  One delivery of a webhook: the arguments of \<open>insert_raw_event\<close>. Each runs in a transaction of its
  own; \<open>ingest_all\<close> collects the outcomes in order.
\<close>

record delivery =
  dl_id1 :: uuid
  dl_id2 :: uuid
  dl_now :: timestamp
  dl_vendor :: string
  dl_payload :: json

definition ingest_one ::
    "(json \<Rightarrow> byte list option) \<Rightarrow> delivery \<Rightarrow> (db, ingest_result) tx" where
  "ingest_one dumps q = session_scope None
     (insert_raw_event dumps (dl_id1 q) (dl_id2 q) (dl_now q) (dl_vendor q) (dl_payload q))"

fun ingest_all ::
    "(json \<Rightarrow> byte list option) \<Rightarrow> delivery list \<Rightarrow> db \<Rightarrow> (exn + ingest_result) list \<times> db" where
  "ingest_all dumps [] d = ([], d)"
| "ingest_all dumps (q # qs) d =
     (let (out, d') = ingest_one dumps q d; (outs, d'') = ingest_all dumps qs d' in (out # outs, d''))"

lemma ingest_all_Cons [simp]:
  "fst (ingest_all dumps (q # qs) d) =
     fst (ingest_one dumps q d) # fst (ingest_all dumps qs (snd (ingest_one dumps q d)))"
  "snd (ingest_all dumps (q # qs) d) = snd (ingest_all dumps qs (snd (ingest_one dumps q d)))"
  by (simp_all add: Let_def split: prod.splits)

declare ingest_all.simps(2) [simp del]

definition delivery_ids :: "delivery list \<Rightarrow> uuid list" where
  "delivery_ids qs = concat (map (\<lambda>q. [dl_id1 q, dl_id2 q]) qs)"

lemma ingest_one_apply:
  "insert_raw_event dumps (dl_id1 q) (dl_id2 q) (dl_now q) (dl_vendor q) (dl_payload q) d = (Inr res, d')
     \<Longrightarrow> ingest_one dumps q d = (Inr res, d')"
  by (simp add: ingest_one_def session_scope_returns)

lemma keeps_ingest_all:
  assumes "\<And>q. keeps I (ingest_one dumps q)"
  shows "I d \<Longrightarrow> I (snd (ingest_all dumps qs d))"
proof (induction qs arbitrary: d)
  case (Cons q qs)
  from keepsD [OF assms Cons.prems] have "I (snd (ingest_one dumps q d))" .
  from Cons.IH [OF this] show ?case by simp
qed simp

lemma keeps_ingest_one:
  "keeps schema_ok (ingest_one dumps q)" "keeps dedup_ok (ingest_one dumps q)"
  unfolding ingest_one_def by (intro keeps_intros)+

text \<open>Once a primary is there, every further delivery of the same content becomes its duplicate.\<close>

lemma ingest_all_duplicates:
  assumes "\<forall>q \<in> set qs. dl_vendor q = v \<and> canonical_hash dumps (dl_payload q) = Inr h"
    and "varchar 64 v" and "schema_ok d" and "p \<in> set (primaries d)" and "dedup_key p = (v, h)"
    and "distinct (delivery_ids qs)" and "set (delivery_ids qs) \<inter> re_id ` set (raw_events d) = {}"
  shows "fst (ingest_all dumps qs d) =
           map (\<lambda>q. Inr \<lparr>ir_raw_event_id = dl_id2 q, ir_duplicate = True,
                          ir_duplicate_of = Some (re_id p)\<rparr>) qs \<and>
         primaries (snd (ingest_all dumps qs d)) = primaries d"
  using assms
proof (induction qs arbitrary: d)
  case (Cons q qs)
  let ?r = "new_raw_event (dl_id2 q) (dl_now q) v (dl_payload q) h (Some (re_id p)) Duplicate"
  let ?d = "set_raw_events (raw_events d @ [?r]) d"
  have one: "ingest_one dumps q d =
      (Inr \<lparr>ir_raw_event_id = dl_id2 q, ir_duplicate = True, ir_duplicate_of = Some (re_id p)\<rparr>, ?d)"
    using Cons.prems
    by (intro ingest_one_apply) (auto intro!: insert_raw_event_duplicate
        simp: schema_ok_def delivery_ids_def)
  have "schema_ok ?d"
    using keepsD [OF keeps_ingest_one(1) Cons.prems(3), of dumps q] one by simp
  with Cons.prems
  have "fst (ingest_all dumps qs ?d) =
           map (\<lambda>q. Inr \<lparr>ir_raw_event_id = dl_id2 q, ir_duplicate = True,
                          ir_duplicate_of = Some (re_id p)\<rparr>) qs \<and>
         primaries (snd (ingest_all dumps qs ?d)) = primaries ?d"
    by (intro Cons.IH) (auto simp: delivery_ids_def)
  with one show ?case by simp
qed simp

end
