(* ===== verification/Prompt.thy ===== *)
theory Prompt
  imports Validation Config "HOL-Library.Sublist"
begin

text \<open>
  \<^verbatim>\<open>app/llm/prompts.py\<close> and \<^verbatim>\<open>app/llm/__init__.py\<close>: the system prompt and the client it is sent with.

  The prompt is written in UTF-8: a character outside ASCII is its bytes. The lines that tell the
  model which fields a state requires have definitions of their own; the facts at the end compare
  them with what validation requires.
\<close>

subsection \<open>The prompt\<close>

definition em_dash :: string where
  "em_dash = [CHR 0xE2, CHR 0x80, CHR 0x94]"

definition arrow :: string where
  "arrow = [CHR 0xE2, CHR 0x86, CHR 0x92]"

definition prompt_output :: string where
  "prompt_output =
     ''Emit a single flat JSON object matching the schema. The required fields you '' @
     ''must always provide:''"

definition prompt_states :: string where
  "prompt_states =
     ''- `canonical_state` '' @
     em_dash @
     '' exactly one of: PICKED_UP, IN_TRANSIT, OUT_FOR_DELIVERY, DELIVERED, ISSUED, '' @
     ''PAID, VOIDED, REFUNDED, UNCLASSIFIED. Case-sensitive. Map vendor wording to '' @
     ''the closest match (e.g. \"vessel sailed\" '' @
     arrow @
     '' IN_TRANSIT, \"package delivered\" '' @
     arrow @
     '' DELIVERED). Do not invent new values.''"

definition prompt_shipments :: string where
  "prompt_shipments =
     ''- **PICKED_UP / IN_TRANSIT / OUT_FOR_DELIVERY / DELIVERED** (shipment '' @
     ''events): MUST also set `vendor_milestone` (the original vendor wording) and '' @
     ''`transport_doc_number` (MBL / HBL / AWB number). Optional context: '' @
     ''`container_id`, `vessel_name`, `vessel_imo`, `voyage_number`, port '' @
     ''codes/names, `consignee`, `delivery_order_number`, `shipper_reference`.''"

definition prompt_issued :: string where
  "prompt_issued =
     ''- **ISSUED** (invoice issued): MUST also set `vendor_milestone`, '' @
     ''`document_reference`, `currency` (ISO-4217), `amount` (decimal), `issued_at` '' @
     ''(UTC ISO-8601). Optional: `due_at`, `payer`, `payee`, `line_items` (list of '' @
     ''`{description, amount, currency}`).''"

definition prompt_paid :: string where
  "prompt_paid =
     ''- **PAID** (invoice paid / settled): MUST also set `vendor_milestone`, '' @
     ''`document_reference`, `currency`, `amount_paid` (decimal), `settled_at`. '' @
     ''Optional: `payer`, `payee`, `remitter`, `memo`.''"

definition prompt_voided :: string where
  "prompt_voided =
     ''- **VOIDED**: MUST also set `vendor_milestone`, `document_reference`, '' @
     ''`currency`, `voided_at`. Optional: `payer`, `payee`, `void_reason`.''"

definition prompt_refunded :: string where
  "prompt_refunded =
     ''- **REFUNDED**: MUST also set `vendor_milestone`, `document_reference`, '' @
     ''`currency`, `refund_amount`, `refunded_at`. Optional: `payer`, `payee`, '' @
     ''`refund_reason`.''"

definition prompt_unclassified :: string where
  "prompt_unclassified =
     ''- **UNCLASSIFIED**: MUST set `reason`. Drop everything else into `extras`.''"

definition prompt_lines :: "string list" where
  "prompt_lines =
    [''You are a normalization engine for a supply-chain platform that ingests '' @
      ''vendor webhooks.'',
     [],
     ''Classify each payload into one of three buckets, then emit the strict typed '' @
      ''event the schema asks for.'',
     [],
     ''# Buckets'',
     ''- **shipment**: a physical parcel / container moving through a logistics '' @
      ''network (gate-in, vessel sailed, transit milestones, out for delivery, '' @
      ''delivered).'',
     ''- **invoice**: a financial document (issued, paid / settled, voided, '' @
      ''refunded).'',
     ''- **unclassified**: anything else (port advisories, weather, marketing, '' @
      ''system pings). Also use this when a payload looks like a shipment / invoice '' @
      ''but is missing a field the typed schema requires '' @
      em_dash @
      '' set `reason` to describe what was missing. `reason` is ONLY meaningful for '' @
      ''UNCLASSIFIED '' @
      em_dash @
      '' leave it null on every other state.'',
     [],
     ''# Output'',
     prompt_output,
     [],
     prompt_states,
     ''- `vendor` '' @
      em_dash @
      '' canonical vendor identifier extracted from the payload.'',
     ''- `event_at` '' @
      em_dash @
      '' ISO-8601 UTC timestamp for when the event happened (the vendor's milestone '' @
      ''time, not now).'',
     [],
     ''The remaining fields depend on `canonical_state`:'',
     [],
     prompt_shipments,
     prompt_issued,
     prompt_paid,
     prompt_voided,
     prompt_refunded,
     prompt_unclassified,
     [],
     ''# Cross-cutting transformations'',
     ''- All datetime fields (`event_at`, `*_at`) must be ISO-8601 UTC. Convert '' @
      ''offset times (\"...+08:00\" '' @
      arrow @
      '' UTC) and named timezones (\"WIB\" = UTC+7) accordingly.'',
     ''- Currency: extract the ISO-4217 code (3 letters) and a decimal amount. Parse '' @
      ''European format (\"24.350,75\" '' @
      arrow @
      '' 24350.75) and US format (\"24,350.75\" '' @
      arrow @
      '' 24350.75) correctly.'',
     ''- For shipments, prefer the **Master BL** when both master and house BLs are '' @
      ''present. The same logical shipment must always yield the same '' @
      ''`transport_doc_number` across events; the same logical invoice the same '' @
      ''`document_reference`.'',
     [],
     ''# Lossless capture'',
     ''The schema has an `extras` dict. Put any vendor-specific fields that don't '' @
      ''fit the typed schema there so they're preserved for future use. For '' @
      ''UNCLASSIFIED payloads, `extras` is the primary place vendor data lands.'',
     [],
     ''# Discipline'',
     ''Output ONLY the structured JSON. Never invent values not present in the '' @
      ''payload (or that you can't derive deterministically, like a timezone '' @
      ''conversion).'']"

definition SYSTEM_PROMPT :: string where
  "SYSTEM_PROMPT = concat (map (\<lambda>l. l @ [CHR 0x0A]) prompt_lines)"

text \<open>The line about a state.\<close>

definition state_line :: "string \<Rightarrow> string" where
  "state_line tag =
     (if tag \<in> set SHIPMENT_STATES then prompt_shipments
      else if tag = ''ISSUED'' then prompt_issued
      else if tag = ''PAID'' then prompt_paid
      else if tag = ''VOIDED'' then prompt_voided
      else if tag = ''REFUNDED'' then prompt_refunded
      else prompt_unclassified)"

subsection \<open>The client\<close>

text \<open>\<open>build_llm\<close>: what the client is constructed with. Times are in seconds.\<close>

record llm_client =
  llm_name :: string
  llm_api_key :: string
  llm_temperature :: rat
  llm_timeout :: int
  llm_max_retries :: int
  llm_stop :: "string list option"

definition build_llm :: "settings \<Rightarrow> llm_client" where
  "build_llm cfg =
     \<lparr>llm_name = llm_model cfg, llm_api_key = anthropic_api_key cfg, llm_temperature = 0,
      llm_timeout = 30, llm_max_retries = 2, llm_stop = None\<rparr>"

text \<open>
  The longest a call can take, the first attempt and every retry timing out; with the default settings
  a claim only counts as stale after more than three times as long.
\<close>

definition longest_call :: "llm_client \<Rightarrow> int" where
  "longest_call c = llm_timeout c * (1 + llm_max_retries c)"

lemma reaper_margin:
  "3 * longest_call (build_llm default_settings) < 60 * worker_stale_lock_minutes default_settings"
  by (simp add: longest_call_def build_llm_def default_settings_def)

subsection \<open>Prompt and schema\<close>

text \<open>
  \<open>quoted\<close>: the names a text puts between backquotes. A state's line names in its first sentence, up to
  the first full stop, the fields the model must set.
\<close>

fun quoted :: "bool \<Rightarrow> string \<Rightarrow> string \<Rightarrow> string list" where
  "quoted inside word [] = []"
| "quoted inside word (c # cs) =
     (if c = CHR ''`'' then (if inside then rev word # quoted False [] cs else quoted True [] cs)
      else quoted inside (if inside then c # word else word) cs)"

definition must_set :: "string \<Rightarrow> string list" where
  "must_set tag = quoted False [] (takeWhile (\<lambda>c. c \<noteq> CHR ''.'') (state_line tag))"

fun comma_list :: "string list \<Rightarrow> string" where
  "comma_list [] = []"
| "comma_list [x] = x"
| "comma_list (x # y # zs) = x @ '', '' @ comma_list (y # zs)"

lemma must_set_required:
  "must_set ''PICKED_UP'' = required_fields ''PICKED_UP''"
  "must_set ''IN_TRANSIT'' = required_fields ''IN_TRANSIT''"
  "must_set ''OUT_FOR_DELIVERY'' = required_fields ''OUT_FOR_DELIVERY''"
  "must_set ''DELIVERED'' = required_fields ''DELIVERED''"
  "must_set ''ISSUED'' = required_fields ''ISSUED''" "must_set ''PAID'' = required_fields ''PAID''"
  "must_set ''VOIDED'' = required_fields ''VOIDED''" "must_set ''REFUNDED'' = required_fields ''REFUNDED''"
  "must_set ''UNCLASSIFIED'' = required_fields ''UNCLASSIFIED''"
  by code_simp+

lemma state_lines_in_prompt: "set (map state_line union_tags) \<subseteq> set prompt_lines"
  by (auto simp: state_line_def prompt_lines_def)

lemma prompt_output_listed:
  "prompt_output \<in> set prompt_lines" "sublist ''a single flat JSON object'' prompt_output"
proof -
  show "prompt_output \<in> set prompt_lines" by (simp add: prompt_lines_def)
  show "sublist ''a single flat JSON object'' prompt_output" by code_simp
qed

lemma prompt_states_listed:
  "prompt_states \<in> set prompt_lines" "sublist (''exactly one of: '' @ comma_list union_tags @ ''.'') prompt_states"
proof -
  show "prompt_states \<in> set prompt_lines" by (simp add: prompt_lines_def)
  show "sublist (''exactly one of: '' @ comma_list union_tags @ ''.'') prompt_states"
    by code_simp
qed

end
