(* ===== verification/Classifier.thy ===== *)
theory Classifier
  imports Prompt Hashing
begin

text \<open>
  \<^verbatim>\<open>app/llm/classifier.py\<close>. The structured LLM client is a parameter: it is sent the system prompt
  and the payload as sorted JSON, and it raises, returns a \<open>NormalizedEvent\<close> instance, or returns
  something else (a dict, or \<open>None\<close>), which is validated here.
\<close>

datatype chat_message = SystemMessage string | HumanMessage "byte list"

datatype llm_result = EventInstance normalized_event | OtherResult json

definition classify ::
    "scalars \<Rightarrow> (json \<Rightarrow> byte list option) \<Rightarrow> (chat_message list \<Rightarrow> exn + llm_result) \<Rightarrow>
     json \<Rightarrow> exn + normalized_event" where
  "classify sc dumps structured payload =
     (case dumps payload of
        None \<Rightarrow> Inl JSONEncodeError
      | Some content \<Rightarrow>
          (case structured [SystemMessage SYSTEM_PROMPT, HumanMessage content] of
             Inl e \<Rightarrow> Inl e
           | Inr (EventInstance ev) \<Rightarrow> Inr ev
           | Inr (OtherResult j) \<Rightarrow>
               (case model_validate sc j of
                  Inl es \<Rightarrow> Inl (ValidationError es)
                | Inr ev \<Rightarrow> Inr ev)))"

text \<open>
  An instance of the model only exists validated; given that, every event a classification returns
  is well-formed.
\<close>

lemma classify_wf:
  assumes "\<And>ms ev. structured ms = Inr (EventInstance ev) \<Longrightarrow> wf_event ev"
    and "classify sc dumps structured p = Inr ev"
  shows "wf_event ev"
  using assms model_validate_wf
  by (auto simp: classify_def split: option.splits sum.splits llm_result.splits)

lemma classify_cong:
  "dumps p = dumps q \<Longrightarrow> classify sc dumps structured p = classify sc dumps structured q"
  by (simp add: classify_def)

end
