(* ===== verification/Worker.thy ===== *)
theory Worker
  imports Normalization Classifier
begin

text \<open>
  \<^verbatim>\<open>app/workers/ingest_worker.py\<close>: claiming a pending raw event, recording a failure, the reaper,
  one iteration of the worker and its loop.

  The text of an exception, \<open>repr(exc)\<close>, is a parameter \<open>repr\<close>. A classifier is a function from
  payloads to an exception or an event.
\<close>

subsection \<open>Changes of one row\<close>

definition mark_claimed :: "timestamp \<Rightarrow> raw_event \<Rightarrow> raw_event" where
  "mark_claimed db_now r = r\<lparr>re_status := Processing, re_locked_at := Some db_now\<rparr>"

definition fail_row :: "string \<Rightarrow> int \<Rightarrow> raw_event \<Rightarrow> raw_event" where
  "fail_row err max_attempts r =
     r\<lparr>re_attempts := re_attempts r + 1,
       re_last_error := Some (py_prefix 2000 err),
       re_locked_at := None,
       re_status := (if re_attempts r + 1 \<ge> max_attempts then Failed else Pending)\<rparr>"

definition release_row :: "raw_event \<Rightarrow> raw_event" where
  "release_row r = r\<lparr>re_status := Pending, re_locked_at := None\<rparr>"

subsection \<open>claim_one\<close>

text \<open>
  \<open>SELECT id ... WHERE status = 'pending' ORDER BY received_at FOR UPDATE SKIP LOCKED LIMIT 1\<close>.
  SQL leaves the order among equal \<open>received_at\<close> open: \<open>tie\<close> ranks the ids and decides it.
  \<open>locked\<close> are the ids of the rows other transactions hold locked.
\<close>

definition claimable :: "uuid list \<Rightarrow> raw_event \<Rightarrow> bool" where
  "claimable locked r \<longleftrightarrow> re_status r = Pending \<and> re_id r \<notin> set locked"

definition next_pending ::
    "(uuid \<Rightarrow> nat) \<Rightarrow> uuid list \<Rightarrow> db \<Rightarrow> raw_event option" where
  "next_pending tie locked d =
     (case sort_key re_received_at (sort_key (\<lambda>r. tie (re_id r))
             (filter (claimable locked) (raw_events d))) of
        [] \<Rightarrow> None
      | r # _ \<Rightarrow> Some r)"

text \<open>The statement does not use \<open>max_attempts\<close>, although it is passed.\<close>

definition claim_one ::
    "(uuid \<Rightarrow> nat) \<Rightarrow> uuid list \<Rightarrow> timestamp \<Rightarrow> int \<Rightarrow> (db, raw_event option) tx" where
  "claim_one tie locked db_now max_attempts =
     tx_bind (tx_read (next_pending tie locked)) (\<lambda>found.
     case found of
       None \<Rightarrow> tx_return None
     | Some r \<Rightarrow>
         tx_bind (update_raw (re_id r) (mark_claimed db_now)) (\<lambda>_.
         get_raw (re_id r)))"

subsection \<open>mark_failed and reap_stale\<close>

definition mark_failed :: "exn option \<Rightarrow> uuid \<Rightarrow> string \<Rightarrow> int \<Rightarrow> (db, unit) tx" where
  "mark_failed fault raw_event_id err max_attempts =
     session_scope fault
       (tx_bind (get_raw raw_event_id) (\<lambda>row.
        case row of
          None \<Rightarrow> tx_return ()
        | Some r \<Rightarrow> update_raw raw_event_id (fail_row err max_attempts)))"

definition is_stale :: "timestamp \<Rightarrow> raw_event \<Rightarrow> bool" where
  "is_stale threshold r \<longleftrightarrow> re_status r = Processing \<and>
     (case re_locked_at r of None \<Rightarrow> False | Some l \<Rightarrow> l < threshold)"

definition release_stale :: "timestamp \<Rightarrow> (db, nat) tx" where
  "release_stale threshold = (\<lambda>d.
     (Inr (length (filter (is_stale threshold) (raw_events d))),
      set_raw_events (map (\<lambda>r. if is_stale threshold r then release_row r else r) (raw_events d)) d))"

definition reap_stale :: "exn option \<Rightarrow> settings \<Rightarrow> timestamp \<Rightarrow> (db, nat) tx" where
  "reap_stale fault cfg now =
     (case minutes_before (worker_stale_lock_minutes cfg) now of
        None \<Rightarrow> tx_raise OverflowError
      | Some threshold \<Rightarrow> session_scope fault (release_stale threshold))"

subsection \<open>process_one\<close>

text \<open>What the surroundings contribute to one iteration: clocks, fresh ids, tie-breaking, locks, faults.\<close>

record process_env =
  pe_tie :: "uuid \<Rightarrow> nat"
  pe_locked :: "uuid list"
  pe_claim_now :: timestamp
  pe_now :: timestamp
  pe_db_now :: timestamp
  pe_entity_id :: uuid
  pe_event_id :: uuid
  pe_claim_fault :: "exn option"
  pe_persist_fault :: "exn option"
  pe_mark_fault :: "exn option"

text \<open>The second half of an iteration: the classifier has answered for the claimed row \<open>raw_id\<close>.\<close>

definition persist_loaded ::
    "scalars \<Rightarrow> settings \<Rightarrow> process_env \<Rightarrow> uuid \<Rightarrow> normalized_event \<Rightarrow> (db, unit) tx" where
  "persist_loaded sc cfg env raw_id ev =
     tx_bind (get_raw raw_id) (\<lambda>row.
     case row of
       None \<Rightarrow> tx_return ()
     | Some r \<Rightarrow> persist_normalized sc cfg (pe_now env) (pe_db_now env) (pe_entity_id env)
                   (pe_event_id env) r ev)"

definition process_claimed ::
    "scalars \<Rightarrow> (exn \<Rightarrow> string) \<Rightarrow> settings \<Rightarrow> process_env \<Rightarrow> uuid \<Rightarrow>
     exn + normalized_event \<Rightarrow> (db, unit) tx" where
  "process_claimed sc repr cfg env raw_id result =
     (case result of
        Inl exc \<Rightarrow>
          mark_failed (pe_mark_fault env) raw_id (''classify: '' @ repr exc) (worker_max_attempts cfg)
      | Inr ev \<Rightarrow>
          tx_try (session_scope (pe_persist_fault env) (persist_loaded sc cfg env raw_id ev))
            (\<lambda>exc. mark_failed (pe_mark_fault env) raw_id (''persist: '' @ repr exc)
                      (worker_max_attempts cfg)))"

definition process_one ::
    "scalars \<Rightarrow> (exn \<Rightarrow> string) \<Rightarrow> settings \<Rightarrow> (json \<Rightarrow> exn + normalized_event) \<Rightarrow> process_env \<Rightarrow>
     (db, bool) tx" where
  "process_one sc repr cfg classifier env =
     tx_bind (session_scope (pe_claim_fault env)
       (claim_one (pe_tie env) (pe_locked env) (pe_claim_now env) (worker_max_attempts cfg)))
     (\<lambda>claimed.
     case claimed of
       None \<Rightarrow> tx_return False
     | Some raw \<Rightarrow>
         tx_bind (process_claimed sc repr cfg env (re_id raw) (classifier (re_payload raw)))
           (\<lambda>_. tx_return True))"

subsection \<open>The loop\<close>

text \<open>
  One pass of the loop of \<open>run\<close> for which \<open>shutdown\<close> was not set: the monotonic clock \<open>tk_time\<close>,
  the wall clock \<open>tk_now\<close> the reaper reads, a possible fault of the reaper, the classifier's answers
  and the surroundings of \<open>process_one\<close>. \<open>tk_shutdown\<close> is \<open>shutdown.is_set()\<close> at the head of the pass.
\<close>

record tick =
  tk_shutdown :: bool
  tk_time :: rat
  tk_now :: timestamp
  tk_reap_fault :: "exn option"
  tk_classifier :: "json \<Rightarrow> exn + normalized_event"
  tk_env :: process_env

text \<open>Exceptions of the reaper and of \<open>process_one\<close> are logged and swallowed.\<close>

definition loop_pass ::
    "scalars \<Rightarrow> (exn \<Rightarrow> string) \<Rightarrow> settings \<Rightarrow> tick \<Rightarrow> rat \<times> db \<Rightarrow> bool \<times> (rat \<times> db)" where
  "loop_pass sc repr cfg tk st =
     (let (last_reap, d) = st;
          due = tk_time tk - last_reap \<ge> of_int (worker_reaper_interval_s cfg);
          d1 = (if due then snd (reap_stale (tk_reap_fault tk) cfg (tk_now tk) d) else d);
          last_reap' = (if due then tk_time tk else last_reap);
          (out, d2) = process_one sc repr cfg (tk_classifier tk) (tk_env tk) d1;
          did_work = (case out of Inl _ \<Rightarrow> False | Inr b \<Rightarrow> b)
      in (did_work, (last_reap', d2)))"

text \<open>The loop over the passes the clock grants, until shutdown is seen; the outputs of the passes.\<close>

fun run_loop ::
    "scalars \<Rightarrow> (exn \<Rightarrow> string) \<Rightarrow> settings \<Rightarrow> tick list \<Rightarrow> rat \<times> db \<Rightarrow> bool list \<times> (rat \<times> db)" where
  "run_loop sc repr cfg [] st = ([], st)"
| "run_loop sc repr cfg (tk # tks) st =
     (if tk_shutdown tk then ([], st)
      else let (did_work, st') = loop_pass sc repr cfg tk st;
               (outs, st'') = run_loop sc repr cfg tks st'
           in (did_work # outs, st''))"

text \<open>\<open>run\<close>: an initial sweep whose failure is swallowed, then the loop.\<close>

definition run_worker ::
    "scalars \<Rightarrow> (exn \<Rightarrow> string) \<Rightarrow> settings \<Rightarrow> exn option \<Rightarrow> timestamp \<Rightarrow> rat \<Rightarrow> tick list \<Rightarrow> db \<Rightarrow>
     bool list \<times> db" where
  "run_worker sc repr cfg fault now start ticks d =
     (let d1 = snd (reap_stale fault cfg now d);
          (outs, st) = run_loop sc repr cfg ticks (start, d1)
      in (outs, snd st))"

end
