(* ===== verification/Retry.thy ===== *)
theory Retry
  imports Normalization Classifier
begin

text \<open>
  \<^verbatim>\<open>app/services/retry.py\<close>: the operator's synchronous retry, in phases with a transaction each.
  \<open>show_uuid\<close> is the text of an id, \<open>repr\<close> the text of an exception.
\<close>

definition acquire_row :: "timestamp \<Rightarrow> raw_event \<Rightarrow> raw_event" where
  "acquire_row now r =
     r\<lparr>re_status := Processing, re_locked_at := Some now, re_attempts := re_attempts r + 1,
       re_last_error := None\<rparr>"

definition retry_failed_row :: "string \<Rightarrow> raw_event \<Rightarrow> raw_event" where
  "retry_failed_row err r =
     r\<lparr>re_status := Pending, re_last_error := Some (py_prefix 2000 (''manual retry: '' @ err))\<rparr>"

text \<open>Phase 1: lock the row, check its state, take it over. Returns the payload snapshot.\<close>

definition retry_acquire :: "(uuid option \<Rightarrow> string) \<Rightarrow> uuid \<Rightarrow> timestamp \<Rightarrow> (db, json) tx" where
  "retry_acquire show_uuid i now =
     tx_bind (get_raw i) (\<lambda>raw.
     case raw of
       None \<Rightarrow> tx_raise (RetryNotFoundError i)
     | Some r \<Rightarrow>
         if re_status r = Duplicate then
           tx_raise (RetryRefusedError ''duplicate''
             (''row is a duplicate of '' @ show_uuid (re_duplicate_of_id r) @
              ''; retry the parent instead''))
         else if re_status r = Processed then
           tx_raise (RetryRefusedError ''processed'' ''row is already processed; nothing to retry'')
         else tx_bind (update_raw i (acquire_row now)) (\<lambda>_. tx_return (re_payload r)))"

record retry_env =
  rt_acquire_now :: timestamp
  rt_now :: timestamp
  rt_db_now :: timestamp
  rt_entity_id :: uuid
  rt_event_id :: uuid
  rt_acquire_fault :: "exn option"
  rt_persist_fault :: "exn option"
  rt_record_fault :: "exn option"
  rt_read_fault :: "exn option"

text \<open>Phase 2: the classifier has answered; persist in a transaction of its own.\<close>

definition retry_persist ::
    "scalars \<Rightarrow> settings \<Rightarrow> retry_env \<Rightarrow> uuid \<Rightarrow> normalized_event \<Rightarrow> (db, unit) tx" where
  "retry_persist sc cfg env i ev =
     tx_bind (get_raw i) (\<lambda>row.
     case row of
       None \<Rightarrow> tx_raise (RetryNotFoundError i)
     | Some r \<Rightarrow> persist_normalized sc cfg (rt_now env) (rt_db_now env) (rt_entity_id env)
                   (rt_event_id env) r ev)"

definition retry_process ::
    "scalars \<Rightarrow> settings \<Rightarrow> retry_env \<Rightarrow> uuid \<Rightarrow> exn + normalized_event \<Rightarrow> (db, unit) tx" where
  "retry_process sc cfg env i result =
     (case result of
        Inl exc \<Rightarrow> tx_raise exc
      | Inr ev \<Rightarrow> session_scope (rt_persist_fault env) (retry_persist sc cfg env i ev))"

text \<open>Phase 3, only after a failure: put the row back with the error, then re-raise.\<close>

definition retry_record :: "exn option \<Rightarrow> uuid \<Rightarrow> string \<Rightarrow> (db, unit) tx" where
  "retry_record fault i err =
     session_scope fault
       (tx_bind (get_raw i) (\<lambda>row.
        case row of
          None \<Rightarrow> tx_return ()
        | Some r \<Rightarrow> update_raw i (retry_failed_row err)))"

definition retry_finish ::
    "scalars \<Rightarrow> (exn \<Rightarrow> string) \<Rightarrow> settings \<Rightarrow> retry_env \<Rightarrow> uuid \<Rightarrow> exn + normalized_event \<Rightarrow>
     (db, unit) tx" where
  "retry_finish sc repr cfg env i result =
     tx_try (retry_process sc cfg env i result)
       (\<lambda>exc. tx_bind (retry_record (rt_record_fault env) i (repr exc)) (\<lambda>_. tx_raise exc))"

text \<open>Phase 4: read the row back.\<close>

definition retry_read :: "exn option \<Rightarrow> uuid \<Rightarrow> (db, raw_event) tx" where
  "retry_read fault i =
     session_scope fault
       (tx_bind (get_raw i) (\<lambda>row.
        case row of
          None \<Rightarrow> tx_raise (RetryNotFoundError i)
        | Some r \<Rightarrow> tx_return r))"

definition retry_raw_event ::
    "scalars \<Rightarrow> (exn \<Rightarrow> string) \<Rightarrow> (uuid option \<Rightarrow> string) \<Rightarrow> settings \<Rightarrow>
     (json \<Rightarrow> exn + normalized_event) \<Rightarrow> retry_env \<Rightarrow> uuid \<Rightarrow> (db, raw_event) tx" where
  "retry_raw_event sc repr show_uuid cfg classifier env i =
     tx_bind (session_scope (rt_acquire_fault env) (retry_acquire show_uuid i (rt_acquire_now env)))
       (\<lambda>payload.
     tx_bind (retry_finish sc repr cfg env i (classifier payload)) (\<lambda>_.
     retry_read (rt_read_fault env) i))"

end
