(* ===== verification/Lifecycle.thy ===== *)
theory Lifecycle
  imports Ingestion Worker Retry
begin

text \<open>
  The life of a raw event row. Every service changes rows only through the row functions
  \<open>new_raw_event\<close>, \<open>mark_claimed\<close>, \<open>fail_row\<close>, \<open>release_row\<close>, \<open>mark_processed\<close>,
  \<open>acquire_row\<close> and \<open>retry_failed_row\<close>. The locale \<open>row_contract\<close> is the contract of a property of
  single rows with these functions; in it every operation is shown to keep the property for all
  rows, once. Two properties are interpreted: what each status implies (\<open>lifecycle_row\<close>), and that
  exactly the duplicates have a parent (\<open>status_link\<close>).
\<close>

subsection \<open>Frame facts\<close>

definition all_rows :: "(raw_event \<Rightarrow> bool) \<Rightarrow> db \<Rightarrow> bool" where
  "all_rows P d \<longleftrightarrow> (\<forall>r \<in> set (raw_events d). P r)"

text \<open>The row with this id, if there is one, is a primary.\<close>

definition pinned :: "uuid \<Rightarrow> db \<Rightarrow> bool" where
  "pinned i d \<longleftrightarrow> (\<forall>r \<in> set (raw_events d). re_id r = i \<longrightarrow> is_primary r)"

lemma upsert_entity_raw: "upsert_entity k now e d = (r, d1) \<Longrightarrow> raw_events d1 = raw_events d"
  by (auto simp: upsert_entity_def split: if_splits option.splits)

lemma insert_event_raw: "insert_event_or_nothing k v d = (r, d1) \<Longrightarrow> raw_events d1 = raw_events d"
  by (auto simp: insert_event_or_nothing_def split: if_splits)

lemma advance_entity_raw: "advance_entity k i s t a now d = (r, d1) \<Longrightarrow> raw_events d1 = raw_events d"
  by (auto simp: advance_entity_def split: if_splits)

lemma update_raw_cases:
  "raw_events (snd (update_raw i f d)) = raw_events d \<or>
   raw_events (snd (update_raw i f d)) = row_update re_id i f (raw_events d)"
  by (auto simp: update_raw_def)

text \<open>The raw events are still \<open>R\<close>, or \<open>R\<close> with row \<open>i\<close> rewritten by \<open>f\<close>.\<close>

definition at_most_updated ::
    "uuid \<Rightarrow> (raw_event \<Rightarrow> raw_event) \<Rightarrow> raw_event list \<Rightarrow> db \<Rightarrow> bool" where
  "at_most_updated i f R d \<longleftrightarrow> raw_events d = R \<or> raw_events d = row_update re_id i f R"

lemma at_most_updated_raw:
  "raw_events d1 = raw_events d \<Longrightarrow> at_most_updated i f R d \<Longrightarrow> at_most_updated i f R d1"
  by (simp add: at_most_updated_def)

lemma at_most_updated_statements:
  "keeps (at_most_updated i f R) (upsert_entity k now e)"
  "keeps (at_most_updated i f R) (insert_event_or_nothing k v)"
  "keeps (at_most_updated i f R) (advance_entity k j s t a now)"
  by (rule keepsI, erule at_most_updated_raw [rotated],
      metis upsert_entity_raw insert_event_raw advance_entity_raw prod.collapse)+

lemma at_most_updated_mark:
  "keeps (at_most_updated i (mark_processed now err) R) (update_raw i (mark_processed now err))"
proof (rule keepsI)
  fix d assume d: "at_most_updated i (mark_processed now err) R d"
  have "row_update re_id i (mark_processed now err) (row_update re_id i (mark_processed now err) R) =
        row_update re_id i (mark_processed now err) R"
    by (simp add: row_update_def mark_processed_def)
  with d update_raw_cases [of i "mark_processed now err" d]
  show "at_most_updated i (mark_processed now err) R (snd (update_raw i (mark_processed now err) d))"
    unfolding at_most_updated_def by metis
qed

lemma persist_classified_raw:
  "raw_events (snd (persist_classified sc now db_now eid vid raw e d)) = raw_events d \<or>
   raw_events (snd (persist_classified sc now db_now eid vid raw e d)) =
     row_update re_id (re_id raw) (mark_processed now None) (raw_events d)"
proof -
  have "keeps (at_most_updated (re_id raw) (mark_processed now None) (raw_events d))
          (persist_classified sc now db_now eid vid raw e)"
    unfolding persist_classified_def Let_def
    by (intro keeps_intros at_most_updated_statements at_most_updated_mark)
  from keepsD [OF this, of d] show ?thesis by (simp add: at_most_updated_def)
qed

text \<open>Whatever happens, \<open>persist_normalized\<close> does nothing to raw events but mark its own processed.\<close>

lemma persist_normalized_raw:
  obtains (same) "raw_events (snd (persist_normalized sc cfg now db_now eid vid raw e d)) = raw_events d"
  | (marked) err where "varchar_opt 2000 err"
      "raw_events (snd (persist_normalized sc cfg now db_now eid vid raw e d)) =
         row_update re_id (re_id raw) (mark_processed now err) (raw_events d)"
proof (cases "payload_kind (ne_payload e)")
  case None
  then obtain p where p: "ne_payload e = UnclassifiedPayload p" by (auto simp: payload_kind_None)
  let ?err = "if worker_keep_unclassified_events cfg then None
              else Some (dropped_note (unclassified_reason p))"
  have err: "varchar_opt 2000 ?err" by (simp add: varchar_def length_dropped_note)
  from update_raw_cases [of "re_id raw" "mark_processed now ?err" d] show ?thesis
  proof
    assume "raw_events (snd (update_raw (re_id raw) (mark_processed now ?err) d)) = raw_events d"
    then show ?thesis by (intro same) (simp only: persist_normalized_unclassified [OF p])
  next
    assume "raw_events (snd (update_raw (re_id raw) (mark_processed now ?err) d)) =
      row_update re_id (re_id raw) (mark_processed now ?err) (raw_events d)"
    then show ?thesis by (intro marked [OF err]) (simp only: persist_normalized_unclassified [OF p])
  qed
next
  case (Some k)
  from persist_classified_raw [of sc now db_now eid vid raw e d] show ?thesis
  proof
    assume "raw_events (snd (persist_classified sc now db_now eid vid raw e d)) = raw_events d"
    then show ?thesis by (intro same) (simp only: persist_normalized_classified [OF Some])
  next
    assume "raw_events (snd (persist_classified sc now db_now eid vid raw e d)) =
      row_update re_id (re_id raw) (mark_processed now None) (raw_events d)"
    then show ?thesis
      by (intro marked [of None]) (simp_all only: persist_normalized_classified [OF Some] varchar_opt.simps)
  qed
qed

lemma row_changes_identity [keeps_intros]:
  "keeps_identity (mark_claimed t)" "keeps_identity (fail_row err m)"
  "keeps_identity (acquire_row t)" "keeps_identity (retry_failed_row err)"
  by (simp_all add: keeps_identity_def dedup_key_def mark_claimed_def fail_row_def acquire_row_def
      retry_failed_row_def)

lemma release_identity: "keeps_identity release_row"
  by (simp add: keeps_identity_def dedup_key_def release_row_def)

subsection \<open>Every operation keeps the schema\<close>

lemma next_pending_Some:
  assumes "next_pending tie locked d = Some r"
  shows "r \<in> set (raw_events d)" and "re_status r = Pending" and "re_id r \<notin> set locked"
    and "\<And>q. q \<in> set (raw_events d) \<Longrightarrow> claimable locked q \<Longrightarrow> re_received_at r \<le> re_received_at q"
proof -
  let ?xs = "sort_key (\<lambda>r. tie (re_id r)) (filter (claimable locked) (raw_events d))"
  obtain ys where ys: "sort_key re_received_at ?xs = r # ys"
    using assms by (auto simp: next_pending_def split: list.splits)
  then have "?xs \<noteq> []" by (metis list.distinct(1) sort_key_simps(1))
  from hd_sort_key_least [OF this, of re_received_at] ys
  have "r \<in> set ?xs" "\<forall>q \<in> set ?xs. re_received_at r \<le> re_received_at q" by simp_all
  then show "r \<in> set (raw_events d)" "re_status r = Pending" "re_id r \<notin> set locked"
    "\<And>q. q \<in> set (raw_events d) \<Longrightarrow> claimable locked q \<Longrightarrow> re_received_at r \<le> re_received_at q"
    by (auto simp: claimable_def)
qed

lemma next_pending_None:
  "next_pending tie locked d = None \<longleftrightarrow> (\<forall>r \<in> set (raw_events d). \<not> claimable locked r)"
proof -
  let ?ys = "sort_key re_received_at (sort_key (\<lambda>r. tie (re_id r)) (filter (claimable locked) (raw_events d)))"
  have "next_pending tie locked d = None \<longleftrightarrow> set ?ys = {}"
    by (auto simp: next_pending_def split: list.splits simp del: set_sort)
  then show ?thesis by auto
qed

lemma schema_claim_one [keeps_intros]: "keeps schema_ok (claim_one tie locked t m)"
  unfolding claim_one_def by (intro keeps_intros)

lemma schema_mark_failed [keeps_intros]: "keeps schema_ok (mark_failed f i err m)"
  unfolding mark_failed_def by (intro keeps_intros)

lemma release_stale_updates:
  "snd (release_stale th d) =
     set_raw_events (map (\<lambda>r. if is_stale th r then release_row r else r) (raw_events d)) d"
  by (simp add: release_stale_def)

lemma release_row_simps [simp]:
  "re_id (release_row r) = re_id r" "dedup_key (release_row r) = dedup_key r"
  "re_duplicate_of_id (release_row r) = re_duplicate_of_id r" "is_primary (release_row r) = is_primary r"
  by (simp_all add: release_row_def dedup_key_def is_primary_def)

lemma raw_fits_release [simp]: "raw_fits (release_row r) = raw_fits r"
  by (cases "re_status r") (simp_all add: raw_fits_def release_row_def varchar_def)

lemma released_columns:
  "map re_id (map (\<lambda>r. if is_stale th r then release_row r else r) rs) = map re_id rs"
  "map dedup_key (filter is_primary (map (\<lambda>r. if is_stale th r then release_row r else r) rs)) =
     map dedup_key (filter is_primary rs)"
  by (induction rs) auto

lemma schema_release_stale [keeps_intros]: "keeps schema_ok (release_stale th)"
proof (rule keepsI)
  fix d assume d: "schema_ok d"
  define rs where "rs = map (\<lambda>r. if is_stale th r then release_row r else r) (raw_events d)"
  have ids: "map re_id rs = map re_id (raw_events d)"
    and keys: "map dedup_key (filter is_primary rs) = map dedup_key (filter is_primary (raw_events d))"
    unfolding rs_def by (rule released_columns)+
  have idset: "re_id ` set rs = re_id ` set (raw_events d)" using ids by (metis list.set_map)
  have row: "\<exists>q \<in> set (raw_events d). raw_fits r = raw_fits q \<and> re_duplicate_of_id r = re_duplicate_of_id q"
    if "r \<in> set rs" for r
    using that unfolding rs_def set_map by (auto split: if_splits)
  have raw: "raw_schema_ok d" using d by (simp add: schema_ok_def)
  have "raw_schema_ok (set_raw_events rs d)"
    unfolding raw_schema_ok_def primaries_def raw_events_set_raw_events ids keys idset
  proof (intro conjI ballI allI impI)
    show "distinct (map re_id (raw_events d))"
      and "distinct (map dedup_key (filter is_primary (raw_events d)))"
      using raw by (simp_all add: raw_schema_ok_def primaries_def)
  next
    fix r assume "r \<in> set rs"
    from row [OF this] raw show "raw_fits r" by (auto simp: raw_schema_ok_def)
  next
    fix r p assume "r \<in> set rs" "re_duplicate_of_id r = Some p"
    with row [of r] raw show "p \<in> re_id ` set (raw_events d)" by (fastforce simp: raw_schema_ok_def)
  qed
  moreover have "kind_schema_ok k (set_raw_events rs d)" for k
    using d unfolding kind_schema_ok_def schema_ok_def raw_events_set_raw_events idset
      entities_set_raw_events entity_events_set_raw_events by blast
  ultimately have "schema_ok (set_raw_events rs d)" by (simp add: schema_ok_def)
  then show "schema_ok (snd (release_stale th d))" by (simp add: release_stale_updates rs_def)
qed

lemma schema_reap_stale [keeps_intros]: "keeps schema_ok (reap_stale f cfg now)"
  unfolding reap_stale_def by (intro keeps_intros)

lemma schema_persist_loaded [keeps_intros]: "keeps schema_ok (persist_loaded sc cfg env i ev)"
  unfolding persist_loaded_def by (intro keeps_intros)

lemma schema_retry_persist [keeps_intros]: "keeps schema_ok (retry_persist sc cfg env i ev)"
  unfolding retry_persist_def by (intro keeps_intros)

lemma schema_retry_record [keeps_intros]: "keeps schema_ok (retry_record fault i err)"
  unfolding retry_record_def by (intro keeps_intros)

lemma schema_process_claimed [keeps_intros]: "keeps schema_ok (process_claimed sc repr cfg env i res)"
  unfolding process_claimed_def persist_loaded_def by (intro keeps_intros)

lemma schema_process_one [keeps_intros]: "keeps schema_ok (process_one sc repr cfg cl env)"
  unfolding process_one_def by (intro keeps_intros)

lemma schema_retry_acquire [keeps_intros]: "keeps schema_ok (retry_acquire sh i now)"
  unfolding retry_acquire_def by (intro keeps_intros)

lemma schema_retry_finish [keeps_intros]: "keeps schema_ok (retry_finish sc repr cfg env i res)"
  unfolding retry_finish_def retry_process_def retry_persist_def retry_record_def by (intro keeps_intros)

lemma schema_retry_raw_event [keeps_intros]: "keeps schema_ok (retry_raw_event sc repr sh cfg cl env i)"
  unfolding retry_raw_event_def retry_read_def by (intro keeps_intros)

subsection \<open>What a claim does\<close>

lemma fits_mark_claimed [simp]: "raw_fits (mark_claimed t r) = raw_fits r"
  by (cases "re_status r") (simp_all add: raw_fits_def mark_claimed_def varchar_def)

lemma mark_claimed_simps [simp]:
  "re_id (mark_claimed t r) = re_id r" "re_status (mark_claimed t r) = Processing"
  "re_locked_at (mark_claimed t r) = Some t" "re_attempts (mark_claimed t r) = re_attempts r"
  "re_payload (mark_claimed t r) = re_payload r" "is_primary (mark_claimed t r) = is_primary r"
  "re_vendor_hint (mark_claimed t r) = re_vendor_hint r"
  by (simp_all add: mark_claimed_def is_primary_def)

lemma schema_raw_ids: "schema_ok d \<Longrightarrow> distinct (map re_id (raw_events d))"
  by (simp add: schema_ok_def raw_schema_ok_def)

lemma schema_raw_fits: "schema_ok d \<Longrightarrow> r \<in> set (raw_events d) \<Longrightarrow> raw_fits r"
  by (simp add: schema_ok_def raw_schema_ok_def)

lemma schema_same_id:
  "schema_ok d \<Longrightarrow> r \<in> set (raw_events d) \<Longrightarrow> q \<in> set (raw_events d) \<Longrightarrow> re_id q = re_id r \<Longrightarrow> q = r"
  by (metis eq_key_imp_eq_value distinct_map inj_on_eq_iff schema_raw_ids)

lemma lookup_raw:
  "schema_ok d \<Longrightarrow> r \<in> set (raw_events d) \<Longrightarrow> row_lookup re_id (raw_events d) (re_id r) = Some r"
  by (rule row_lookup_in [OF schema_raw_ids])

text \<open>On a consistent state an update of a row that fits goes through.\<close>

lemma update_raw_fits:
  assumes "\<And>r. r \<in> set (raw_events d) \<Longrightarrow> re_id r = i \<Longrightarrow> raw_fits (f r)"
  shows "update_raw i f d = (Inr (), set_raw_events (row_update re_id i f (raw_events d)) d)"
  using assms by (auto simp: update_raw_def)

abbreviation claimed_db :: "timestamp \<Rightarrow> raw_event \<Rightarrow> db \<Rightarrow> db" where
  "claimed_db t r d \<equiv> set_raw_events (row_update re_id (re_id r) (mark_claimed t) (raw_events d)) d"

text \<open>A claim never raises: it takes the next pending row and returns it, or finds none.\<close>

lemma claim_one_result:
  assumes d: "schema_ok d"
  shows "claim_one tie locked t m d =
    (case next_pending tie locked d of
       None \<Rightarrow> (Inr None, d)
     | Some r \<Rightarrow> (Inr (Some (mark_claimed t r)),
                  set_raw_events (row_update re_id (re_id r) (mark_claimed t) (raw_events d)) d))"
proof (cases "next_pending tie locked d")
  case None
  then show ?thesis by (simp add: claim_one_def tx_simps)
next
  case (Some r)
  from next_pending_Some(1) [OF this] have r: "r \<in> set (raw_events d)" .
  have "update_raw (re_id r) (mark_claimed t) d =
      (Inr (), set_raw_events (row_update re_id (re_id r) (mark_claimed t) (raw_events d)) d)"
    by (rule update_raw_fits) (simp add: schema_raw_fits [OF d])
  with Some lookup_raw [OF d r] show ?thesis
    by (simp add: claim_one_def tx_simps get_raw_def row_lookup_update)
qed

lemma snd_bind_return: "snd (tx_bind m (\<lambda>_. tx_return x) s) = snd (m s)"
  by (cases "m s"; cases "fst (m s)") (auto simp: tx_simps)

text \<open>An iteration is the claim of the next row followed by the processing of that row.\<close>

lemma process_one_result:
  assumes "schema_ok d"
  shows "process_one sc repr cfg cl env d =
    (case pe_claim_fault env of
       Some e \<Rightarrow> (Inl e, d)
     | None \<Rightarrow>
         (case next_pending (pe_tie env) (pe_locked env) d of
            None \<Rightarrow> (Inr False, d)
          | Some r \<Rightarrow>
              tx_bind (process_claimed sc repr cfg env (re_id r) (cl (re_payload r)))
                (\<lambda>_. tx_return True) (claimed_db (pe_claim_now env) r d)))"
proof (cases "pe_claim_fault env")
  case (Some e)
  then have "session_scope (pe_claim_fault env)
      (claim_one (pe_tie env) (pe_locked env) (pe_claim_now env) (worker_max_attempts cfg)) d = (Inl e, d)"
    by (simp add: session_scope_def claim_one_result [OF assms] split: option.split)
  with Some show ?thesis unfolding process_one_def by (simp add: tx_bind_Inl)
next
  case no_fault: None
  show ?thesis
  proof (cases "next_pending (pe_tie env) (pe_locked env) d")
    case None
    with no_fault have "session_scope (pe_claim_fault env)
        (claim_one (pe_tie env) (pe_locked env) (pe_claim_now env) (worker_max_attempts cfg)) d =
        (Inr None, d)"
      by (simp add: session_scope_def claim_one_result [OF assms])
    with no_fault None show ?thesis unfolding process_one_def by (simp add: tx_bind_Inr)
  next
    case (Some r)
    with no_fault have "session_scope (pe_claim_fault env)
        (claim_one (pe_tie env) (pe_locked env) (pe_claim_now env) (worker_max_attempts cfg)) d =
        (Inr (Some (mark_claimed (pe_claim_now env) r)), claimed_db (pe_claim_now env) r d)"
      by (simp add: session_scope_def claim_one_result [OF assms])
    with no_fault Some show ?thesis unfolding process_one_def by (simp add: tx_bind_Inr)
  qed
qed

text \<open>A successful acquisition found a row that is neither a duplicate nor processed.\<close>

lemma retry_acquire_returns:
  assumes "retry_acquire sh i t d = (Inr p, d')"
  obtains r where "r \<in> set (raw_events d)" "re_id r = i" "re_status r \<noteq> Duplicate"
    "re_status r \<noteq> Processed" "p = re_payload r"
    "d' = set_raw_events (row_update re_id i (acquire_row t) (raw_events d)) d"
proof (cases "row_lookup re_id (raw_events d) i")
  case None
  with assms show ?thesis by (simp add: retry_acquire_def tx_simps get_raw_def)
next
  case (Some r)
  with assms row_lookup_Some [OF Some] show ?thesis
    by (intro that [of r])
       (auto simp: retry_acquire_def tx_simps get_raw_def update_raw_def split: if_splits)
qed

lemma retry_acquire_raises:
  assumes "retry_acquire sh i t d = (Inl e, d')" shows "d' = d"
proof (cases "row_lookup re_id (raw_events d) i")
  case (Some r)
  with assms show ?thesis
    by (auto simp: retry_acquire_def tx_simps get_raw_def update_raw_def split: if_splits)
qed (use assms in \<open>simp add: retry_acquire_def tx_simps get_raw_def\<close>)

subsection \<open>The contract of a property of rows\<close>

lemma keeps_load:
  assumes "keeps J m" and "\<And>r. re_id r = i \<Longrightarrow> keeps J (f r)"
  shows "keeps J (tx_bind (get_raw i) (\<lambda>row. case row of None \<Rightarrow> m | Some r \<Rightarrow> f r))"
proof (rule keepsI)
  fix d assume d: "J d"
  show "J (snd (tx_bind (get_raw i) (\<lambda>row. case row of None \<Rightarrow> m | Some r \<Rightarrow> f r) d))"
  proof (cases "row_lookup re_id (raw_events d) i")
    case None
    with keepsD [OF assms(1) d] show ?thesis by (simp add: tx_simps get_raw_def)
  next
    case (Some r)
    with keepsD [OF assms(2) d, of r] row_lookup_Some [OF Some] show ?thesis
      by (simp add: tx_simps get_raw_def)
  qed
qed

lemma pinned_raw_update:
  assumes "keeps_identity f" shows "keeps (pinned i) (update_raw j f)"
  by (rule keepsI)
     (auto simp: update_raw_def pinned_def keeps_identityD [OF assms] dest!: in_row_update)

locale row_contract =
  fixes P :: "raw_event \<Rightarrow> bool"
  assumes new_primary: "P (new_raw_event i t v p h None Pending)"
    and new_duplicate: "P (new_raw_event i t v p h (Some j) Duplicate)"
    and primary: "P r \<Longrightarrow> re_status r \<noteq> Duplicate \<Longrightarrow> is_primary r"
    and claimed: "P r \<Longrightarrow> re_status r = Pending \<Longrightarrow> P (mark_claimed t r)"
    and failed: "P r \<Longrightarrow> is_primary r \<Longrightarrow> P (fail_row err m r)"
    and released: "P r \<Longrightarrow> re_status r = Processing \<Longrightarrow> P (release_row r)"
    and processed: "P r \<Longrightarrow> is_primary r \<Longrightarrow> varchar_opt 2000 info \<Longrightarrow> P (mark_processed t info r)"
    and acquired: "P r \<Longrightarrow> re_status r \<noteq> Duplicate \<Longrightarrow> re_status r \<noteq> Processed \<Longrightarrow> P (acquire_row t r)"
    and put_back: "P r \<Longrightarrow> is_primary r \<Longrightarrow> P (retry_failed_row err r)"
begin

definition owned :: "uuid \<Rightarrow> db \<Rightarrow> bool" where
  "owned i d \<longleftrightarrow> all_rows P d \<and> pinned i d"

lemma owned_updated:
  assumes "keeps_identity f" and "\<And>r. P r \<Longrightarrow> is_primary r \<Longrightarrow> P (f r)" and "owned i d"
  shows "owned i (set_raw_events (row_update re_id i f (raw_events d)) d)"
proof -
  have "P r \<and> (re_id r = i \<longrightarrow> is_primary r)" if r: "r \<in> set (row_update re_id i f (raw_events d))" for r
    using in_row_update [OF r]
  proof
    assume "r \<in> set (raw_events d) \<and> re_id r \<noteq> i"
    with assms(3) show ?thesis by (simp add: owned_def all_rows_def)
  next
    assume "\<exists>q \<in> set (raw_events d). re_id q = i \<and> r = f q"
    then obtain q where q: "q \<in> set (raw_events d)" "re_id q = i" "r = f q" by blast
    with assms(3) have "P q" and "is_primary q" by (simp_all add: owned_def all_rows_def pinned_def)
    with q(3) assms(2) keeps_identityD(4) [OF assms(1)] show ?thesis by simp
  qed
  then show ?thesis by (simp add: owned_def all_rows_def pinned_def)
qed

lemma owned_update:
  assumes "keeps_identity f" and "\<And>r. P r \<Longrightarrow> is_primary r \<Longrightarrow> P (f r)"
  shows "keeps (owned i) (update_raw i f)"
  by (rule keepsI) (auto simp: update_raw_def intro: owned_updated [OF assms])

lemma owned_raw: "raw_events d' = raw_events d \<Longrightarrow> owned i d \<Longrightarrow> owned i d'"
  by (simp add: owned_def all_rows_def pinned_def)

lemma owned_persist:
  "re_id raw = i \<Longrightarrow> keeps (owned i) (persist_normalized sc cfg now db_now eid vid raw e)"
proof (rule keepsI)
  fix d assume i: "re_id raw = i" and d: "owned i d"
  show "owned i (snd (persist_normalized sc cfg now db_now eid vid raw e d))"
    using persist_normalized_raw [of sc cfg now db_now eid vid raw e d]
  proof cases
    case same
    then show ?thesis using d by (rule owned_raw)
  next
    case (marked err)
    have "owned i (set_raw_events (row_update re_id i (mark_processed now err) (raw_events d)) d)"
      using marked(1) d by (intro owned_updated keeps_identity_mark_processed processed) auto
    then show ?thesis by (rule owned_raw [rotated]) (simp add: marked(2) i)
  qed
qed

lemma owned_mark_failed: "keeps (owned i) (mark_failed fault i err m)"
  unfolding mark_failed_def
  by (intro keeps_intros keeps_load owned_update row_changes_identity failed)

lemma owned_persist_loaded: "keeps (owned i) (persist_loaded sc cfg env i ev)"
  unfolding persist_loaded_def by (intro keeps_intros keeps_load owned_persist)

lemma owned_retry_persist: "keeps (owned i) (retry_persist sc cfg env i ev)"
  unfolding retry_persist_def by (intro keeps_intros keeps_load owned_persist)

lemma owned_retry_record: "keeps (owned i) (retry_record fault i err)"
  unfolding retry_record_def
  by (intro keeps_intros keeps_load owned_update row_changes_identity put_back)

lemma owned_process_claimed: "keeps (owned i) (process_claimed sc repr cfg env i res)"
  unfolding process_claimed_def persist_loaded_def
  by (intro keeps_intros keeps_load owned_mark_failed owned_persist)

lemma owned_retry_finish: "keeps (owned i) (retry_finish sc repr cfg env i res)"
  unfolding retry_finish_def retry_process_def retry_persist_def retry_record_def
  by (intro keeps_intros keeps_load owned_persist owned_update row_changes_identity put_back)

lemma rows_insert_raw_event: "keeps (all_rows P) (insert_raw_event dumps id1 id2 t v p)"
proof (rule keepsI)
  fix d assume d: "all_rows P d"
  obtain out d' where run: "insert_raw_event dumps id1 id2 t v p d = (out, d')" by fastforce
  show "all_rows P (snd (insert_raw_event dumps id1 id2 t v p d))"
  proof (cases out)
    case (Inl e)
    with run d insert_raw_event_raises show ?thesis by fastforce
  next
    case (Inr res)
    with run have "insert_raw_event dumps id1 id2 t v p d = (Inr res, d')" by simp
    then show ?thesis
      by (cases rule: insert_raw_event_cases)
         (use run d new_primary new_duplicate in \<open>auto simp: all_rows_def\<close>)
  qed
qed

lemma rows_release_stale: "keeps (all_rows P) (release_stale th)"
  by (rule keepsI) (auto simp: release_stale_def all_rows_def is_stale_def intro: released)

lemma rows_reap_stale: "keeps (all_rows P) (reap_stale fault cfg now)"
  unfolding reap_stale_def by (intro keeps_intros rows_release_stale)

lemma owned_claim:
  assumes "schema_ok d" and "all_rows P d" and "next_pending tie locked d = Some r"
  shows "owned (re_id r)
           (set_raw_events (row_update re_id (re_id r) (mark_claimed t) (raw_events d)) d)"
proof -
  note r = next_pending_Some(1,2) [OF assms(3)]
  have "q = r" if "q \<in> set (raw_events d)" "re_id q = re_id r" for q
    using schema_same_id [OF assms(1) r(1)] that by blast
  with r assms(2) show ?thesis
    by (fastforce simp: owned_def all_rows_def pinned_def claimed primary dest!: in_row_update)
qed

lemma rows_claim_one:
  assumes "schema_ok d" and "all_rows P d"
  shows "all_rows P (snd (claim_one tie locked t m d))"
  using owned_claim [OF assms, of tie locked] assms(2)
  by (auto simp: claim_one_result [OF assms(1)] owned_def split: option.split)

lemma rows_process_one:
  "keeps (\<lambda>d. schema_ok d \<and> all_rows P d) (process_one sc repr cfg cl env)"
proof (rule keepsI)
  fix d assume d: "schema_ok d \<and> all_rows P d"
  then have schema: "schema_ok (snd (process_one sc repr cfg cl env d))"
    by (intro keepsD [OF schema_process_one]) simp
  have "all_rows P (snd (process_one sc repr cfg cl env d))"
  proof (cases "next_pending (pe_tie env) (pe_locked env) d")
    case None
    with d show ?thesis by (simp add: process_one_result split: option.split)
  next
    case (Some r)
    let ?d = "set_raw_events (row_update re_id (re_id r) (mark_claimed (pe_claim_now env)) (raw_events d)) d"
    have "owned (re_id r) ?d" using d Some by (intro owned_claim) auto
    from keepsD [OF owned_process_claimed this, of sc repr cfg env "cl (re_payload r)"]
    have "all_rows P (snd (process_claimed sc repr cfg env (re_id r) (cl (re_payload r)) ?d))"
      by (simp add: owned_def)
    with Some d show ?thesis by (simp add: process_one_result snd_bind_return split: option.split)
  qed
  with schema show "schema_ok (snd (process_one sc repr cfg cl env d)) \<and>
    all_rows P (snd (process_one sc repr cfg cl env d))" ..
qed

lemma owned_acquired:
  assumes "schema_ok d" and "all_rows P d" and "retry_acquire sh i t d = (Inr p, d')"
  shows "owned i d'"
proof -
  from retry_acquire_returns [OF assms(3)] obtain r where
    r: "r \<in> set (raw_events d)" "re_id r = i" "re_status r \<noteq> Duplicate" "re_status r \<noteq> Processed"
    and d': "d' = set_raw_events (row_update re_id i (acquire_row t) (raw_events d)) d" by blast
  have "P r" using assms(2) r(1) by (simp add: all_rows_def)
  with r have new: "P (acquire_row t r)" "is_primary (acquire_row t r)" "re_id (acquire_row t r) = i"
    by (simp_all add: acquired primary keeps_identityD [OF row_changes_identity(3)])
  have "P q \<and> (re_id q = i \<longrightarrow> is_primary q)"
    if q: "q \<in> set (row_update re_id i (acquire_row t) (raw_events d))" for q
    using row_update_unique [OF schema_raw_ids [OF assms(1)] _ q, of r] lookup_raw [OF assms(1) r(1)]
      r(2) new assms(2) by (auto simp: all_rows_def)
  then show ?thesis by (simp add: d' owned_def all_rows_def pinned_def)
qed

lemma rows_retry_acquire:
  "keeps (\<lambda>d. schema_ok d \<and> all_rows P d) (retry_acquire sh i t)"
proof (rule keepsI)
  fix d assume d: "schema_ok d \<and> all_rows P d"
  obtain out d' where run: "retry_acquire sh i t d = (out, d')" by fastforce
  have "all_rows P d'"
  proof (cases out)
    case (Inl e)
    with run retry_acquire_raises d show ?thesis by blast
  next
    case (Inr p)
    with run d owned_acquired show ?thesis by (auto simp: owned_def)
  qed
  moreover have "schema_ok d'"
    using keepsD [OF schema_retry_acquire, of d sh i t] d run by simp
  ultimately show "schema_ok (snd (retry_acquire sh i t d)) \<and> all_rows P (snd (retry_acquire sh i t d))"
    using run by simp
qed

lemma rows_retry_read: "keeps (all_rows P) (retry_read fault i)"
  unfolding retry_read_def by (intro keeps_intros)

lemma rows_retry_raw_event:
  "keeps (\<lambda>d. schema_ok d \<and> all_rows P d) (retry_raw_event sc repr sh cfg cl env i)"
proof (rule keepsI)
  fix d assume d: "schema_ok d \<and> all_rows P d"
  let ?acq = "session_scope (rt_acquire_fault env) (retry_acquire sh i (rt_acquire_now env))"
  let ?run = "retry_raw_event sc repr sh cfg cl env i d"
  have schema: "schema_ok (snd ?run)" using keepsD [OF schema_retry_raw_event] d by blast
  obtain out d1 where acq0: "?acq d = (out, d1)" by fastforce
  have "all_rows P (snd ?run)"
  proof (cases out)
    case (Inl e)
    with acq0 have acq: "?acq d = (Inl e, d1)" by simp
    have "d1 = d" by (rule session_scope_raises [OF acq])
    with acq d show ?thesis unfolding retry_raw_event_def by (simp add: tx_bind_Inl)
  next
    case (Inr p)
    with acq0 have acq: "?acq d = (Inr p, d1)" by simp
    then have "retry_acquire sh i (rt_acquire_now env) d = (Inr p, d1)"
      by (simp add: session_scope_returns)
    with d have "owned i d1" by (intro owned_acquired) auto
    then have "owned i (snd (tx_bind (retry_finish sc repr cfg env i (cl p))
        (\<lambda>_. retry_read (rt_read_fault env) i) d1))"
      by (rule keepsD [rotated])
         (simp add: retry_read_def owned_retry_finish keeps_bind keeps_session_scope keeps_get_raw
           keeps_option keeps_raise keeps_return)
    with acq show ?thesis unfolding retry_raw_event_def by (simp add: tx_bind_Inr owned_def)
  qed
  with schema show "schema_ok (snd ?run) \<and> all_rows P (snd ?run)" ..
qed

end

subsection \<open>The two interpretations\<close>

lemma fail_row_simps [simp]:
  "re_id (fail_row err m r) = re_id r" "re_attempts (fail_row err m r) = re_attempts r + 1"
  "re_last_error (fail_row err m r) = Some (py_prefix 2000 err)"
  "re_locked_at (fail_row err m r) = None"
  "re_processed_at (fail_row err m r) = re_processed_at r"
  "re_duplicate_of_id (fail_row err m r) = re_duplicate_of_id r"
  "re_payload (fail_row err m r) = re_payload r"
  "re_vendor_hint (fail_row err m r) = re_vendor_hint r"
  "re_status (fail_row err m r) = (if re_attempts r + 1 \<ge> m then Failed else Pending)"
  by (simp_all add: fail_row_def)

lemma acquire_row_simps [simp]:
  "re_id (acquire_row t r) = re_id r" "re_attempts (acquire_row t r) = re_attempts r + 1"
  "re_last_error (acquire_row t r) = None" "re_locked_at (acquire_row t r) = Some t"
  "re_processed_at (acquire_row t r) = re_processed_at r"
  "re_duplicate_of_id (acquire_row t r) = re_duplicate_of_id r"
  "re_payload (acquire_row t r) = re_payload r" "re_vendor_hint (acquire_row t r) = re_vendor_hint r"
  "re_status (acquire_row t r) = Processing"
  by (simp_all add: acquire_row_def)

lemma retry_failed_row_simps [simp]:
  "re_id (retry_failed_row err r) = re_id r" "re_attempts (retry_failed_row err r) = re_attempts r"
  "re_last_error (retry_failed_row err r) = Some (py_prefix 2000 (''manual retry: '' @ err))"
  "re_locked_at (retry_failed_row err r) = re_locked_at r"
  "re_processed_at (retry_failed_row err r) = re_processed_at r"
  "re_duplicate_of_id (retry_failed_row err r) = re_duplicate_of_id r"
  "re_payload (retry_failed_row err r) = re_payload r"
  "re_vendor_hint (retry_failed_row err r) = re_vendor_hint r"
  "re_status (retry_failed_row err r) = Pending"
  by (simp_all add: retry_failed_row_def)

lemma release_row_more [simp]:
  "re_status (release_row r) = Pending" "re_locked_at (release_row r) = None"
  "re_attempts (release_row r) = re_attempts r" "re_last_error (release_row r) = re_last_error r"
  "re_processed_at (release_row r) = re_processed_at r" "re_payload (release_row r) = re_payload r"
  "re_vendor_hint (release_row r) = re_vendor_hint r"
  by (simp_all add: release_row_def)

lemma mark_claimed_more [simp]:
  "re_last_error (mark_claimed t r) = re_last_error r"
  "re_processed_at (mark_claimed t r) = re_processed_at r"
  "re_duplicate_of_id (mark_claimed t r) = re_duplicate_of_id r"
  by (simp_all add: mark_claimed_def)

text \<open>Exactly the duplicates have a parent.\<close>

definition status_link :: "raw_event \<Rightarrow> bool" where
  "status_link r \<longleftrightarrow> (re_status r = Duplicate \<longleftrightarrow> re_duplicate_of_id r \<noteq> None)"

text \<open>
  What each status implies: a row being processed has a claim time (so the reaper can find it), a
  processed row a completion time, a failed row an error and at least one attempt; a duplicate was
  never touched; attempts are not negative and an error is at most 2000 characters long.
\<close>

definition lifecycle_row :: "raw_event \<Rightarrow> bool" where
  "lifecycle_row r \<longleftrightarrow>
     status_link r \<and>
     (re_status r = Processing \<longrightarrow> re_locked_at r \<noteq> None) \<and>
     (re_status r = Processed \<longrightarrow> re_processed_at r \<noteq> None) \<and>
     (re_status r = Failed \<longrightarrow> re_last_error r \<noteq> None \<and> 1 \<le> re_attempts r) \<and>
     (re_status r = Duplicate \<longrightarrow> re_attempts r = 0 \<and> re_last_error r = None \<and>
        re_locked_at r = None \<and> re_processed_at r = None) \<and>
     0 \<le> re_attempts r \<and> varchar_opt 2000 (re_last_error r)"

interpretation link: row_contract status_link
  by unfold_locales (auto simp: status_link_def is_primary_def)

lemma life_changes:
  assumes "lifecycle_row r"
  shows "re_status r = Pending \<Longrightarrow> lifecycle_row (mark_claimed t r)"
    and "is_primary r \<Longrightarrow> lifecycle_row (fail_row err m r)"
    and "re_status r = Processing \<Longrightarrow> lifecycle_row (release_row r)"
    and "is_primary r \<Longrightarrow> varchar_opt 2000 info \<Longrightarrow> lifecycle_row (mark_processed t info r)"
    and "re_status r \<noteq> Duplicate \<Longrightarrow> re_status r \<noteq> Processed \<Longrightarrow> lifecycle_row (acquire_row t r)"
    and "is_primary r \<Longrightarrow> lifecycle_row (retry_failed_row err r)"
  using assms unfolding lifecycle_row_def status_link_def is_primary_def
  by (simp_all del: append.simps)

interpretation life: row_contract lifecycle_row
proof
  show "lifecycle_row (new_raw_event i t v p h None Pending)" for i t v p h
    by (simp add: lifecycle_row_def status_link_def)
  show "lifecycle_row (new_raw_event i t v p h (Some j) Duplicate)" for i t v p h j
    by (simp add: lifecycle_row_def status_link_def)
  show "is_primary r" if "lifecycle_row r" "re_status r \<noteq> Duplicate" for r
    using that by (simp add: lifecycle_row_def status_link_def is_primary_def)
qed (fact life_changes)+

end
