(* ===== verification/Outcome.thy ===== *)
theory Outcome
  imports History Lifecycle
begin

text \<open>
  When \<open>persist_normalized\<close> succeeds, what makes it fail, and what running it again does.
\<close>

subsection \<open>The statements succeed when their values fit\<close>

lemma upsert_entity_succeeds:
  assumes "entity_fits e" and "en_id e \<notin> en_id ` set (entities k d)"
  obtains i d1 where "upsert_entity k now e d = (Inr i, d1)"
  using assms by (cases "row_lookup natural_key (entities k d) (natural_key e)")
    (auto simp: upsert_entity_def)

lemma insert_event_succeeds:
  assumes "event_fits v" and "ev_id v \<notin> ev_id ` set (entity_events k d)"
    and "ev_entity_id v \<in> en_id ` set (entities k d)"
    and "ev_raw_event_id v \<in> re_id ` set (raw_events d)"
  obtains d1 where "insert_event_or_nothing k v d = (Inr (), d1)"
proof -
  have "fst (insert_event_or_nothing k v d) = Inr ()"
    using assms by (simp add: insert_event_or_nothing_def)
  then show ?thesis by (metis prod.collapse that)
qed

lemma entity_fits_advance:
  "entity_fits x \<Longrightarrow> varchar 32 s \<Longrightarrow> entity_fits (advance s t a now x)"
  by (simp add: entity_fits_def advance_def)

lemma advance_entity_succeeds:
  assumes "\<forall>x \<in> set (entities k d). entity_fits x" and "varchar 32 s"
  obtains d1 where "advance_entity k i s t a now d = (Inr (), d1)"
  using assms entity_fits_advance unfolding advance_entity_def by auto

lemma raw_fits_mark_processed:
  "raw_fits r \<Longrightarrow> varchar_opt 2000 info \<Longrightarrow> raw_fits (mark_processed now info r)"
  by (cases info) (auto simp: raw_fits_def mark_processed_def varchar_def)

lemma mark_processed_succeeds:
  assumes "schema_ok d" and "varchar_opt 2000 info"
  shows "update_raw i (mark_processed now info) d =
    (Inr (), set_raw_events (row_update re_id i (mark_processed now info) (raw_events d)) d)"
  by (rule update_raw_fits) (rule raw_fits_mark_processed [OF schema_raw_fits [OF assms(1)] assms(2)])

subsection \<open>When a classified event is stored\<close>

lemma persist_classified_succeeds:
  assumes d: "schema_ok d" and raw: "raw \<in> set (raw_events d)"
    and k: "payload_kind (ne_payload e) = Some k" and ref: "external_ref e = Some ref"
    and utc: "ensure_utc (ne_event_at e) = Some u"
    and fits: "varchar 128 ref" "varchar_opt 512 (vendor_milestone e)"
    and fresh: "eid \<notin> en_id ` set (entities k d)" "vid \<notin> ev_id ` set (entity_events k d)"
  shows "fst (persist_normalized sc cfg now db_now eid vid raw e d) = Inr ()"
proof -
  let ?en = "new_entity eid db_now (re_vendor_hint raw) ref (event_attributes sc e)"
  have "varchar 64 (re_vendor_hint raw)"
    using schema_raw_fits [OF d raw] by (simp add: raw_fits_def)
  with fits(1) have en: "entity_fits ?en" by simp
  obtain i d1 where up: "upsert_entity k now ?en d = (Inr i, d1)"
    using upsert_entity_succeeds [OF en, of k d now] fresh(1) by auto
  have d1: "schema_ok d1" using keepsD [OF schema_upsert_entity d, of k now ?en] up by simp
  have i: "i \<in> en_id ` set (entities k d1)"
    and ev1: "entity_events k d1 = entity_events k d" and raw1: "raw_events d1 = raw_events d"
  proof (atomize (full), rule upsert_entity_effect [OF d up])
    fix x
    assume x: "row_lookup natural_key (entities k d1) (natural_key ?en) = Some x" "en_id x = i"
      and same: "\<And>k'. entity_events k' d1 = entity_events k' d" "raw_events d1 = raw_events d"
    from row_lookup_Some [OF x(1)] x(2) same
    show "i \<in> en_id ` set (entities k d1) \<and> entity_events k d1 = entity_events k d \<and>
      raw_events d1 = raw_events d" by force
  qed
  let ?v = "event_row sc db_now vid i (re_id raw) e"
  have "event_fits ?v"
    using fits(2) payload_state_fits
    by (simp add: event_fits_def event_row_def canonical_state_def varchar_def)
  then obtain d2 where ins: "insert_event_or_nothing k ?v d1 = (Inr (), d2)"
    by (rule insert_event_succeeds [where k = k and d = d1])
       (use fresh(2) i ev1 raw1 raw in simp_all)
  have d2: "schema_ok d2" using keepsD [OF schema_insert_event d1, of k ?v] ins by simp
  obtain d3 where adv: "advance_entity k i (canonical_state e) (instant (ne_event_at e))
      (event_attributes sc e) now d2 = (Inr (), d3)"
    by (rule advance_entity_succeeds [where k = k and d = d2 and s = "canonical_state e"])
       (use kind_schema_entity_fits [OF d2] payload_state_fits in
         \<open>auto simp: canonical_state_def varchar_def\<close>)
  have "schema_ok d3" using keepsD [OF schema_advance_entity d2] adv by (metis snd_conv)
  from mark_processed_succeeds [OF this, of None] obtain d4
    where "update_raw (re_id raw) (mark_processed now None) d3 = (Inr (), d4)" by simp
  with up ins adv show ?thesis
    unfolding persist_normalized_classified [OF k]
    by (simp add: persist_classified_def utc k ref Let_def tx_bind_Inr ensure_utc_instant [OF utc]
        event_row_def)
qed

text \<open>And what stops it: an overflow, or a text too long for its column.\<close>

lemma persist_classified_needs:
  assumes run: "persist_normalized sc cfg now db_now eid vid raw e d = (Inr (), d')"
    and k: "payload_kind (ne_payload e) = Some k" and ref: "external_ref e = Some ref"
  shows "ensure_utc (ne_event_at e) \<noteq> None" and "varchar 128 ref"
    and "varchar_opt 512 (vendor_milestone e)"
proof -
  note pc = run [unfolded persist_normalized_classified [OF k]]
  show "ensure_utc (ne_event_at e) \<noteq> None"
    using pc by (cases "ensure_utc (ne_event_at e)") (simp_all add: persist_classified_def)
  show "varchar 128 ref"
    by (rule persist_classified_steps [OF pc k ref])
       (auto simp: upsert_entity_def split: if_splits)
  show "varchar_opt 512 (vendor_milestone e)"
    by (rule persist_classified_steps [OF pc k ref])
       (auto simp: insert_event_or_nothing_def event_fits_def event_row_def split: if_splits)
qed

lemma persist_unclassified_succeeds:
  assumes "schema_ok d" and "ne_payload e = UnclassifiedPayload p"
  shows "persist_normalized sc cfg now db_now eid vid raw e d =
    (Inr (), set_raw_events
       (row_update re_id (re_id raw)
          (mark_processed now (if worker_keep_unclassified_events cfg then None
                               else Some (dropped_note (unclassified_reason p))))
          (raw_events d)) d)"
  unfolding persist_normalized_unclassified [OF assms(2)]
  by (rule mark_processed_succeeds [OF assms(1)]) (simp add: varchar_def length_dropped_note)

subsection \<open>The raw event after a persist\<close>

lemma persist_raw_row:
  assumes run: "persist_normalized sc cfg now db_now eid vid raw e d = (Inr (), d')"
  obtains info where "varchar_opt 2000 info"
    "raw_events d' = row_update re_id (re_id raw) (mark_processed now info) (raw_events d)"
proof (cases "payload_kind (ne_payload e)")
  case None
  then obtain p where p: "ne_payload e = UnclassifiedPayload p" by (auto simp: payload_kind_None)
  let ?info = "if worker_keep_unclassified_events cfg then None
               else Some (dropped_note (unclassified_reason p))"
  have "raw_events d' = row_update re_id (re_id raw) (mark_processed now ?info) (raw_events d)"
    using run unfolding persist_normalized_unclassified [OF p] by (rule update_raw_effect(3))
  then show ?thesis by (rule that [rotated]) (simp add: varchar_def length_dropped_note)
next
  case (Some k)
  with payload_kind_external_ref obtain ref where ref: "external_ref e = Some ref"
    by (auto simp: external_ref_def)
  note pc = run [unfolded persist_normalized_classified [OF Some]]
  show ?thesis
  proof (rule persist_classified_steps [OF pc Some ref])
    fix i d1 d2 d3
    assume "upsert_entity k now (new_entity eid db_now (re_vendor_hint raw) ref (event_attributes sc e)) d
        = (Inr i, d1)"
      and "insert_event_or_nothing k (event_row sc db_now vid i (re_id raw) e) d1 = (Inr (), d2)"
      and "advance_entity k i (canonical_state e) (instant (ne_event_at e)) (event_attributes sc e) now d2
        = (Inr (), d3)"
      and up: "update_raw (re_id raw) (mark_processed now None) d3 = (Inr (), d')"
    then have "raw_events d3 = raw_events d"
      using upsert_entity_raw insert_event_raw advance_entity_raw by metis
    with update_raw_effect(3) [OF up] show ?thesis by (intro that [of None]) simp_all
  qed
qed

subsection \<open>Persisting the same event twice\<close>

lemma jump_to_latest_idem: "jump_to_latest x (jump_to_latest x p) = jump_to_latest x p"
  by (auto simp: jump_to_latest_def split: option.splits)

lemma persist_event_log:
  assumes run: "persist_normalized sc cfg now db_now eid vid raw e d = (Inr (), d')"
    and k: "payload_kind (ne_payload e) = Some k" and ref: "external_ref e = Some ref"
  obtains i where
    "entity_events k d' = (if re_id raw \<in> ev_raw_event_id ` set (entity_events k d)
       then entity_events k d else entity_events k d @ [event_row sc db_now vid i (re_id raw) e])"
    "\<And>k'. k' \<noteq> k \<Longrightarrow> entity_events k' d' = entity_events k' d"
proof (rule persist_classified_steps [OF run [unfolded persist_normalized_classified [OF k]] k ref])
  fix i d1 d2 d3
  assume up: "upsert_entity k now (new_entity eid db_now (re_vendor_hint raw) ref (event_attributes sc e)) d
      = (Inr i, d1)"
    and ins: "insert_event_or_nothing k (event_row sc db_now vid i (re_id raw) e) d1 = (Inr (), d2)"
    and adv: "advance_entity k i (canonical_state e) (instant (ne_event_at e)) (event_attributes sc e) now d2
      = (Inr (), d3)"
    and upd: "update_raw (re_id raw) (mark_processed now None) d3 = (Inr (), d')"
  have 1: "entity_events k' d1 = entity_events k' d" for k'
    using up by (auto simp: upsert_entity_def split: if_splits option.splits)
  have 3: "entity_events k' d3 = entity_events k' d2" for k'
    using adv by (auto simp: advance_entity_def split: if_splits)
  note 4 = update_raw_effect(2) [OF upd]
  show ?thesis
    by (rule that [of i]) (simp_all add: 4 3 1 insert_event_effect(3,4) [OF ins])
qed

lemma persist_twice:
  assumes ok: "projection_ok d"
    and run: "persist_normalized sc cfg now db_now eid vid raw e d = (Inr (), d1)"
    and again: "persist_normalized sc cfg now' db_now' eid' vid' raw e d1 = (Inr (), d2)"
    and k: "payload_kind (ne_payload e) = Some k" and ref: "external_ref e = Some ref"
  shows "entity_events k' d2 = entity_events k' d1" and "entity_view k' d2 n = entity_view k' d1 n"
proof -
  have logged: "re_id raw \<in> ev_raw_event_id ` set (entity_events k d1)"
    by (rule persist_event_log [OF run k ref]) (auto simp: image_iff)
  show "entity_events k' d2 = entity_events k' d1"
    by (rule persist_event_log [OF again k ref]) (cases "k' = k"; use logged in simp)
  have ok1: "projection_ok d1" by (rule projection_ok_persist [OF ok run k ref])
  show "entity_view k' d2 n = entity_view k' d1 n"
  proof (cases "k' = k")
    case True
    then show ?thesis
      unfolding True persist_view(1) [OF ok1 again k ref, of n] persist_view(1) [OF ok run k ref]
      by (simp add: jump_to_latest_idem)
  next
    case False
    then show ?thesis by (rule persist_view(2) [OF ok1 again k ref])
  qed
qed

subsection \<open>Ids after a persist\<close>

lemma persist_new_ids:
  assumes d: "schema_ok d" and run: "persist_normalized sc cfg now db_now eid vid raw e d = (Inr (), d')"
    and k: "payload_kind (ne_payload e) = Some k" and ref: "external_ref e = Some ref"
  shows "en_id ` set (entities k d') \<subseteq> insert eid (en_id ` set (entities k d))"
    and "ev_id ` set (entity_events k d') \<subseteq> insert vid (ev_id ` set (entity_events k d))"
    and "re_id ` set (raw_events d') = re_id ` set (raw_events d)"
proof -
  have d': "schema_ok d'" by (rule schema_after_persist [OF d run])
  show "en_id ` set (entities k d') \<subseteq> insert eid (en_id ` set (entities k d))"
  proof (rule persist_effect [OF d run k ref])
    fix x
    let ?n = "(re_vendor_hint raw, ref)"
    assume new: "row_lookup natural_key (entities k d') ?n =
        Some (advance (canonical_state e) (instant (ne_event_at e)) (event_attributes sc e) now x)"
      and x: "x = new_entity eid db_now (re_vendor_hint raw) ref (event_attributes sc e) \<and>
          row_lookup natural_key (entities k d) ?n = None \<or>
        (\<exists>old. row_lookup natural_key (entities k d) ?n = Some old \<and> x = old\<lparr>en_updated_at := now\<rparr>)"
      and same: "\<And>n. n \<noteq> ?n \<Longrightarrow>
        row_lookup natural_key (entities k d') n = row_lookup natural_key (entities k d) n"
    have id: "en_id x \<in> insert eid (en_id ` set (entities k d))"
      using x by (auto dest!: row_lookup_Some)
    show ?thesis
    proof (rule image_subsetI)
      fix y assume y: "y \<in> set (entities k d')"
      note look = lookup_natural_key [OF d' y]
      show "en_id y \<in> insert eid (en_id ` set (entities k d))"
      proof (cases "natural_key y = ?n")
        case True
        with look new have "y = advance (canonical_state e) (instant (ne_event_at e)) (event_attributes sc e) now x"
          by simp
        with id show ?thesis by simp
      next
        case False
        with look same have "row_lookup natural_key (entities k d) (natural_key y) = Some y" by simp
        from row_lookup_Some [OF this] have "y \<in> set (entities k d)" ..
        then show ?thesis by blast
      qed
    qed
  qed
  show "ev_id ` set (entity_events k d') \<subseteq> insert vid (ev_id ` set (entity_events k d))"
    by (rule persist_event_log [OF run k ref]) auto
  show "re_id ` set (raw_events d') = re_id ` set (raw_events d)"
  proof (rule persist_raw_row [OF run])
    fix info
    assume rows: "raw_events d' = row_update re_id (re_id raw) (mark_processed now info) (raw_events d)"
    have "map re_id (raw_events d') = map re_id (raw_events d)"
      unfolding rows by (rule map_key_row_update) simp
    from arg_cong [OF this, of set] show ?thesis by simp
  qed
qed

end
