(* ===== verification/Queue.thy ===== *)
theory Queue
  imports Outcome
begin

text \<open>
  The worker as the consumer of a queue. Each iteration that claims a row uses up some of the
  \<open>budget\<close> of the pending rows, so the passes that do work are bounded, and without faults the queue
  is empty after that many passes: every pending row is processed or has failed.
\<close>

subsection \<open>Effect of one iteration on raw events\<close>

lemma mark_failed_raw:
  "raw_events (snd (mark_failed fault i err m d)) = raw_events d \<or>
   raw_events (snd (mark_failed fault i err m d)) = row_update re_id i (fail_row err m) (raw_events d)"
proof -
  let ?body = "tx_bind (get_raw i) (\<lambda>row. case row of None \<Rightarrow> tx_return ()
      | Some r \<Rightarrow> update_raw i (fail_row err m))"
  have "raw_events (snd (?body d)) = raw_events d \<or>
      raw_events (snd (?body d)) = row_update re_id i (fail_row err m) (raw_events d)"
    using update_raw_cases [of i "fail_row err m" d]
    by (simp add: tx_simps get_raw_def split: option.split)
  with session_scope_atomic [of fault ?body d] show ?thesis
    unfolding mark_failed_def by (metis snd_conv)
qed

text \<open>What processing a claimed row may do to it.\<close>

datatype row_outcome = Untouched | Done timestamp "string option" | Failing string

fun apply_outcome :: "int \<Rightarrow> row_outcome \<Rightarrow> raw_event \<Rightarrow> raw_event" where
  "apply_outcome m Untouched r = r"
| "apply_outcome m (Done t info) r = mark_processed t info r"
| "apply_outcome m (Failing err) r = fail_row err m r"

lemma outcome_untouched [simp]: "row_update key i (apply_outcome m Untouched) rs = rs"
  by (induction rs) (auto simp: row_update_def)

lemma outcome_functions:
  "apply_outcome m (Done t info) = mark_processed t info" "apply_outcome m (Failing err) = fail_row err m"
  by (simp_all add: fun_eq_iff)

lemma mark_failed_outcome:
  "\<exists>x. raw_events (snd (mark_failed fault i err m d)) = row_update re_id i (apply_outcome m x) (raw_events d)"
  using mark_failed_raw [of fault i err m d]
proof
  assume "raw_events (snd (mark_failed fault i err m d)) = raw_events d"
  then show ?thesis by (intro exI [of _ Untouched]) (simp only: outcome_untouched)
next
  assume "raw_events (snd (mark_failed fault i err m d)) = row_update re_id i (fail_row err m) (raw_events d)"
  then show ?thesis by (intro exI [of _ "Failing err"]) (simp only: outcome_functions)
qed

lemma process_claimed_raw:
  "\<exists>x. raw_events (snd (process_claimed sc repr cfg env i res d)) =
         row_update re_id i (apply_outcome (worker_max_attempts cfg) x) (raw_events d)"
proof (cases res)
  case (Inl exc)
  then show ?thesis by (simp only: process_claimed_def sum.case mark_failed_outcome)
next
  case (Inr ev)
  let ?scope = "session_scope (pe_persist_fault env) (persist_loaded sc cfg env i ev)"
  obtain out d1 where run: "?scope d = (out, d1)" by fastforce
  show ?thesis
  proof (cases out)
    case (Inl e)
    let ?err = "''persist: '' @ repr e"
    from run Inl have "?scope d = (Inl e, d1)" by simp
    from session_scope_raises [OF this] have "process_claimed sc repr cfg env i res d =
        mark_failed (pe_mark_fault env) i ?err (worker_max_attempts cfg) d"
      using run Inl by (simp add: process_claimed_def \<open>res = Inr ev\<close> tx_try_apply del: append.simps)
    then show ?thesis by (simp only: mark_failed_outcome)
  next
    case (Inr u)
    with run have body: "persist_loaded sc cfg env i ev d = (Inr (), d1)"
      by (simp add: session_scope_returns)
    have eq: "process_claimed sc repr cfg env i res d = (Inr (), d1)"
      using run Inr by (simp add: process_claimed_def \<open>res = Inr ev\<close> tx_try_apply)
    show ?thesis
    proof (cases "row_lookup re_id (raw_events d) i")
      case None
      with body have "d1 = d" by (simp add: persist_loaded_def tx_simps get_raw_def)
      with eq show ?thesis by (intro exI [of _ Untouched]) simp
    next
      case (Some r)
      with body have run: "persist_normalized sc cfg (pe_now env) (pe_db_now env) (pe_entity_id env)
          (pe_event_id env) r ev d = (Inr (), d1)"
        by (simp add: persist_loaded_def tx_simps get_raw_def)
      show ?thesis
        by (rule persist_raw_row [OF run], rule exI [of _ "Done (pe_now env) info" for info])
           (simp add: eq outcome_functions row_lookup_Some [OF Some])
    qed
  qed
qed

lemma row_update_compose:
  "(\<And>r. key (f r) = key r) \<Longrightarrow>
     row_update key k g (row_update key k f rs) = row_update key k (\<lambda>r. g (f r)) rs"
  by (simp add: row_update_def)

lemma process_one_raw:
  assumes "schema_ok d" and "pe_claim_fault env = None"
    and "next_pending (pe_tie env) (pe_locked env) d = Some r"
  obtains x where "raw_events (snd (process_one sc repr cfg cl env d)) =
    row_update re_id (re_id r)
      (\<lambda>r. apply_outcome (worker_max_attempts cfg) x (mark_claimed (pe_claim_now env) r)) (raw_events d)"
proof -
  obtain x where "raw_events (snd (process_claimed sc repr cfg env (re_id r) (cl (re_payload r))
      (claimed_db (pe_claim_now env) r d))) =
    row_update re_id (re_id r) (apply_outcome (worker_max_attempts cfg) x)
      (raw_events (claimed_db (pe_claim_now env) r d))"
    using process_claimed_raw by blast
  with assms show ?thesis
    by (intro that [of x]) (simp add: process_one_result snd_bind_return row_update_compose)
qed

text \<open>An iteration that does not claim a row leaves the state alone.\<close>

lemma process_one_idle:
  assumes "schema_ok d"
    and "pe_claim_fault env \<noteq> None \<or> next_pending (pe_tie env) (pe_locked env) d = None"
  shows "snd (process_one sc repr cfg cl env d) = d"
    and "fst (process_one sc repr cfg cl env d) \<noteq> Inr True"
  using assms by (auto simp: process_one_result split: option.splits)

subsection \<open>The budget of the queue\<close>

definition weight :: "settings \<Rightarrow> raw_event \<Rightarrow> nat" where
  "weight cfg r =
     (if re_status r = Pending then nat (max 1 (worker_max_attempts cfg - re_attempts r)) else 0)"

definition budget :: "settings \<Rightarrow> db \<Rightarrow> nat" where
  "budget cfg d = sum_list (map (weight cfg) (raw_events d))"

lemma weight_outcome:
  assumes "re_status r = Pending"
  shows "weight cfg (apply_outcome (worker_max_attempts cfg) x (mark_claimed t r)) < weight cfg r"
  using assms by (cases x) (auto simp: weight_def)

lemma apply_outcome_id [simp]: "re_id (apply_outcome m x r) = re_id r"
  by (cases x) auto

lemma sum_row_update:
  "distinct (map key rs) \<Longrightarrow> r \<in> set rs \<Longrightarrow>
     sum_list (map w (row_update key (key r) g rs)) + w r = sum_list (map w rs) + (w (g r) :: nat)"
proof (induction rs)
  case (Cons q qs)
  show ?case
  proof (cases "q = r")
    case True
    with Cons.prems have "key r \<notin> key ` set qs" by auto
    then have "row_update key (key r) g qs = qs" by (rule row_update_absent)
    with True show ?thesis by (simp add: row_update_def)
  next
    case False
    with Cons.prems have "key q \<noteq> key r" by (auto simp: image_iff)
    with Cons False show ?thesis by (simp add: row_update_def)
  qed
qed simp

lemma process_one_budget:
  assumes d: "schema_ok d" and "pe_claim_fault env = None"
    and r: "next_pending (pe_tie env) (pe_locked env) d = Some r"
  shows "budget cfg (snd (process_one sc repr cfg cl env d)) < budget cfg d"
proof (rule process_one_raw [OF assms, of sc repr cfg cl])
  fix x
  let ?g = "\<lambda>r. apply_outcome (worker_max_attempts cfg) x (mark_claimed (pe_claim_now env) r)"
  assume "raw_events (snd (process_one sc repr cfg cl env d)) =
    row_update re_id (re_id r) ?g (raw_events d)"
  with sum_row_update [OF schema_raw_ids [OF d] next_pending_Some(1) [OF r], of "weight cfg" ?g]
    weight_outcome [OF next_pending_Some(2) [OF r], of cfg x "pe_claim_now env"]
  show ?thesis by (simp add: budget_def)
qed

subsection \<open>Passes of the loop between two runs of the reaper\<close>

definition no_reap :: "settings \<Rightarrow> rat \<Rightarrow> tick \<Rightarrow> bool" where
  "no_reap cfg last_reap tk \<longleftrightarrow> tk_time tk - last_reap < of_int (worker_reaper_interval_s cfg)"

lemma loop_pass_no_reap:
  assumes "no_reap cfg last_reap tk"
  shows "loop_pass sc repr cfg tk (last_reap, d) =
    (fst (process_one sc repr cfg (tk_classifier tk) (tk_env tk) d) = Inr True,
     (last_reap, snd (process_one sc repr cfg (tk_classifier tk) (tk_env tk) d)))"
  using assms
  by (cases "process_one sc repr cfg (tk_classifier tk) (tk_env tk) d";
      cases "fst (process_one sc repr cfg (tk_classifier tk) (tk_env tk) d)")
     (auto simp: loop_pass_def no_reap_def not_le)

lemma run_loop_Cons:
  assumes "no_reap cfg last_reap tk" and "\<not> tk_shutdown tk"
  shows "run_loop sc repr cfg (tk # tks) (last_reap, d) =
    (let d1 = snd (process_one sc repr cfg (tk_classifier tk) (tk_env tk) d);
         rest = run_loop sc repr cfg tks (last_reap, d1)
     in ((fst (process_one sc repr cfg (tk_classifier tk) (tk_env tk) d) = Inr True) # fst rest, snd rest))"
  using assms by (simp add: loop_pass_no_reap Let_def split: prod.split)

lemma schema_process_one_snd: "schema_ok d \<Longrightarrow> schema_ok (snd (process_one sc repr cfg cl env d))"
  by (rule keepsD [OF schema_process_one])

lemma process_one_work:
  assumes "schema_ok d"
  shows "(if fst (process_one sc repr cfg cl env d) = Inr True then 1 else 0) +
           budget cfg (snd (process_one sc repr cfg cl env d)) \<le> budget cfg d"
proof (cases "pe_claim_fault env \<noteq> None \<or> next_pending (pe_tie env) (pe_locked env) d = None")
  case True
  from process_one_idle [OF assms this] show ?thesis by simp
next
  case False
  then obtain r where "pe_claim_fault env = None" "next_pending (pe_tie env) (pe_locked env) d = Some r"
    by auto
  from process_one_budget [OF assms this, of cfg sc repr cl] show ?thesis by (simp add: Suc_leI)
qed

text \<open>Passes that do work are at most as many as the budget, whatever faults occur.\<close>

lemma run_loop_work:
  assumes "schema_ok d" and "\<forall>tk \<in> set tks. no_reap cfg last_reap tk"
  shows "count_list (fst (run_loop sc repr cfg tks (last_reap, d))) True +
           budget cfg (snd (snd (run_loop sc repr cfg tks (last_reap, d)))) \<le> budget cfg d"
  using assms
proof (induction tks arbitrary: d)
  case (Cons tk tks)
  show ?case
  proof (cases "tk_shutdown tk")
    case False
    let ?p = "process_one sc repr cfg (tk_classifier tk) (tk_env tk) d"
    have "count_list (fst (run_loop sc repr cfg tks (last_reap, snd ?p))) True +
        budget cfg (snd (snd (run_loop sc repr cfg tks (last_reap, snd ?p)))) \<le> budget cfg (snd ?p)"
      using Cons.prems by (intro Cons.IH schema_process_one_snd) auto
    moreover have "run_loop sc repr cfg (tk # tks) (last_reap, d) =
        ((fst ?p = Inr True) # fst (run_loop sc repr cfg tks (last_reap, snd ?p)),
         snd (run_loop sc repr cfg tks (last_reap, snd ?p)))"
      using Cons.prems(2) False by (subst run_loop_Cons) (simp_all add: Let_def)
    moreover note process_one_work [OF Cons.prems(1), of sc repr cfg "tk_classifier tk" "tk_env tk"]
    ultimately show ?thesis by (simp del: run_loop.simps split: if_splits)
  qed simp
qed simp

subsection \<open>Iterations without faults\<close>

definition fault_free :: "process_env \<Rightarrow> bool" where
  "fault_free env \<longleftrightarrow> pe_claim_fault env = None \<and> pe_persist_fault env = None \<and>
     pe_mark_fault env = None \<and> pe_locked env = []"

lemma fits_fail_row:
  "raw_fits r \<Longrightarrow> 0 \<le> re_attempts r \<Longrightarrow> re_attempts r + 1 < 2 ^ 31 \<Longrightarrow> raw_fits (fail_row err m r)"
  by (simp add: raw_fits_def int4_def, simp add: fail_row_def)

lemma mark_failed_applies:
  assumes d: "schema_ok d" and r: "r \<in> set (raw_events d)" "re_id r = i"
    and att: "0 \<le> re_attempts r" "re_attempts r + 1 < 2 ^ 31"
  shows "mark_failed None i err m d =
    (Inr (), set_raw_events (row_update re_id i (fail_row err m) (raw_events d)) d)"
proof -
  have "update_raw i (fail_row err m) d =
      (Inr (), set_raw_events (row_update re_id i (fail_row err m) (raw_events d)) d)"
  proof (rule update_raw_fits)
    fix q assume "q \<in> set (raw_events d)" "re_id q = i"
    with schema_same_id [OF d r(1)] r(2) have "q = r" by blast
    with fits_fail_row [OF schema_raw_fits [OF d r(1)] att] show "raw_fits (fail_row err m q)" by simp
  qed
  with lookup_raw [OF d r(1)] r(2) show ?thesis
    by (simp add: mark_failed_def session_scope_None tx_simps get_raw_def)
qed

text \<open>Without a fault in \<open>mark_failed\<close> a claimed row ends processed or failing, never stuck.\<close>

lemma process_claimed_decides:
  assumes d: "schema_ok d" and r: "r \<in> set (raw_events d)" "re_id r = i"
    and att: "0 \<le> re_attempts r" "re_attempts r + 1 < 2 ^ 31" and env: "pe_mark_fault env = None"
  obtains x where "x \<noteq> Untouched"
    "\<And>exc. res = Inl exc \<Longrightarrow> x = Failing (''classify: '' @ repr exc)"
    "fst (process_claimed sc repr cfg env i res d) = Inr ()"
    "raw_events (snd (process_claimed sc repr cfg env i res d)) =
       row_update re_id i (apply_outcome (worker_max_attempts cfg) x) (raw_events d)"
proof (cases res)
  case (Inl exc)
  with mark_failed_applies [OF d r att] env show ?thesis
    by (intro that [of "Failing (''classify: '' @ repr exc)"])
       (simp_all add: process_claimed_def outcome_functions del: append.simps)
next
  case (Inr ev)
  let ?scope = "session_scope (pe_persist_fault env) (persist_loaded sc cfg env i ev)"
  obtain out d1 where run: "?scope d = (out, d1)" by fastforce
  show ?thesis
  proof (cases out)
    case (Inl e)
    from run Inl have "?scope d = (Inl e, d1)" by simp
    from session_scope_raises [OF this] have "d1 = d" .
    with run Inl mark_failed_applies [OF d r att] env show ?thesis
      by (intro that [of "Failing (''persist: '' @ repr e)"])
         (simp_all add: process_claimed_def \<open>res = Inr ev\<close> tx_try_apply outcome_functions
           del: append.simps)
  next
    case (Inr u)
    with run have body: "persist_loaded sc cfg env i ev d = (Inr (), d1)"
      by (simp add: session_scope_returns)
    have eq: "process_claimed sc repr cfg env i res d = (Inr (), d1)"
      using run Inr by (simp add: process_claimed_def \<open>res = Inr ev\<close> tx_try_apply)
    from body lookup_raw [OF d r(1)] r(2)
    have run: "persist_normalized sc cfg (pe_now env) (pe_db_now env) (pe_entity_id env)
        (pe_event_id env) r ev d = (Inr (), d1)"
      by (simp add: persist_loaded_def tx_simps get_raw_def)
    show ?thesis
    proof (rule persist_raw_row [OF run])
      fix info
      assume "raw_events d1 = row_update re_id (re_id r) (mark_processed (pe_now env) info) (raw_events d)"
      with eq show ?thesis
        by (intro that [of "Done (pe_now env) info"]) (auto simp: outcome_functions r(2) \<open>res = Inr ev\<close>)
    qed
  qed
qed

lemma process_one_decides:
  assumes d: "schema_ok d" and env: "fault_free env"
    and r: "next_pending (pe_tie env) [] d = Some r"
    and att: "0 \<le> re_attempts r" "re_attempts r + 1 < 2 ^ 31"
  obtains x where "x \<noteq> Untouched"
    "\<And>exc. cl (re_payload r) = Inl exc \<Longrightarrow> x = Failing (''classify: '' @ repr exc)"
    "fst (process_one sc repr cfg cl env d) = Inr True"
    "raw_events (snd (process_one sc repr cfg cl env d)) =
      row_update re_id (re_id r)
        (\<lambda>r. apply_outcome (worker_max_attempts cfg) x (mark_claimed (pe_claim_now env) r)) (raw_events d)"
proof -
  note rin = next_pending_Some(1) [OF r]
  let ?d = "claimed_db (pe_claim_now env) r d" and ?r = "mark_claimed (pe_claim_now env) r"
  have upd: "update_raw (re_id r) (mark_claimed (pe_claim_now env)) d = (Inr (), ?d)"
    by (rule update_raw_fits) (simp add: schema_raw_fits [OF d])
  have schema: "schema_ok ?d"
    using keepsD [OF schema_update_raw [OF row_changes_identity(1)] d, of "re_id r" "pe_claim_now env"] upd
    by simp
  have rin': "?r \<in> set (raw_events ?d)" using rin by (force simp: row_update_def)
  have eq: "process_one sc repr cfg cl env d =
      tx_bind (process_claimed sc repr cfg env (re_id r) (cl (re_payload r))) (\<lambda>_. tx_return True) ?d"
    using env r by (simp add: process_one_result [OF d] fault_free_def)
  have markf: "pe_mark_fault env = None" using env by (simp add: fault_free_def)
  show ?thesis
  proof (rule process_claimed_decides [OF schema rin' mark_claimed_simps(1) _ _ markf,
        where res = "cl (re_payload r)" and sc = sc and repr = repr and cfg = cfg])
    fix x
    assume "x \<noteq> Untouched"
      and "\<And>exc. cl (re_payload r) = Inl exc \<Longrightarrow> x = Failing (''classify: '' @ repr exc)"
      and res: "fst (process_claimed sc repr cfg env (re_id r) (cl (re_payload r)) ?d) = Inr ()"
      and "raw_events (snd (process_claimed sc repr cfg env (re_id r) (cl (re_payload r)) ?d)) =
        row_update re_id (re_id r) (apply_outcome (worker_max_attempts cfg) x) (raw_events ?d)"
    moreover from res have "fst (process_one sc repr cfg cl env d) = Inr True"
      by (cases "process_claimed sc repr cfg env (re_id r) (cl (re_payload r)) ?d")
         (simp add: eq tx_bind_apply)
    ultimately show ?thesis
      by (intro that [of x]) (simp_all add: eq snd_bind_return row_update_compose)
  qed (use att in simp_all)
qed

subsection \<open>The queue drains\<close>

text \<open>The attempt counters of pending rows can still be incremented.\<close>

definition has_room :: "db \<Rightarrow> bool" where
  "has_room d \<longleftrightarrow> (\<forall>r \<in> set (raw_events d). re_status r = Pending \<longrightarrow>
     0 \<le> re_attempts r \<and> re_attempts r + 1 < 2 ^ 31)"

text \<open>Pending rows stay pending or are decided; the other rows do not change.\<close>

definition settled_row :: "raw_event \<Rightarrow> raw_event \<Rightarrow> bool" where
  "settled_row r r' \<longleftrightarrow> re_id r' = re_id r \<and>
     (if re_status r = Pending then re_status r' \<in> {Pending, Processed, Failed} else r' = r)"

definition settles :: "db \<Rightarrow> db \<Rightarrow> bool" where
  "settles d d' \<longleftrightarrow> list_all2 settled_row (raw_events d) (raw_events d')"

lemma settled_row_refl: "settled_row r r"
  by (simp add: settled_row_def)

lemma settled_row_trans: "settled_row a b \<Longrightarrow> settled_row b c \<Longrightarrow> settled_row a c"
  by (auto simp: settled_row_def split: if_splits)

lemma settles_refl: "settles d d"
  by (simp add: settles_def list_all2_refl settled_row_refl)

lemma settles_trans: "settles a b \<Longrightarrow> settles b c \<Longrightarrow> settles a c"
  unfolding settles_def by (rule list_all2_trans [OF settled_row_trans])

definition quiet_pass :: "settings \<Rightarrow> rat \<Rightarrow> tick \<Rightarrow> bool" where
  "quiet_pass cfg last_reap tk \<longleftrightarrow>
     \<not> tk_shutdown tk \<and> no_reap cfg last_reap tk \<and> fault_free (tk_env tk)"

lemma process_one_settles:
  assumes d: "schema_ok d" and env: "fault_free env" and room: "has_room d"
    and m: "worker_max_attempts cfg < 2 ^ 31"
  shows "settles d (snd (process_one sc repr cfg cl env d))"
    and "has_room (snd (process_one sc repr cfg cl env d))"
proof -
  have "settles d (snd (process_one sc repr cfg cl env d)) \<and>
        has_room (snd (process_one sc repr cfg cl env d))"
  proof (cases "next_pending (pe_tie env) [] d")
    case None
    then have "next_pending (pe_tie env) (pe_locked env) d = None"
      using env by (simp add: fault_free_def)
    with process_one_idle(1) [OF d] room show ?thesis by (simp add: settles_refl)
  next
    case (Some r)
    note r = next_pending_Some(1,2) [OF Some]
    with room have att: "0 \<le> re_attempts r" "re_attempts r + 1 < 2 ^ 31"
      by (auto simp: has_room_def)
    show ?thesis
    proof (rule process_one_decides [OF d env Some att, of cl repr sc cfg])
      fix x
      let ?g = "\<lambda>r. apply_outcome (worker_max_attempts cfg) x (mark_claimed (pe_claim_now env) r)"
      assume x: "x \<noteq> Untouched"
        and upd: "raw_events (snd (process_one sc repr cfg cl env d)) =
          row_update re_id (re_id r) ?g (raw_events d)"
      have rows: "q = r" if "q \<in> set (raw_events d)" "re_id q = re_id r" for q
        using schema_same_id [OF d r(1)] that by blast
      have gr: "settled_row r (?g r)" using x r(2) by (cases x) (auto simp: settled_row_def)
      have "settled_row q (if re_id q = re_id r then ?g q else q)" if "q \<in> set (raw_events d)" for q
        using rows [OF that] gr settled_row_refl by auto
      then have "settles d (snd (process_one sc repr cfg cl env d))"
        unfolding settles_def upd row_update_def by (simp add: list_all2_map2 list.rel_refl_strong)
      moreover have "re_status (?g r) = Pending \<longrightarrow>
          0 \<le> re_attempts (?g r) \<and> re_attempts (?g r) + 1 < 2 ^ 31"
        using x att m by (cases x) auto
      then have "has_room (snd (process_one sc repr cfg cl env d))"
        using room rows unfolding has_room_def upd by (fastforce dest!: in_row_update)
      ultimately show ?thesis ..
    qed
  qed
  then show "settles d (snd (process_one sc repr cfg cl env d))"
    and "has_room (snd (process_one sc repr cfg cl env d))" by simp_all
qed

lemma budget_zero: "budget cfg d = 0 \<longleftrightarrow> (\<forall>r \<in> set (raw_events d). re_status r \<noteq> Pending)"
proof -
  have "weight cfg r = 0 \<longleftrightarrow> re_status r \<noteq> Pending" for r by (auto simp: weight_def)
  then show ?thesis by (simp add: budget_def)
qed

lemma process_one_budget_quiet:
  assumes d: "schema_ok d" and env: "fault_free env" and "budget cfg d \<le> Suc n"
  shows "budget cfg (snd (process_one sc repr cfg cl env d)) \<le> n"
proof (cases "next_pending (pe_tie env) (pe_locked env) d")
  case None
  then have "budget cfg d = 0"
    unfolding next_pending_None budget_zero using env by (auto simp: fault_free_def claimable_def)
  with process_one_idle(1) [OF d] None show ?thesis by simp
next
  case (Some r)
  from process_one_budget [OF d _ Some, of cfg sc repr cl] env assms(3) show ?thesis
    by (simp add: fault_free_def)
qed

lemma quiet_loop_drains:
  assumes "schema_ok d" and "has_room d" and "worker_max_attempts cfg < 2 ^ 31"
    and "\<forall>tk \<in> set tks. quiet_pass cfg last_reap tk" and "budget cfg d \<le> length tks"
  shows "settles d (snd (snd (run_loop sc repr cfg tks (last_reap, d)))) \<and>
         budget cfg (snd (snd (run_loop sc repr cfg tks (last_reap, d)))) = 0"
  using assms
proof (induction tks arbitrary: d)
  case Nil
  then show ?case by (simp add: settles_refl)
next
  case (Cons tk tks)
  let ?p = "process_one sc repr cfg (tk_classifier tk) (tk_env tk) d"
  have tk: "no_reap cfg last_reap tk" "\<not> tk_shutdown tk" "fault_free (tk_env tk)"
    using Cons.prems(4) by (simp_all add: quiet_pass_def)
  note settle = process_one_settles [OF Cons.prems(1) tk(3) Cons.prems(2,3), of sc repr "tk_classifier tk"]
  have "settles (snd ?p) (snd (snd (run_loop sc repr cfg tks (last_reap, snd ?p)))) \<and>
        budget cfg (snd (snd (run_loop sc repr cfg tks (last_reap, snd ?p)))) = 0"
    using Cons.prems settle(2)
    by (intro Cons.IH schema_process_one_snd process_one_budget_quiet [OF _ tk(3)]) auto
  with settles_trans [OF settle(1)] show ?case
    unfolding run_loop_Cons [OF tk(1,2)] Let_def by simp
qed

subsection \<open>A payload the classifier cannot handle\<close>

text \<open>
  While it fails, its row counts the attempts; it is failed once they reach \<open>max_attempts\<close>.
\<close>

definition poison_state :: "settings \<Rightarrow> int \<Rightarrow> raw_event \<Rightarrow> bool" where
  "poison_state cfg a r \<longleftrightarrow>
     (re_status r = Pending \<and> a \<le> re_attempts r \<and>
        (re_attempts r = a \<or> re_attempts r < worker_max_attempts cfg)) \<or>
     (re_status r = Failed \<and> re_attempts r = max (a + 1) (worker_max_attempts cfg))"

lemma poison_step:
  assumes "poison_state cfg a r" and "re_status r = Pending"
  shows "poison_state cfg a (fail_row err (worker_max_attempts cfg) (mark_claimed t r))"
  using assms by (auto simp: poison_state_def)

lemma process_one_poison:
  assumes d: "schema_ok d" and env: "fault_free env" and room: "has_room d"
    and r: "r \<in> set (raw_events d)" "poison_state cfg a r"
    and err: "cl (re_payload r) = Inl exc"
    and last: "re_status r = Failed \<longrightarrow> re_last_error r = Some (py_prefix 2000 (''classify: '' @ repr exc))"
  shows "\<exists>r' \<in> set (raw_events (snd (process_one sc repr cfg cl env d))).
    re_id r' = re_id r \<and> re_payload r' = re_payload r \<and> poison_state cfg a r' \<and>
    (re_status r' = Failed \<longrightarrow> re_last_error r' = Some (py_prefix 2000 (''classify: '' @ repr exc)))"
proof (cases "next_pending (pe_tie env) [] d")
  case None
  then have "next_pending (pe_tie env) (pe_locked env) d = None" using env by (simp add: fault_free_def)
  with process_one_idle(1) [OF d] r last show ?thesis by (intro bexI [of _ r]) simp_all
next
  case (Some q)
  note q = next_pending_Some(1,2) [OF Some]
  with room have att: "0 \<le> re_attempts q" "re_attempts q + 1 < 2 ^ 31" by (auto simp: has_room_def)
  show ?thesis
  proof (rule process_one_decides [OF d env Some att, of cl repr sc cfg])
    fix x
    let ?g = "\<lambda>r. apply_outcome (worker_max_attempts cfg) x (mark_claimed (pe_claim_now env) r)"
    assume x: "\<And>exc. cl (re_payload q) = Inl exc \<Longrightarrow> x = Failing (''classify: '' @ repr exc)"
      and upd: "raw_events (snd (process_one sc repr cfg cl env d)) =
        row_update re_id (re_id q) ?g (raw_events d)"
    show ?thesis
    proof (cases "re_id r = re_id q")
      case True
      then have "r = q" by (rule schema_same_id [OF d q(1) r(1)])
      with x err have "x = Failing (''classify: '' @ repr exc)" by blast
      with \<open>r = q\<close> q(2) r show ?thesis
        unfolding upd
        by (intro bexI [of _ "?g r"]) (auto simp: poison_step row_update_def del: append.simps)
    next
      case False
      with r last show ?thesis unfolding upd by (intro bexI [of _ r]) (auto simp: row_update_def)
    qed
  qed
qed

lemma poison_run:
  assumes "schema_ok d" and "has_room d" and "worker_max_attempts cfg < 2 ^ 31"
    and "\<forall>tk \<in> set tks. quiet_pass cfg last_reap tk \<and> tk_classifier tk p = Inl exc"
    and "r \<in> set (raw_events d)" and "re_payload r = p" and "poison_state cfg a r"
    and "re_status r = Failed \<longrightarrow> re_last_error r = Some (py_prefix 2000 (''classify: '' @ repr exc))"
  shows "\<exists>r' \<in> set (raw_events (snd (snd (run_loop sc repr cfg tks (last_reap, d))))).
    re_id r' = re_id r \<and> poison_state cfg a r' \<and>
    (re_status r' = Failed \<longrightarrow> re_last_error r' = Some (py_prefix 2000 (''classify: '' @ repr exc)))"
  using assms
proof (induction tks arbitrary: d r)
  case Nil
  then show ?case by auto
next
  case (Cons tk tks)
  let ?p = "process_one sc repr cfg (tk_classifier tk) (tk_env tk) d"
  have tk: "no_reap cfg last_reap tk" "\<not> tk_shutdown tk" "fault_free (tk_env tk)"
    "tk_classifier tk (re_payload r) = Inl exc"
    using Cons.prems(4,6) by (simp_all add: quiet_pass_def)
  note room = process_one_settles(2) [OF Cons.prems(1) tk(3) Cons.prems(2,3), of sc repr "tk_classifier tk"]
  from process_one_poison [where repr = repr and sc = sc and cl = "tk_classifier tk", OF Cons.prems(1) tk(3) Cons.prems(2,5,7) tk(4) Cons.prems(8)]
  obtain r' where r': "r' \<in> set (raw_events (snd ?p))" "re_id r' = re_id r" "re_payload r' = re_payload r"
    "poison_state cfg a r'"
    "re_status r' = Failed \<longrightarrow> re_last_error r' = Some (py_prefix 2000 (''classify: '' @ repr exc))"
    by blast
  have "\<exists>q \<in> set (raw_events (snd (snd (run_loop sc repr cfg tks (last_reap, snd ?p))))).
    re_id q = re_id r' \<and> poison_state cfg a q \<and>
    (re_status q = Failed \<longrightarrow> re_last_error q = Some (py_prefix 2000 (''classify: '' @ repr exc)))"
    using Cons.prems r' room by (intro Cons.IH schema_process_one_snd) auto
  then show ?case unfolding run_loop_Cons [OF tk(1,2)] Let_def using r'(2) by simp
qed

end
