(* ===== verification/Dispatch.thy ===== *)
theory Dispatch
  imports Lifecycle
begin

text \<open>
  How claims share the queue out: successive claims take different rows, oldest first, until none is
  left; a claim that skips the rows another transaction holds locked takes what it would take after
  that transaction committed. The second part is about the reaper, which puts back the rows a
  crashed worker left behind.
\<close>

subsection \<open>Successive claims\<close>

definition pending_rows :: "uuid list \<Rightarrow> db \<Rightarrow> raw_event list" where
  "pending_rows locked d = filter (claimable locked) (raw_events d)"

lemma pending_rows_claimed:
  "pending_rows locked (claimed_db t r d) = filter (\<lambda>q. re_id q \<noteq> re_id r) (pending_rows locked d)"
proof -
  have "filter (claimable locked) (row_update re_id i (mark_claimed t) rs) =
      filter (\<lambda>q. re_id q \<noteq> i) (filter (claimable locked) rs)" for i rs
    by (induction rs) (auto simp: row_update_def claimable_def)
  then show ?thesis by (simp add: pending_rows_def)
qed

lemma pending_rows_locked:
  "pending_rows (i # locked) d = filter (\<lambda>q. re_id q \<noteq> i) (pending_rows locked d)"
  unfolding pending_rows_def filter_filter by (rule filter_cong) (auto simp: claimable_def)

lemma next_pending_rows:
  "next_pending tie locked d =
     (case sort_key re_received_at (sort_key (\<lambda>r. tie (re_id r)) (pending_rows locked d)) of
        [] \<Rightarrow> None | r # _ \<Rightarrow> Some r)"
  by (simp add: next_pending_def pending_rows_def)

text \<open>Skipping a locked row is the same as waiting until the claim of that row has committed.\<close>

lemma skip_locked_serial:
  "next_pending tie (re_id a # locked) d = next_pending tie locked (claimed_db t a d)"
  by (simp add: next_pending_rows pending_rows_locked pending_rows_claimed)

text \<open>A series of claims, by any number of workers, one transaction after the other.\<close>

fun claim_series :: "(uuid \<Rightarrow> nat) \<Rightarrow> int \<Rightarrow> timestamp list \<Rightarrow> db \<Rightarrow> raw_event list \<times> db" where
  "claim_series tie m [] d = ([], d)"
| "claim_series tie m (t # ts) d =
     (case claim_one tie [] t m d of
        (Inr (Some r), d1) \<Rightarrow> (let (rs, d2) = claim_series tie m ts d1 in (r # rs, d2))
      | (Inr None, d1) \<Rightarrow> ([], d1)
      | (Inl _, d1) \<Rightarrow> ([], d1))"

lemma claim_series_Cons:
  assumes "schema_ok d"
  shows "claim_series tie m (t # ts) d =
    (case next_pending tie [] d of None \<Rightarrow> ([], d)
     | Some r \<Rightarrow> (mark_claimed t r # fst (claim_series tie m ts (claimed_db t r d)),
                  snd (claim_series tie m ts (claimed_db t r d))))"
  by (simp add: claim_one_result [OF assms] split: option.split prod.split)

lemma schema_claimed_db:
  assumes "schema_ok d" shows "schema_ok (claimed_db t r d)"
proof -
  have "update_raw (re_id r) (mark_claimed t) d = (Inr (), claimed_db t r d)"
    by (rule update_raw_fits) (simp add: schema_raw_fits [OF assms])
  with keepsD [OF schema_update_raw [OF row_changes_identity(1)] assms, of "re_id r" t]
  show ?thesis by simp
qed

lemma mark_claimed_received [simp]: "re_received_at (mark_claimed t r) = re_received_at r"
  by (simp add: mark_claimed_def)

lemma pending_ids_claimed:
  assumes d: "schema_ok d" and r: "r \<in> set (pending_rows [] d)"
  shows "re_id ` set (pending_rows [] (claimed_db t r d)) = re_id ` set (pending_rows [] d) - {re_id r}"
    and "Suc (length (pending_rows [] (claimed_db t r d))) = length (pending_rows [] d)"
proof -
  show "re_id ` set (pending_rows [] (claimed_db t r d)) = re_id ` set (pending_rows [] d) - {re_id r}"
    unfolding pending_rows_claimed by auto
  have "distinct (map re_id (pending_rows [] d))"
    using schema_raw_ids [OF d] by (simp add: pending_rows_def distinct_map_filter)
  from filter_key_unique [OF this r]
  have "length (filter (\<lambda>q. re_id q = re_id r) (pending_rows [] d)) = 1" by simp
  with sum_length_filter_compl [of "\<lambda>q. re_id q = re_id r" "pending_rows [] d"]
  show "Suc (length (pending_rows [] (claimed_db t r d))) = length (pending_rows [] d)"
    unfolding pending_rows_claimed by simp
qed

lemma next_pending_in: "next_pending tie [] d = Some r \<Longrightarrow> r \<in> set (pending_rows [] d)"
  using next_pending_Some [of tie "[]" d r] by (simp add: pending_rows_def claimable_def)

lemma next_pending_first:
  "next_pending tie [] d = Some r \<Longrightarrow> q \<in> set (pending_rows [] d) \<Longrightarrow> re_received_at r \<le> re_received_at q"
  using next_pending_Some(4) [of tie "[]" d r q] by (simp add: pending_rows_def)

lemma claim_series_in_order:
  assumes "schema_ok d"
  shows "distinct (map re_id (fst (claim_series tie m ts d))) \<and>
    sorted (map re_received_at (fst (claim_series tie m ts d))) \<and>
    (\<forall>r \<in> set (fst (claim_series tie m ts d)). re_status r = Processing \<and>
       (\<exists>q \<in> set (pending_rows [] d). re_id r = re_id q \<and> re_received_at r = re_received_at q)) \<and>
    (length (pending_rows [] d) \<le> length ts \<longrightarrow>
       re_id ` set (fst (claim_series tie m ts d)) = re_id ` set (pending_rows [] d))"
  using assms
proof (induction ts arbitrary: d)
  case (Cons t ts)
  show ?case
  proof (cases "next_pending tie [] d")
    case None
    then have "pending_rows [] d = []"
      unfolding next_pending_None pending_rows_def by (simp add: filter_empty_conv)
    with None show ?thesis by (simp add: claim_series_Cons [OF Cons.prems] del: claim_series.simps)
  next
    case (Some r)
    note r = next_pending_in [OF Some]
    let ?d = "claimed_db t r d"
    note ids = pending_ids_claimed [OF Cons.prems r]
    have sub: "set (pending_rows [] ?d) \<subseteq> set (pending_rows [] d)"
      unfolding pending_rows_claimed by auto
    have IH: "distinct (map re_id (fst (claim_series tie m ts ?d)))"
      "sorted (map re_received_at (fst (claim_series tie m ts ?d)))"
      "\<And>x. x \<in> set (fst (claim_series tie m ts ?d)) \<Longrightarrow> re_status x = Processing \<and>
        (\<exists>q \<in> set (pending_rows [] ?d). re_id x = re_id q \<and> re_received_at x = re_received_at q)"
      "length (pending_rows [] ?d) \<le> length ts \<Longrightarrow>
        re_id ` set (fst (claim_series tie m ts ?d)) = re_id ` set (pending_rows [] ?d)"
      using Cons.IH [OF schema_claimed_db [OF Cons.prems]] by blast+
    have eq: "fst (claim_series tie m (t # ts) d) = mark_claimed t r # fst (claim_series tie m ts ?d)"
      by (simp add: claim_series_Cons [OF Cons.prems] Some del: claim_series.simps)
    have new: "re_id r \<notin> re_id ` set (fst (claim_series tie m ts ?d))"
      using IH(3) ids(1) by fastforce
    have least: "re_received_at r \<le> re_received_at x" if "x \<in> set (fst (claim_series tie m ts ?d))" for x
      using IH(3) [OF that] sub next_pending_first [OF Some] by auto
    show ?thesis
      unfolding eq
    proof (intro conjI ballI impI)
      show "distinct (map re_id (mark_claimed t r # fst (claim_series tie m ts ?d)))"
        using new IH(1) by simp
      show "sorted (map re_received_at (mark_claimed t r # fst (claim_series tie m ts ?d)))"
        using IH(2) least by simp
    next
      fix x assume "x \<in> set (mark_claimed t r # fst (claim_series tie m ts ?d))"
      with IH(3) [of x] sub r show "re_status x = Processing"
        and "\<exists>q \<in> set (pending_rows [] d). re_id x = re_id q \<and> re_received_at x = re_received_at q"
        by auto
    next
      assume "length (pending_rows [] d) \<le> length (t # ts)"
      with ids(2) [of t] have "length (pending_rows [] ?d) \<le> length ts" by simp
      from IH(4) [OF this] ids(1) [of t] r show "re_id ` set (mark_claimed t r # fst (claim_series tie m ts ?d)) =
          re_id ` set (pending_rows [] d)" by auto
    qed
  qed
qed simp

subsection \<open>The reaper\<close>

lemma reap_stale_result:
  assumes "minutes_before (worker_stale_lock_minutes cfg) now = Some th"
  shows "reap_stale None cfg now d =
    (Inr (length (filter (is_stale th) (raw_events d))),
     set_raw_events (map (\<lambda>r. if is_stale th r then release_row r else r) (raw_events d)) d)"
  using assms by (simp add: reap_stale_def session_scope_None release_stale_def)

lemma is_stale_release [simp]: "\<not> is_stale th (release_row r)"
  by (simp add: is_stale_def)

lemma reap_again:
  "filter (is_stale th) (map (\<lambda>r. if is_stale th r then release_row r else r) rs) = []"
  by (induction rs) auto

text \<open>With a later clock, the reaper finds at least the rows it found before.\<close>

lemma is_stale_mono: "th \<le> th' \<Longrightarrow> is_stale th r \<Longrightarrow> is_stale th' r"
  by (auto simp: is_stale_def split: option.splits)

end
