(* ===== verification/Operator.thy ===== *)
theory Operator
  imports Outcome
begin

text \<open>
  The operator's retry on every branch: an unknown id, a duplicate or a processed row is refused and
  nothing changes; otherwise the attempt is counted and the row ends processed, or pending again with
  the error recorded and the exception re-raised. A commit can fail in each of the phases; when it is the
  one that records the error, the row is left in processing.
\<close>

subsection \<open>Refusals\<close>

lemma acquire_missing:
  "row_lookup re_id (raw_events d) i = None \<Longrightarrow>
     retry_acquire sh i t d = (Inl (RetryNotFoundError i), d)"
  by (simp add: retry_acquire_def tx_simps get_raw_def)

lemma acquire_refused:
  assumes "row_lookup re_id (raw_events d) i = Some r"
  shows "re_status r = Duplicate \<Longrightarrow> retry_acquire sh i t d =
           (Inl (RetryRefusedError ''duplicate''
             (''row is a duplicate of '' @ sh (re_duplicate_of_id r) @
              ''; retry the parent instead'')), d)"
    and "re_status r = Processed \<Longrightarrow> retry_acquire sh i t d =
           (Inl (RetryRefusedError ''processed'' ''row is already processed; nothing to retry''), d)"
  using assms by (simp_all add: retry_acquire_def tx_simps get_raw_def del: append.simps)

lemma retry_not_acquired:
  assumes "retry_acquire sh i (rt_acquire_now env) d = (Inl e, d)"
  shows "retry_raw_event sc repr sh cfg cl env i d = (Inl e, d)"
proof -
  have "session_scope (rt_acquire_fault env) (retry_acquire sh i (rt_acquire_now env)) d = (Inl e, d)"
    using assms by (simp add: session_scope_def)
  then show ?thesis unfolding retry_raw_event_def by (simp add: tx_bind_Inl)
qed

subsection \<open>A retry that goes ahead\<close>

abbreviation acquired_db :: "timestamp \<Rightarrow> uuid \<Rightarrow> db \<Rightarrow> db" where
  "acquired_db t i d \<equiv> set_raw_events (row_update re_id i (acquire_row t) (raw_events d)) d"

lemma fits_acquire_row:
  "raw_fits r \<Longrightarrow> 0 \<le> re_attempts r \<Longrightarrow> re_attempts r + 1 < 2 ^ 31 \<Longrightarrow> raw_fits (acquire_row t r)"
  by (simp add: raw_fits_def int4_def, simp add: acquire_row_def varchar_def)

lemma fits_retry_failed_row: "raw_fits r \<Longrightarrow> raw_fits (retry_failed_row err r)"
  by (simp add: raw_fits_def del: append.simps, simp add: retry_failed_row_def varchar_def)

lemma acquire_applies:
  assumes d: "schema_ok d" and r: "r \<in> set (raw_events d)" "re_id r = i"
    and st: "re_status r \<noteq> Duplicate" "re_status r \<noteq> Processed"
    and att: "0 \<le> re_attempts r" "re_attempts r + 1 < 2 ^ 31"
  shows "retry_acquire sh i t d = (Inr (re_payload r), acquired_db t i d)"
    and "schema_ok (acquired_db t i d)"
    and "acquire_row t r \<in> set (raw_events (acquired_db t i d))"
proof -
  have "update_raw i (acquire_row t) d = (Inr (), acquired_db t i d)"
  proof (rule update_raw_fits)
    fix q assume "q \<in> set (raw_events d)" "re_id q = i"
    with schema_same_id [OF d r(1)] r(2) have "q = r" by blast
    with fits_acquire_row [OF schema_raw_fits [OF d r(1)] att] show "raw_fits (acquire_row t q)" by simp
  qed
  with lookup_raw [OF d r(1)] r(2) st show acq: "retry_acquire sh i t d = (Inr (re_payload r), acquired_db t i d)"
    by (simp add: retry_acquire_def tx_simps get_raw_def del: append.simps)
  show "schema_ok (acquired_db t i d)"
    using keepsD [OF schema_retry_acquire d, of sh i t] acq by simp
  show "acquire_row t r \<in> set (raw_events (acquired_db t i d))"
    using r by (auto simp: row_update_def)
qed

lemma record_applies:
  assumes d: "schema_ok d" and r: "r \<in> set (raw_events d)" "re_id r = i"
  shows "retry_record None i err d =
    (Inr (), set_raw_events (row_update re_id i (retry_failed_row err) (raw_events d)) d)"
proof -
  have "update_raw i (retry_failed_row err) d =
      (Inr (), set_raw_events (row_update re_id i (retry_failed_row err) (raw_events d)) d)"
    by (rule update_raw_fits) (rule fits_retry_failed_row [OF schema_raw_fits [OF d]])
  with lookup_raw [OF d r(1)] r(2) show ?thesis
    by (simp add: retry_record_def session_scope_None tx_simps get_raw_def)
qed

text \<open>Phase 3 after a failure: the row is put back, or nothing happens when the recording does not commit.\<close>

lemma retry_finish_failed:
  assumes d: "schema_ok d" and r: "r \<in> set (raw_events d)" "re_id r = i"
    and run: "retry_process sc cfg env i res d = (Inl exc, d)"
  shows "retry_finish sc repr cfg env i res d =
    (case rt_record_fault env of
       None \<Rightarrow> (Inl exc, set_raw_events (row_update re_id i (retry_failed_row (repr exc)) (raw_events d)) d)
     | Some e \<Rightarrow> (Inl e, d))"
proof (cases "rt_record_fault env")
  case None
  with record_applies [OF d r, of "repr exc"] run show ?thesis
    by (simp add: retry_finish_def tx_try_apply tx_bind_Inr)
next
  case (Some e)
  have "retry_record (Some e) i (repr exc) d = (Inl e, d)"
    using record_applies [OF d r, of "repr exc"]
    by (simp add: retry_record_def session_scope_def split: prod.splits sum.splits)
  with Some run show ?thesis by (simp add: retry_finish_def tx_try_apply tx_bind_Inl)
qed

lemma retry_process_raises:
  assumes "retry_process sc cfg env i res d = (Inl exc, d')"
  shows "d' = d"
proof (cases res)
  case (Inl e)
  with assms show ?thesis by (simp add: retry_process_def)
next
  case (Inr ev)
  with assms have "session_scope (rt_persist_fault env) (retry_persist sc cfg env i ev) d = (Inl exc, d')"
    by (simp add: retry_process_def)
  then show ?thesis by (rule session_scope_raises)
qed

lemma retry_process_unclassified:
  assumes "schema_ok d" and "i \<in> re_id ` set (raw_events d)" and "rt_persist_fault env = None"
    and "ne_payload ev = UnclassifiedPayload p"
  shows "fst (retry_process sc cfg env i (Inr ev) d) = Inr ()"
proof -
  from assms(2) obtain r where r: "r \<in> set (raw_events d)" "re_id r = i" by blast
  from lookup_raw [OF assms(1) r(1)] r(2) assms(3) show ?thesis
    by (simp add: retry_process_def retry_persist_def session_scope_None tx_simps get_raw_def
        persist_unclassified_succeeds [OF assms(1,4)])
qed

lemma retry_process_returns:
  assumes "retry_process sc cfg env i res d = (Inr (), d')" and d: "schema_ok d"
    and r: "r \<in> set (raw_events d)" "re_id r = i"
  obtains info where
    "raw_events d' = row_update re_id i (mark_processed (rt_now env) info) (raw_events d)"
proof (cases res)
  case (Inl e)
  with assms show ?thesis by (simp add: retry_process_def)
next
  case (Inr ev)
  with assms(1) have "retry_persist sc cfg env i ev d = (Inr (), d')"
    by (simp add: retry_process_def session_scope_returns)
  with lookup_raw [OF d r(1)] r(2)
  have "persist_normalized sc cfg (rt_now env) (rt_db_now env) (rt_entity_id env)
      (rt_event_id env) r ev d = (Inr (), d')"
    by (simp add: retry_persist_def tx_simps get_raw_def)
  then show ?thesis by (rule persist_raw_row) (use r(2) that in blast)
qed

text \<open>The four ends of a retry that is not refused.\<close>

lemma retry_cases:
  assumes d: "schema_ok d" and r: "r \<in> set (raw_events d)" "re_id r = i"
    and st: "re_status r \<noteq> Duplicate" "re_status r \<noteq> Processed"
    and att: "0 \<le> re_attempts r" "re_attempts r + 1 < 2 ^ 31"
    and run: "retry_raw_event sc repr sh cfg cl env i d = (out, d')"
    and proc_def: "proc = fst (retry_process sc cfg env i (cl (re_payload r))
          (acquired_db (rt_acquire_now env) i d))"
  obtains (not_acquired) e where "rt_acquire_fault env = Some e" "out = Inl e" "d' = d"
  | (processed) r' where "rt_acquire_fault env = None" "proc = Inr ()"
      "r' \<in> set (raw_events d')" "re_id r' = i" "re_attempts r' = re_attempts r + 1"
      "re_status r' = Processed" "out = (case rt_read_fault env of None \<Rightarrow> Inr r' | Some e \<Rightarrow> Inl e)"
  | (put_back) exc r' where "rt_acquire_fault env = None" "proc = Inl exc" "rt_record_fault env = None"
      "r' \<in> set (raw_events d')" "re_id r' = i" "re_attempts r' = re_attempts r + 1"
      "re_status r' = Pending" "re_last_error r' = Some (py_prefix 2000 (''manual retry: '' @ repr exc))"
      "out = Inl exc"
  | (left_behind) exc e r' where "rt_acquire_fault env = None" "proc = Inl exc" "rt_record_fault env = Some e"
      "r' \<in> set (raw_events d')" "re_id r' = i" "re_attempts r' = re_attempts r + 1"
      "re_status r' = Processing" "re_locked_at r' = Some (rt_acquire_now env)" "out = Inl e"
proof (cases "rt_acquire_fault env")
  case (Some e)
  have "session_scope (Some e) (retry_acquire sh i (rt_acquire_now env)) d = (Inl e, d)"
    using acquire_applies(1) [OF d r st att] by (simp add: session_scope_def)
  with run Some show ?thesis unfolding retry_raw_event_def by (intro not_acquired [of e]) (simp_all add: tx_bind_Inl)
next
  case None
  let ?t = "rt_acquire_now env" and ?r = "acquire_row (rt_acquire_now env) r"
  let ?d = "acquired_db ?t i d" and ?res = "cl (re_payload r)"
  note acq = acquire_applies [OF d r st att, where t = ?t]
  have rid: "re_id ?r = i" using r(2) by simp
  have "session_scope (rt_acquire_fault env) (retry_acquire sh i ?t) d = (Inr (re_payload r), ?d)"
    using acq(1) [of sh] None by (simp add: session_scope_returns)
  with run have run1: "tx_bind (retry_finish sc repr cfg env i ?res)
      (\<lambda>_. retry_read (rt_read_fault env) i) ?d = (out, d')"
    unfolding retry_raw_event_def by (simp add: tx_bind_Inr)
  obtain d2 where proc: "retry_process sc cfg env i ?res ?d = (proc, d2)"
    unfolding proc_def by (metis prod.collapse)
  show ?thesis
  proof (cases proc)
    case (Inl exc)
    with proc have "retry_process sc cfg env i ?res ?d = (Inl exc, d2)" by simp
    with retry_process_raises [OF this] have "retry_process sc cfg env i ?res ?d = (Inl exc, ?d)" by simp
    note finish = retry_finish_failed [OF acq(2,3) rid this, of repr]
    show ?thesis
    proof (cases "rt_record_fault env")
      case no_fault: None
      let ?g = "retry_failed_row (repr exc)"
      from finish no_fault run1
      have "out = Inl exc" and d': "d' = set_raw_events (row_update re_id i ?g (raw_events ?d)) ?d"
        by (simp_all add: tx_bind_Inl)
      moreover have "?g ?r \<in> set (raw_events d')"
        unfolding d' using acq(3) rid by (simp add: row_update_def image_iff) metis
      ultimately show ?thesis
        using None Inl no_fault rid by (intro put_back [of exc "?g ?r"]) (simp_all del: append.simps)
    next
      case (Some e)
      with finish run1 have "out = Inl e" "d' = ?d" by (simp_all add: tx_bind_Inl)
      with None Inl Some rid acq(3) show ?thesis by (intro left_behind [of exc e ?r]) simp_all
    qed
  next
    case (Inr u)
    with proc have proc2: "retry_process sc cfg env i ?res ?d = (Inr (), d2)" by simp
    then obtain info where
      rows: "raw_events d2 = row_update re_id i (mark_processed (rt_now env) info) (raw_events ?d)"
      by (rule retry_process_returns [OF _ acq(2,3) rid])
    let ?r' = "mark_processed (rt_now env) info ?r"
    have look: "row_lookup re_id (raw_events d2) i = Some ?r'"
    proof -
      have "row_lookup re_id (raw_events ?d) i = Some ?r" using lookup_raw [OF acq(2,3)] rid by simp
      then show ?thesis
        unfolding rows by (subst row_lookup_update) (simp_all del: raw_events_set_raw_events)
    qed
    have "retry_finish sc repr cfg env i ?res ?d = (Inr (), d2)"
      using proc2 by (simp add: retry_finish_def tx_try_apply)
    with run1 look have "out = (case rt_read_fault env of None \<Rightarrow> Inr ?r' | Some e \<Rightarrow> Inl e)" and "d' = d2"
      by (auto simp: tx_bind_Inr retry_read_def session_scope_def tx_simps get_raw_def split: option.splits)
    with None Inr row_lookup_Some [OF look] show ?thesis by (intro processed [of ?r']) simp_all
  qed
qed

subsection \<open>What a retry can raise\<close>

text \<open>The two exceptions the endpoint maps to statuses of their own.\<close>

fun retry_signal :: "exn \<Rightarrow> bool" where
  "retry_signal (RetryNotFoundError i) = True"
| "retry_signal (RetryRefusedError st rsn) = True"
| "retry_signal _ = False"

abbreviation no_signal :: "('s, 'a) tx \<Rightarrow> bool" where
  "no_signal \<equiv> raises_only (\<lambda>e. \<not> retry_signal e)"

lemma no_signal_statements [raises_intros]:
  "no_signal (update_raw i f)" "no_signal (upsert_entity k now x)"
  "no_signal (insert_event_or_nothing k v)" "no_signal (advance_entity k i st t attrs now)"
  by (auto intro!: raises_onlyI simp: update_raw_def upsert_entity_def insert_event_or_nothing_def
      advance_entity_def split: if_splits option.splits)

lemma no_signal_classified: "no_signal (persist_classified sc now db_now eid vid raw e)"
  unfolding persist_classified_def Let_def by (intro raises_intros) simp_all

lemma no_signal_persist [raises_intros]:
  "no_signal (persist_normalized sc cfg now db_now eid vid raw e)"
  unfolding persist_normalized_def
  by (cases "ne_payload e") (simp_all add: no_signal_classified no_signal_statements)

text \<open>No commit of the retry fails with one of them.\<close>

definition plain_faults :: "retry_env \<Rightarrow> bool" where
  "plain_faults env \<longleftrightarrow> (\<forall>e. Some e \<in> {rt_acquire_fault env, rt_persist_fault env, rt_record_fault env,
     rt_read_fault env} \<longrightarrow> \<not> retry_signal e)"

lemma retry_process_signal:
  assumes "schema_ok d" and "r \<in> set (raw_events d)" "re_id r = i" and "plain_faults env"
    and "fst (retry_process sc cfg env i res d) = Inl exc" and "retry_signal exc"
  shows "res = Inl exc"
proof (cases res)
  case (Inl e)
  with assms(5) show ?thesis by (simp add: retry_process_def)
next
  case (Inr ev)
  let ?persist = "persist_normalized sc cfg (rt_now env) (rt_db_now env) (rt_entity_id env) (rt_event_id env) r ev"
  have "retry_persist sc cfg env i ev d = ?persist d"
    using lookup_raw [OF assms(1,2)] assms(3) by (simp add: retry_persist_def tx_simps get_raw_def)
  with Inr assms(5) have "fst (?persist d) = Inl exc \<or> rt_persist_fault env = Some exc"
    by (auto simp: retry_process_def session_scope_def split: prod.splits sum.splits option.splits)
  moreover have "fst (?persist d) \<noteq> Inl exc" using raises_onlyD [OF no_signal_persist] assms(6) by blast
  moreover have "rt_persist_fault env \<noteq> Some exc"
    using assms(4,6) unfolding plain_faults_def by (metis insertI1 insertI2)
  ultimately show ?thesis by blast
qed

end
