(* ===== verification/ReadSide.thy ===== *)
theory ReadSide
  imports History
begin

text \<open>
  The read side: \<^verbatim>\<open>app/services/shipments.py\<close>, \<^verbatim>\<open>app/services/invoices.py\<close>,
  \<^verbatim>\<open>app/api/_event_helpers.py\<close>, the response models of \<^verbatim>\<open>app/core/schemas.py\<close> and the routes
  of \<^verbatim>\<open>app/api/shipments.py\<close> and \<^verbatim>\<open>app/api/invoices.py\<close>.

  \<open>ORDER BY event_at\<close> leaves the order of equal times open: \<open>tie\<close> ranks the ids and decides it.
\<close>

subsection \<open>Services\<close>

definition get_shipment :: "uuid \<Rightarrow> (db, entity option) tx" where
  "get_shipment i = tx_read (\<lambda>d. row_lookup en_id (shipments d) i)"

definition get_invoice :: "uuid \<Rightarrow> (db, entity option) tx" where
  "get_invoice i = tx_read (\<lambda>d. row_lookup en_id (invoices d) i)"

definition chronological :: "(uuid \<Rightarrow> nat) \<Rightarrow> entity_event list \<Rightarrow> entity_event list" where
  "chronological tie vs = sort_key ev_event_at (sort_key (\<lambda>v. tie (ev_id v)) vs)"

definition list_shipment_events :: "(uuid \<Rightarrow> nat) \<Rightarrow> uuid \<Rightarrow> (db, entity_event list) tx" where
  "list_shipment_events tie i =
     tx_read (\<lambda>d. chronological tie (filter (\<lambda>v. ev_entity_id v = i) (shipment_events d)))"

definition list_invoice_events :: "(uuid \<Rightarrow> nat) \<Rightarrow> uuid \<Rightarrow> (db, entity_event list) tx" where
  "list_invoice_events tie i =
     tx_read (\<lambda>d. chronological tie (filter (\<lambda>v. ev_entity_id v = i) (invoice_events d)))"

subsection \<open>Responses\<close>

record event_out =
  eo_id :: uuid
  eo_canonical_state :: string
  eo_event_at :: timestamp
  eo_vendor_milestone :: "string option"
  eo_attributes :: json

text \<open>\<open>ShipmentOut\<close> and \<open>InvoiceOut\<close> differ only in the value of \<open>entity_type\<close>.\<close>

record entity_out =
  out_id :: uuid
  out_entity_type :: string
  out_vendor :: string
  out_external_ref :: string
  out_current_state :: "string option"
  out_last_event_at :: "timestamp option"
  out_attributes :: json
  out_events :: "event_out list"

definition event_to_out :: "entity_event \<Rightarrow> event_out" where
  "event_to_out v =
     \<lparr>eo_id = ev_id v, eo_canonical_state = ev_canonical_state v, eo_event_at = ev_event_at v,
      eo_vendor_milestone = ev_vendor_milestone v, eo_attributes = ev_attributes v\<rparr>"

definition events_to_out :: "entity_event list \<Rightarrow> event_out list" where
  "events_to_out vs = map event_to_out vs"

definition shipment_out :: "entity \<Rightarrow> entity_event list \<Rightarrow> entity_out" where
  "shipment_out e vs =
     \<lparr>out_id = en_id e, out_entity_type = ''shipment'', out_vendor = en_vendor e,
      out_external_ref = en_external_ref e, out_current_state = en_current_state e,
      out_last_event_at = en_last_event_at e, out_attributes = en_attributes e,
      out_events = events_to_out vs\<rparr>"

definition invoice_out :: "entity \<Rightarrow> entity_event list \<Rightarrow> entity_out" where
  "invoice_out e vs =
     \<lparr>out_id = en_id e, out_entity_type = ''invoice'', out_vendor = en_vendor e,
      out_external_ref = en_external_ref e, out_current_state = en_current_state e,
      out_last_event_at = en_last_event_at e, out_attributes = en_attributes e,
      out_events = events_to_out vs\<rparr>"

subsection \<open>Routes\<close>

text \<open>\<open>GET /shipments/{shipment_id}\<close> and \<open>GET /invoices/{invoice_id}\<close>.\<close>

definition get_shipment_route :: "(uuid \<Rightarrow> nat) \<Rightarrow> uuid \<Rightarrow> (db, entity_out) tx" where
  "get_shipment_route tie i =
     tx_bind (get_shipment i) (\<lambda>shipment.
     case shipment of
       None \<Rightarrow> tx_raise (HTTPException 404 ''shipment not found'')
     | Some e \<Rightarrow>
         tx_bind (list_shipment_events tie i) (\<lambda>events.
         tx_return (shipment_out e events)))"

definition get_invoice_route :: "(uuid \<Rightarrow> nat) \<Rightarrow> uuid \<Rightarrow> (db, entity_out) tx" where
  "get_invoice_route tie i =
     tx_bind (get_invoice i) (\<lambda>invoice.
     case invoice of
       None \<Rightarrow> tx_raise (HTTPException 404 ''invoice not found'')
     | Some e \<Rightarrow>
         tx_bind (list_invoice_events tie i) (\<lambda>events.
         tx_return (invoice_out e events)))"

subsection \<open>What the responses show\<close>

lemma set_chronological [simp]: "set (chronological tie vs) = set vs"
  by (simp add: chronological_def)

lemma mset_chronological [simp]: "mset (chronological tie vs) = mset vs"
  by (simp add: chronological_def)

lemma sorted_chronological: "sorted (map ev_event_at (chronological tie vs))"
  by (simp add: chronological_def)

lemma get_shipment_route_result:
  "get_shipment_route tie i d =
     (case row_lookup en_id (shipments d) i of
        None \<Rightarrow> (Inl (HTTPException 404 ''shipment not found''), d)
      | Some e \<Rightarrow> (Inr (shipment_out e (chronological tie (history ShipmentKind i d))), d))"
  by (simp add: get_shipment_route_def get_shipment_def list_shipment_events_def history_def
      tx_simps split: option.split)

lemma get_invoice_route_result:
  "get_invoice_route tie i d =
     (case row_lookup en_id (invoices d) i of
        None \<Rightarrow> (Inl (HTTPException 404 ''invoice not found''), d)
      | Some e \<Rightarrow> (Inr (invoice_out e (chronological tie (history InvoiceKind i d))), d))"
  by (simp add: get_invoice_route_def get_invoice_def list_invoice_events_def history_def
      tx_simps split: option.split)

text \<open>The last event of a chronological list has the greatest time.\<close>

lemma last_chronological:
  assumes "v \<in> set vs"
  shows "ev_event_at v \<le> ev_event_at (last (chronological tie vs))"
proof -
  let ?ws = "chronological tie vs"
  have "?ws \<noteq> []" using assms set_chronological [of tie vs] by fastforce
  obtain us w where ws: "?ws = us @ [w]" using \<open>?ws \<noteq> []\<close> by (metis append_butlast_last_id)
  have "sorted (map ev_event_at (us @ [w]))" using sorted_chronological [of tie vs] by (simp add: ws)
  moreover have "v \<in> set (us @ [w])" using assms set_chronological [of tie vs] by (simp add: ws)
  ultimately show ?thesis by (auto simp: ws sorted_append)
qed

text \<open>
  The header of a response agrees with its list of events: it shows the state, the time and the
  attributes of one of the latest events.
\<close>

definition shows_latest :: "entity \<Rightarrow> entity_event list \<Rightarrow> bool" where
  "shows_latest e vs \<longleftrightarrow>
     (if vs = [] then en_current_state e = None \<and> en_last_event_at e = None
      else en_last_event_at e = Some (ev_event_at (last vs)) \<and>
           (\<exists>v \<in> set vs. ev_event_at v = ev_event_at (last vs) \<and>
              en_current_state e = Some (ev_canonical_state v) \<and> en_attributes e = ev_attributes v))"

lemma projection_None:
  "stamped e \<Longrightarrow> projection e = None \<Longrightarrow> en_current_state e = None \<and> en_last_event_at e = None"
  by (auto simp: projection_def stamped_def split: option.splits)

lemma projection_Some:
  "projection e = Some x \<Longrightarrow> en_current_state e = Some (lt_state x) \<and>
     en_last_event_at e = Some (lt_at x) \<and> en_attributes e = lt_attributes x"
  by (auto simp: projection_def split: option.splits)

lemma replay_shows_latest:
  assumes ok: "projection_ok d" and replay: "replay_ok d" and e: "e \<in> set (entities k d)"
  shows "shows_latest e (chronological tie (history k (en_id e) d))"
proof (cases "history k (en_id e) d = []")
  case True
  moreover from True replay e have "projection e = None" by (simp add: replay_ok_def replay_def)
  moreover have "stamped e" using ok e by (simp add: projection_ok_def)
  ultimately show ?thesis
    using projection_None [of e] by (simp add: shows_latest_def chronological_def)
next
  case False
  let ?vs = "history k (en_id e) d"
  let ?w = "last (chronological tie ?vs)"
  have w: "?w \<in> set ?vs"
    using False set_chronological [of tie ?vs] last_in_set by (metis set_empty)
  from False have "map event_as_latest ?vs \<noteq> []" by simp
  from fold_jump_greatest [OF this] obtain v where v: "v \<in> set ?vs"
    and rep: "replay k (en_id e) d = Some (event_as_latest v)"
    and top: "\<forall>u \<in> set ?vs. ev_event_at u \<le> ev_event_at v"
    by (auto simp: replay_def event_as_latest_def)
  have at: "ev_event_at v = ev_event_at ?w"
    using top w last_chronological [OF v, of tie] by (simp add: antisym)
  from replay e rep have "projection e = Some (event_as_latest v)" by (simp add: replay_ok_def)
  moreover have "chronological tie ?vs \<noteq> []" using v set_chronological [of tie ?vs] by fastforce
  ultimately show ?thesis
    using projection_Some [of e] at v by (auto simp: shows_latest_def event_as_latest_def)
qed

end
