(* ===== verification/Api.thy ===== *)
theory Api
  imports Ingestion Operator ReadSide
begin

text \<open>
  The routes that write: \<^verbatim>\<open>app/api/webhooks.py\<close>, \<^verbatim>\<open>app/api/raw_events.py\<close>, and the probe of
  \<^verbatim>\<open>app/api/health.py\<close>.

  An HTTP error is the exception \<open>HTTPException status detail\<close>; a returned value is a response with
  the success status of the route. The session of a request comes from \<open>get_session\<close>, that is from
  \<open>session_scope\<close>. The JSON parser \<open>loads\<close> (\<open>orjson.loads\<close>) returns a value or the text of its
  \<open>JSONDecodeError\<close>.
\<close>

subsection \<open>The vendor in the path\<close>

text \<open>\<open>Path(min_length=1, max_length=64, pattern=r"^[A-Za-z0-9_.-]+$")\<close>.\<close>

definition vendor_char :: "char \<Rightarrow> bool" where
  "vendor_char c \<longleftrightarrow>
     (let n = (of_char c :: nat) in
      65 \<le> n \<and> n \<le> 90 \<or> 97 \<le> n \<and> n \<le> 122 \<or> 48 \<le> n \<and> n \<le> 57 \<or> n = 95 \<or> n = 46 \<or> n = 45)"

definition valid_vendor :: "string \<Rightarrow> bool" where
  "valid_vendor v \<longleftrightarrow> 1 \<le> length v \<and> length v \<le> 64 \<and> list_all vendor_char v"

subsection \<open>Reading the body\<close>

fun show_nat :: "nat \<Rightarrow> string" where
  "show_nat n = (if n < 10 then [char_of (48 + n)] else show_nat (n div 10) @ [char_of (48 + n mod 10)])"

definition show_int :: "int \<Rightarrow> string" where
  "show_int n = (if n < 0 then CHR ''-'' # show_nat (nat (- n)) else show_nat (nat n))"

declare show_nat.simps [simp del]

definition read_json_body :: "(byte list \<Rightarrow> string + json) \<Rightarrow> int \<Rightarrow> byte list \<Rightarrow> exn + json" where
  "read_json_body loads max_bytes body =
     (if int (length body) > max_bytes
      then Inl (HTTPException 413 (''payload exceeds '' @ show_int max_bytes @ '' bytes''))
      else if body = [] then Inl (HTTPException 400 ''empty body'')
      else (case loads body of
          Inl err \<Rightarrow> Inl (HTTPException 400 (''invalid JSON: '' @ err))
        | Inr payload \<Rightarrow>
            if \<not> is_dict payload then Inl (HTTPException 400 ''payload root must be a JSON object'')
            else Inr payload))"

subsection \<open>POST /webhooks/{vendor}\<close>

record webhook_ack =
  ack_raw_event_id :: uuid
  ack_duplicate :: bool
  ack_duplicate_of :: "uuid option"

text \<open>
  The dependency \<open>get_session\<close> of \<^verbatim>\<open>app/api/dependencies.py\<close>: the route runs between the two halves of
  \<open>session_scope\<close>. The framework runs the second half before the response is sent or, from FastAPI
  0.118 on, after it; \<open>late\<close> says which. In the second case the client has its response when the
  commit raises.
\<close>

definition get_session :: "bool \<Rightarrow> exn option \<Rightarrow> ('s, 'a) tx \<Rightarrow> ('s, 'a) tx" where
  "get_session late fault route = (\<lambda>s.
     if late then (fst (route s), snd (session_scope fault route s)) else session_scope fault route s)"

lemma keeps_get_session [keeps_intros]: "keeps I route \<Longrightarrow> keeps I (get_session late fault route)"
  using keeps_session_scope [of I route fault] by (simp add: keeps_def get_session_def)

lemma get_session_None: "route s = (Inr x, t) \<Longrightarrow> get_session late None route s = (Inr x, t)"
  by (simp add: get_session_def session_scope_None)

lemma get_session_raises: "get_session late fault route s = (Inl e, t) \<Longrightarrow> t = s"
  by (auto simp: get_session_def session_scope_def split: if_splits prod.splits sum.splits option.splits)

lemma get_session_body_raises: "route s = (Inl e, t) \<Longrightarrow> get_session late fault route s = (Inl e, s)"
  by (simp add: get_session_def session_scope_def)

lemma get_session_either: "snd (get_session late fault route s) = s \<or>
    (fault = None \<and> get_session late fault route s = route s)"
  by (auto simp: get_session_def session_scope_def split: prod.splits sum.splits option.splits)

text \<open>What a request finds around it: fresh ids, the transaction's \<open>now()\<close>, a fault at commit.\<close>

record request_env =
  rq_id1 :: uuid
  rq_id2 :: uuid
  rq_now :: timestamp
  rq_late :: bool
  rq_fault :: "exn option"

definition ingest_webhook ::
    "(json \<Rightarrow> byte list option) \<Rightarrow> (byte list \<Rightarrow> string + json) \<Rightarrow> settings \<Rightarrow> request_env \<Rightarrow>
     string \<Rightarrow> byte list \<Rightarrow> (db, webhook_ack) tx" where
  "ingest_webhook dumps loads cfg env vendor body =
     (if \<not> valid_vendor vendor then tx_raise (HTTPException 422 ''vendor'')
      else get_session (rq_late env) (rq_fault env)
        (tx_bind (tx_of (read_json_body loads (api_request_max_bytes cfg) body)) (\<lambda>payload.
         tx_bind (insert_raw_event dumps (rq_id1 env) (rq_id2 env) (rq_now env) vendor payload)
           (\<lambda>result.
         tx_return \<lparr>ack_raw_event_id = ir_raw_event_id result,
                    ack_duplicate = ir_duplicate result,
                    ack_duplicate_of = ir_duplicate_of result\<rparr>))))"

subsection \<open>POST /raw-events/{raw_event_id}/retry\<close>

record retry_result =
  rr_raw_event_id :: uuid
  rr_status :: string
  rr_attempts :: int
  rr_canonical_state :: "string option"
  rr_entity_type :: "string option"
  rr_last_error :: "string option"

definition select_states :: "entity_kind \<Rightarrow> uuid \<Rightarrow> db \<Rightarrow> string list" where
  "select_states k i d =
     map ev_canonical_state (filter (\<lambda>v. ev_raw_event_id v = i) (entity_events k d))"

text \<open>The loop over the two event tables, with its \<open>break\<close>.\<close>

fun find_state :: "(entity_kind \<times> string) list \<Rightarrow> uuid \<Rightarrow> (db, (string \<times> string) option) tx" where
  "find_state [] i = tx_return None"
| "find_state ((k, etype) # rest) i =
     tx_bind (tx_read (select_states k i)) (\<lambda>rows.
     tx_bind (tx_of (scalar_one_or_none rows)) (\<lambda>row.
     case row of
       Some st \<Rightarrow> tx_return (Some (st, etype))
     | None \<Rightarrow> find_state rest i))"

fun retry_http_error ::
    "(exn \<Rightarrow> string) \<Rightarrow> (uuid option \<Rightarrow> string) \<Rightarrow> exn \<Rightarrow> exn" where
  "retry_http_error repr sh (RetryNotFoundError i) =
     HTTPException 404 (''raw_event '' @ sh (Some i) @ '' not found'')"
| "retry_http_error repr sh (RetryRefusedError st rsn) = HTTPException 409 rsn"
| "retry_http_error repr sh exc = HTTPException 502 (''retry failed: '' @ repr exc)"

definition retry_endpoint ::
    "scalars \<Rightarrow> (exn \<Rightarrow> string) \<Rightarrow> (uuid option \<Rightarrow> string) \<Rightarrow> settings \<Rightarrow>
     (json \<Rightarrow> exn + normalized_event) \<Rightarrow> retry_env \<Rightarrow> exn option \<Rightarrow> uuid \<Rightarrow> (db, retry_result) tx" where
  "retry_endpoint sc repr sh cfg classifier env read_fault i =
     tx_bind (tx_try (retry_raw_event sc repr sh cfg classifier env i)
                (\<lambda>exc. tx_raise (retry_http_error repr sh exc))) (\<lambda>raw.
     tx_bind (session_scope read_fault
                (find_state [(ShipmentKind, ''shipment''), (InvoiceKind, ''invoice'')] (re_id raw)))
       (\<lambda>found.
     tx_return \<lparr>rr_raw_event_id = re_id raw, rr_status = status_text (re_status raw),
                rr_attempts = re_attempts raw, rr_canonical_state = map_option fst found,
                rr_entity_type = map_option snd found, rr_last_error = re_last_error raw\<rparr>))"

subsection \<open>GET /healthz\<close>

text \<open>\<open>probe\<close> is the exception \<open>SELECT 1\<close> raises, if it does. The response is a status and a body.\<close>

definition healthz :: "exn option \<Rightarrow> nat \<times> string" where
  "healthz probe = (case probe of Some _ \<Rightarrow> (503, ''unhealthy'') | None \<Rightarrow> (200, ''ok''))"

subsection \<open>Facts\<close>

lemma valid_vendor_fits: "valid_vendor v \<Longrightarrow> varchar 64 v"
  by (simp add: valid_vendor_def varchar_def)

text \<open>A valid vendor is a path segment of its own: no slash, quote, space or control character.\<close>

lemma valid_vendor_chars:
  "valid_vendor v \<Longrightarrow> c \<in> set v \<Longrightarrow> 45 \<le> (of_char c :: nat) \<and> (of_char c :: nat) \<le> 122 \<and> c \<noteq> CHR ''/''"
  by (auto simp: valid_vendor_def list_all_iff vendor_char_def Let_def)

lemma read_json_body_Inr:
  "read_json_body loads m body = Inr p \<longleftrightarrow>
     int (length body) \<le> m \<and> body \<noteq> [] \<and> loads body = Inr p \<and> is_dict p"
  by (auto simp: read_json_body_def split: sum.splits)

lemma read_json_body_Inl:
  assumes "read_json_body loads m body = Inl e"
  obtains detail where "e = HTTPException 413 detail" "int (length body) > m"
  | detail where "e = HTTPException 400 detail" "int (length body) \<le> m"
  using assms by (auto simp: read_json_body_def split: sum.splits if_splits)

lemma ingest_webhook_accepted:
  assumes "valid_vendor v" and "rq_fault env = None"
    and "read_json_body loads (api_request_max_bytes cfg) body = Inr p"
    and "insert_raw_event dumps (rq_id1 env) (rq_id2 env) (rq_now env) v p d = (Inr res, d')"
  shows "ingest_webhook dumps loads cfg env v body d =
    (Inr \<lparr>ack_raw_event_id = ir_raw_event_id res, ack_duplicate = ir_duplicate res,
          ack_duplicate_of = ir_duplicate_of res\<rparr>, d')"
  using assms by (simp add: ingest_webhook_def tx_bind_Inr get_session_None)

text \<open>An accepted body, whatever its hash, its insert and the commit do.\<close>

lemma ingest_webhook_body:
  assumes "valid_vendor v" and "read_json_body loads (api_request_max_bytes cfg) body = Inr p"
    and "insert_raw_event dumps (rq_id1 env) (rq_id2 env) (rq_now env) v p d = (out, d')"
  shows "ingest_webhook dumps loads cfg env v body d =
    (case out of
       Inl e \<Rightarrow> (Inl e, d)
     | Inr res \<Rightarrow>
         let ack = \<lparr>ack_raw_event_id = ir_raw_event_id res, ack_duplicate = ir_duplicate res,
                    ack_duplicate_of = ir_duplicate_of res\<rparr>
         in case rq_fault env of
              None \<Rightarrow> (Inr ack, d')
            | Some e \<Rightarrow> (if rq_late env then Inr ack else Inl e, d))"
  using assms
  by (cases out; cases "rq_fault env")
     (simp_all add: ingest_webhook_def tx_bind_Inr tx_bind_Inl get_session_def session_scope_def Let_def)

lemma insert_raw_event_unhashed:
  "canonical_hash dumps p = Inl e \<Longrightarrow> insert_raw_event dumps id1 id2 t v p d = (Inl e, d)"
  by (simp add: insert_raw_event_def tx_simps)

lemma ingest_webhook_body_error:
  assumes "valid_vendor v" and "read_json_body loads (api_request_max_bytes cfg) body = Inl e"
  shows "ingest_webhook dumps loads cfg env v body d = (Inl e, d)"
  using assms by (simp add: ingest_webhook_def tx_bind_Inl get_session_body_raises)

lemma ingest_webhook_raises:
  "ingest_webhook dumps loads cfg env v body d = (Inl e, d') \<Longrightarrow> d' = d"
  unfolding ingest_webhook_def by (auto split: if_splits dest: get_session_raises)

lemma ingest_webhook_effect:
  assumes "ingest_webhook dumps loads cfg env v body d = (Inr ack, d')"
  obtains (lost) "rq_late env" and "rq_fault env \<noteq> None" and "d' = d"
  | (stored) p res where "rq_fault env = None"
      and "insert_raw_event dumps (rq_id1 env) (rq_id2 env) (rq_now env) v p d = (Inr res, d')"
proof (cases "rq_fault env")
  case None
  from assms obtain p res where
    "insert_raw_event dumps (rq_id1 env) (rq_id2 env) (rq_now env) v p d = (Inr res, d')"
    by (cases "read_json_body loads (api_request_max_bytes cfg) body")
       (auto simp: ingest_webhook_def get_session_def None session_scope_None tx_bind_apply
         split: if_splits prod.splits sum.splits)
  with None show ?thesis by (rule stored)
next
  case (Some e)
  with assms have "rq_late env \<and> d' = d"
    by (auto simp: ingest_webhook_def get_session_def session_scope_def split: if_splits prod.splits sum.splits)
  with Some show ?thesis by (intro lost) simp_all
qed

lemma schema_ingest_webhook [keeps_intros]: "keeps schema_ok (ingest_webhook dumps loads cfg env v body)"
  unfolding ingest_webhook_def by (intro keeps_intros)

lemma dedup_ingest_webhook [keeps_intros]: "keeps dedup_ok (ingest_webhook dumps loads cfg env v body)"
  unfolding ingest_webhook_def by (intro keeps_intros)

lemma scalar_unique: "distinct (map f xs) \<Longrightarrow>
  scalar_one_or_none (map g (filter (\<lambda>x. f x = i) xs)) =
    Inr (map_option g (row_lookup f xs i))"
proof (cases "row_lookup f xs i")
  case None
  moreover from this have "filter (\<lambda>x. f x = i) xs = []"
    by (auto simp: row_lookup_None filter_empty_conv)
  ultimately show ?thesis by simp
next
  case (Some x)
  moreover assume "distinct (map f xs)"
  ultimately have "filter (\<lambda>x. f x = i) xs = [x]"
    using row_lookup_Some [OF Some] filter_key_unique [of f xs x] by simp
  with Some show ?thesis by simp
qed

text \<open>On a consistent state the lookup after a retry never raises; shipments come first.\<close>

lemma find_state_result:
  assumes "schema_ok d"
  shows "find_state [(ShipmentKind, ''shipment''), (InvoiceKind, ''invoice'')] i d =
    (Inr (case row_lookup ev_raw_event_id (shipment_events d) i of
            Some v \<Rightarrow> Some (ev_canonical_state v, ''shipment'')
          | None \<Rightarrow> (case row_lookup ev_raw_event_id (invoice_events d) i of
              Some v \<Rightarrow> Some (ev_canonical_state v, ''invoice'')
            | None \<Rightarrow> None)), d)"
proof -
  have "distinct (map ev_raw_event_id (entity_events k d))" for k
    using assms by (simp add: schema_ok_def kind_schema_ok_def)
  from scalar_unique [OF this [of ShipmentKind], of ev_canonical_state i]
    scalar_unique [OF this [of InvoiceKind], of ev_canonical_state i]
  show ?thesis by (simp add: tx_simps select_states_def split: option.split)
qed

lemma retry_endpoint_error:
  assumes "retry_raw_event sc repr sh cfg cl env i d = (Inl exc, d')"
  shows "retry_endpoint sc repr sh cfg cl env rf i d = (Inl (retry_http_error repr sh exc), d')"
  using assms by (simp add: retry_endpoint_def tx_try_apply tx_bind_Inl)

text \<open>The event logged for a raw event, where the endpoint looks for it: shipments first.\<close>

definition logged_state :: "db \<Rightarrow> uuid \<Rightarrow> (string \<times> string) option" where
  "logged_state d i =
     (case row_lookup ev_raw_event_id (shipment_events d) i of
        Some v \<Rightarrow> Some (ev_canonical_state v, ''shipment'')
      | None \<Rightarrow> map_option (\<lambda>v. (ev_canonical_state v, ''invoice''))
                  (row_lookup ev_raw_event_id (invoice_events d) i))"

lemma logged_state_logged:
  assumes "logged_state d i = Some (st, ty)"
  shows "\<exists>k. \<exists>v \<in> set (entity_events k d). ev_raw_event_id v = i \<and> ev_canonical_state v = st"
proof (cases "row_lookup ev_raw_event_id (shipment_events d) i")
  case (Some v)
  with assms row_lookup_Some [OF Some] show ?thesis
    by (intro exI [of _ ShipmentKind]) (auto simp: logged_state_def)
next
  case None
  with assms obtain v where v: "row_lookup ev_raw_event_id (invoice_events d) i = Some v"
    and st: "ev_canonical_state v = st" by (auto simp: logged_state_def)
  with row_lookup_Some [OF v] show ?thesis by (intro exI [of _ InvoiceKind]) auto
qed

text \<open>What the endpoint shows of a row it has processed.\<close>

abbreviation retry_report :: "raw_event \<Rightarrow> db \<Rightarrow> retry_result" where
  "retry_report raw d \<equiv>
     \<lparr>rr_raw_event_id = re_id raw, rr_status = status_text (re_status raw), rr_attempts = re_attempts raw,
      rr_canonical_state = map_option fst (logged_state d (re_id raw)),
      rr_entity_type = map_option snd (logged_state d (re_id raw)), rr_last_error = re_last_error raw\<rparr>"

lemma retry_endpoint_success:
  assumes "retry_raw_event sc repr sh cfg cl env i d = (Inr raw, d')" and "schema_ok d'"
  shows "retry_endpoint sc repr sh cfg cl env fault i d =
    (case fault of None \<Rightarrow> Inr (retry_report raw d') | Some e \<Rightarrow> Inl e, d')"
proof -
  let ?find = "find_state [(ShipmentKind, ''shipment''), (InvoiceKind, ''invoice'')] (re_id raw)"
  have "tx_try (retry_raw_event sc repr sh cfg cl env i)
      (\<lambda>exc. tx_raise (retry_http_error repr sh exc)) d = (Inr raw, d')"
    using assms(1) by (simp add: tx_try_apply)
  moreover have found: "?find d' = (Inr (logged_state d' (re_id raw)), d')"
    unfolding find_state_result [OF assms(2)] logged_state_def by (simp split: option.split)
  have "session_scope fault ?find d' =
      (case fault of None \<Rightarrow> Inr (logged_state d' (re_id raw)) | Some e \<Rightarrow> Inl e, d')"
    unfolding session_scope_def found by (simp split: option.split)
  ultimately show ?thesis
    unfolding retry_endpoint_def
    by (cases fault) (simp_all add: tx_bind_Inr tx_bind_Inl del: find_state.simps)
qed

lemma retry_http_error_other:
  "\<not> retry_signal exc \<Longrightarrow> retry_http_error repr sh exc = HTTPException 502 (''retry failed: '' @ repr exc)"
  by (cases exc) simp_all

text \<open>The answers to a retry that is not refused, along the ends of \<open>retry_cases\<close>.\<close>

lemma retry_endpoint_cases:
  assumes d: "schema_ok d" and r: "r \<in> set (raw_events d)" "re_id r = i"
    and st: "re_status r \<noteq> Duplicate" "re_status r \<noteq> Processed"
    and att: "0 \<le> re_attempts r" "re_attempts r + 1 < 2 ^ 31" and env: "plain_faults env"
    and cl: "\<forall>exc. cl (re_payload r) = Inl exc \<longrightarrow> \<not> retry_signal exc"
    and run: "retry_endpoint sc repr sh cfg cl env fault i d = (out, d')"
    and proc: "proc = fst (retry_process sc cfg env i (cl (re_payload r))
          (acquired_db (rt_acquire_now env) i d))"
  obtains (not_acquired) e where "rt_acquire_fault env = Some e" "d' = d"
      "out = Inl (HTTPException 502 (''retry failed: '' @ repr e))"
  | (processed) r' where "rt_acquire_fault env = None" "proc = Inr ()"
      "r' \<in> set (raw_events d')" "re_id r' = i" "re_attempts r' = re_attempts r + 1"
      "re_status r' = Processed"
      "out = (case rt_read_fault env of
         Some e \<Rightarrow> Inl (HTTPException 502 (''retry failed: '' @ repr e))
       | None \<Rightarrow> (case fault of Some e \<Rightarrow> Inl e | None \<Rightarrow> Inr (retry_report r' d')))"
  | (put_back) exc r' where "rt_acquire_fault env = None" "proc = Inl exc" "rt_record_fault env = None"
      "r' \<in> set (raw_events d')" "re_id r' = i" "re_attempts r' = re_attempts r + 1"
      "re_status r' = Pending" "re_last_error r' = Some (py_prefix 2000 (''manual retry: '' @ repr exc))"
      "out = Inl (HTTPException 502 (''retry failed: '' @ repr exc))"
  | (left_behind) exc e r' where "rt_acquire_fault env = None" "proc = Inl exc" "rt_record_fault env = Some e"
      "r' \<in> set (raw_events d')" "re_id r' = i" "re_attempts r' = re_attempts r + 1"
      "re_status r' = Processing" "re_locked_at r' = Some (rt_acquire_now env)"
      "out = Inl (HTTPException 502 (''retry failed: '' @ repr e))"
proof -
  obtain res d1 where run1: "retry_raw_event sc repr sh cfg cl env i d = (res, d1)" by fastforce
  have raised: "out = Inl (HTTPException 502 (''retry failed: '' @ repr exc))" "d' = d1"
    if "res = Inl exc" "\<not> retry_signal exc" for exc
    using retry_endpoint_error [OF run1 [unfolded that(1)], of fault] run that(2)
    by (simp_all add: retry_http_error_other del: append.simps)
  have plain: "\<not> retry_signal e" if "Some e \<in> {rt_acquire_fault env, rt_record_fault env, rt_read_fault env}" for e
    using env that unfolding plain_faults_def by blast
  from d r st att run1 proc show ?thesis
  proof (cases rule: retry_cases)
    case (not_acquired e)
    with raised [OF not_acquired(2) plain] show ?thesis by (intro that(1) [of e]) simp_all
  next
    case (processed r')
    have d1: "schema_ok d1" using keepsD [OF schema_retry_raw_event d] run1 by (metis snd_conv)
    show ?thesis
    proof (cases "rt_read_fault env")
      case None
      with processed have "res = Inr r'" by simp
      from retry_endpoint_success [OF run1 [unfolded this] d1, of fault] run
      have "out = (case fault of None \<Rightarrow> Inr (retry_report r' d1) | Some e \<Rightarrow> Inl e)" and "d' = d1" by simp_all
      with processed None show ?thesis by (intro that(2) [of r']) (cases fault, auto)
    next
      case (Some e)
      with processed have "res = Inl e" by simp
      from raised [OF this plain] Some processed show ?thesis
        by (intro that(2) [of r']) (simp_all del: append.simps)
    qed
  next
    case (put_back exc r')
    note acq = acquire_applies [OF d r st att, where t = "rt_acquire_now env"]
    have "re_id (acquire_row (rt_acquire_now env) r) = i" using r(2) by simp
    from retry_process_signal [OF acq(2,3) this env, of sc cfg "cl (re_payload r)" exc] put_back(2) proc cl
    have "\<not> retry_signal exc" by auto
    from raised [OF put_back(9) this] put_back show ?thesis
      by (intro that(3) [of exc r']) (simp_all del: append.simps)
  next
    case (left_behind exc e r')
    from raised [OF left_behind(9) plain] left_behind show ?thesis
      by (intro that(4) [of exc e r']) (simp_all del: append.simps)
  qed
qed

text \<open>What the endpoint answers when the row is not taken over.\<close>

lemma retry_endpoint_missing:
  assumes "row_lookup re_id (raw_events d) i = None"
    and "retry_endpoint sc repr sh cfg cl env fault i d = (out, d')"
  shows "out = Inl (HTTPException 404 (''raw_event '' @ sh (Some i) @ '' not found'')) \<and> d' = d"
proof -
  from retry_endpoint_error [OF retry_not_acquired [OF acquire_missing [OF assms(1)]]] assms(2)
  have "out = Inl (retry_http_error repr sh (RetryNotFoundError i)) \<and> d' = d" by (metis prod.inject)
  then show ?thesis by simp
qed

lemma retry_endpoint_refused:
  assumes row: "row_lookup re_id (raw_events d) i = Some r"
    and st: "re_status r = Duplicate \<or> re_status r = Processed"
    and run: "retry_endpoint sc repr sh cfg cl env fault i d = (out, d')"
  shows "out = Inl (HTTPException 409
      (if re_status r = Duplicate
       then ''row is a duplicate of '' @ sh (re_duplicate_of_id r) @ ''; retry the parent instead''
       else ''row is already processed; nothing to retry'')) \<and> d' = d"
proof -
  let ?e = "if re_status r = Duplicate
    then RetryRefusedError ''duplicate'' (''row is a duplicate of '' @ sh (re_duplicate_of_id r) @
      ''; retry the parent instead'')
    else RetryRefusedError ''processed'' ''row is already processed; nothing to retry''"
  have "retry_acquire sh i (rt_acquire_now env) d = (Inl ?e, d)"
    using st acquire_refused [OF row] by (cases "re_status r = Duplicate") simp_all
  from retry_endpoint_error [OF retry_not_acquired [OF this]] run
  have "out = Inl (retry_http_error repr sh ?e) \<and> d' = d" by (metis prod.inject)
  then show ?thesis by (simp del: append.simps)
qed

end
