(* ===== verification/System.thy ===== *)
theory System
  imports Queue Dispatch Api
begin

text \<open>
  The whole service: API requests, any number of workers, operators and the reaper on one database.
  Every transaction is one step; between the transactions of a worker iteration or of a retry any
  other transaction may run. What a process still has to do is a \<open>task\<close>; a crash loses tasks.

  The classifier's answer is arbitrary, as are clocks, fresh ids, ties, lock sets and faults.
\<close>

subsection \<open>Steps\<close>

datatype task =
    WorkerClassify uuid json
  | WorkerPersist uuid normalized_event
  | WorkerFail uuid string
  | RetryClassify uuid json
  | RetryPersist uuid normalized_event
  | RetryRecord uuid exn

fun task_row :: "task \<Rightarrow> uuid" where
  "task_row (WorkerClassify i p) = i"
| "task_row (WorkerPersist i ev) = i"
| "task_row (WorkerFail i err) = i"
| "task_row (RetryClassify i p) = i"
| "task_row (RetryPersist i ev) = i"
| "task_row (RetryRecord i exc) = i"

record system =
  sys_db :: db
  sys_tasks :: "task list"

text \<open>What the steps take from outside the repository, and the configuration.\<close>

record context_params =
  cx_scalars :: scalars
  cx_dumps :: "json \<Rightarrow> byte list option"
  cx_loads :: "byte list \<Rightarrow> string + json"
  cx_repr :: "exn \<Rightarrow> string"
  cx_show :: "uuid option \<Rightarrow> string"
  cx_settings :: settings

abbreviation max_attempts :: "context_params \<Rightarrow> int" where
  "max_attempts cx \<equiv> worker_max_attempts (cx_settings cx)"

inductive sys_step :: "context_params \<Rightarrow> system \<Rightarrow> system \<Rightarrow> bool" for cx :: context_params where
  step_ingest:
    "ingest_webhook (cx_dumps cx) (cx_loads cx) (cx_settings cx) env vendor body d = (out, d') \<Longrightarrow>
     sys_step cx \<lparr>sys_db = d, sys_tasks = ts\<rparr> \<lparr>sys_db = d', sys_tasks = ts\<rparr>"
| step_claim:
    "session_scope fault (claim_one tie locked now (max_attempts cx)) d = (Inr (Some r), d') \<Longrightarrow>
     sys_step cx \<lparr>sys_db = d, sys_tasks = ts\<rparr>
       \<lparr>sys_db = d', sys_tasks = WorkerClassify (re_id r) (re_payload r) # ts\<rparr>"
| step_classified:
    "WorkerClassify i p \<in> set ts \<Longrightarrow>
     sys_step cx \<lparr>sys_db = d, sys_tasks = ts\<rparr>
       \<lparr>sys_db = d, sys_tasks = WorkerPersist i ev # remove1 (WorkerClassify i p) ts\<rparr>"
| step_not_classified:
    "WorkerClassify i p \<in> set ts \<Longrightarrow>
     sys_step cx \<lparr>sys_db = d, sys_tasks = ts\<rparr>
       \<lparr>sys_db = d, sys_tasks = WorkerFail i (''classify: '' @ cx_repr cx exc) #
          remove1 (WorkerClassify i p) ts\<rparr>"
| step_persist:
    "WorkerPersist i ev \<in> set ts \<Longrightarrow>
     session_scope (pe_persist_fault env) (persist_loaded (cx_scalars cx) (cx_settings cx) env i ev) d
       = (Inr (), d') \<Longrightarrow>
     sys_step cx \<lparr>sys_db = d, sys_tasks = ts\<rparr>
       \<lparr>sys_db = d', sys_tasks = remove1 (WorkerPersist i ev) ts\<rparr>"
| step_not_persisted:
    "WorkerPersist i ev \<in> set ts \<Longrightarrow>
     session_scope (pe_persist_fault env) (persist_loaded (cx_scalars cx) (cx_settings cx) env i ev) d
       = (Inl exc, d') \<Longrightarrow>
     sys_step cx \<lparr>sys_db = d, sys_tasks = ts\<rparr>
       \<lparr>sys_db = d', sys_tasks = WorkerFail i (''persist: '' @ cx_repr cx exc) #
          remove1 (WorkerPersist i ev) ts\<rparr>"
| step_mark_failed:
    "WorkerFail i err \<in> set ts \<Longrightarrow> mark_failed fault i err (max_attempts cx) d = (out, d') \<Longrightarrow>
     sys_step cx \<lparr>sys_db = d, sys_tasks = ts\<rparr>
       \<lparr>sys_db = d', sys_tasks = remove1 (WorkerFail i err) ts\<rparr>"
| step_reap:
    "reap_stale fault (cx_settings cx) now d = (out', d') \<Longrightarrow>
     sys_step cx \<lparr>sys_db = d, sys_tasks = ts\<rparr> \<lparr>sys_db = d', sys_tasks = ts\<rparr>"
| step_acquire:
    "session_scope fault (retry_acquire (cx_show cx) i now) d = (Inr p, d') \<Longrightarrow>
     sys_step cx \<lparr>sys_db = d, sys_tasks = ts\<rparr>
       \<lparr>sys_db = d', sys_tasks = RetryClassify i p # ts\<rparr>"
| step_retry_classified:
    "RetryClassify i p \<in> set ts \<Longrightarrow>
     sys_step cx \<lparr>sys_db = d, sys_tasks = ts\<rparr>
       \<lparr>sys_db = d, sys_tasks = RetryPersist i ev # remove1 (RetryClassify i p) ts\<rparr>"
| step_retry_not_classified:
    "RetryClassify i p \<in> set ts \<Longrightarrow>
     sys_step cx \<lparr>sys_db = d, sys_tasks = ts\<rparr>
       \<lparr>sys_db = d, sys_tasks = RetryRecord i exc # remove1 (RetryClassify i p) ts\<rparr>"
| step_retry_persist:
    "RetryPersist i ev \<in> set ts \<Longrightarrow>
     session_scope (rt_persist_fault renv)
       (retry_persist (cx_scalars cx) (cx_settings cx) renv i ev) d = (Inr (), d') \<Longrightarrow>
     sys_step cx \<lparr>sys_db = d, sys_tasks = ts\<rparr>
       \<lparr>sys_db = d', sys_tasks = remove1 (RetryPersist i ev) ts\<rparr>"
| step_retry_not_persisted:
    "RetryPersist i ev \<in> set ts \<Longrightarrow>
     session_scope (rt_persist_fault renv)
       (retry_persist (cx_scalars cx) (cx_settings cx) renv i ev) d = (Inl exc, d') \<Longrightarrow>
     sys_step cx \<lparr>sys_db = d, sys_tasks = ts\<rparr>
       \<lparr>sys_db = d', sys_tasks = RetryRecord i exc # remove1 (RetryPersist i ev) ts\<rparr>"
| step_record:
    "RetryRecord i exc \<in> set ts \<Longrightarrow> retry_record fault i (cx_repr cx exc) d = (out'', d') \<Longrightarrow>
     sys_step cx \<lparr>sys_db = d, sys_tasks = ts\<rparr>
       \<lparr>sys_db = d', sys_tasks = remove1 (RetryRecord i exc) ts\<rparr>"
| step_crash:
    "mset ts' \<subseteq># mset ts \<Longrightarrow>
     sys_step cx \<lparr>sys_db = d, sys_tasks = ts\<rparr> \<lparr>sys_db = d, sys_tasks = ts'\<rparr>"

definition initial_system :: system where
  "initial_system = \<lparr>sys_db = empty_db, sys_tasks = []\<rparr>"

inductive reachable :: "context_params \<Rightarrow> system \<Rightarrow> bool" for cx :: context_params where
  reachable_initial: "reachable cx initial_system"
| reachable_step: "reachable cx s \<Longrightarrow> sys_step cx s s' \<Longrightarrow> reachable cx s'"

inductive_cases reachable_cases: "reachable cx s"

subsection \<open>The five kinds of state changes\<close>

text \<open>
  What no transaction changes in a stored raw event: its identity, content and place in the queue,
  whether it is a duplicate, and the fact that it was processed once.
\<close>

definition same_origin :: "raw_event \<Rightarrow> raw_event \<Rightarrow> bool" where
  "same_origin r r' \<longleftrightarrow>
     re_id r' = re_id r \<and> re_vendor_hint r' = re_vendor_hint r \<and> re_payload r' = re_payload r \<and>
     re_hash_exact r' = re_hash_exact r \<and> re_received_at r' = re_received_at r \<and>
     re_duplicate_of_id r' = re_duplicate_of_id r \<and>
     (re_status r' = Duplicate \<longleftrightarrow> re_status r = Duplicate) \<and>
     (re_processed_at r \<noteq> None \<longrightarrow> re_processed_at r' \<noteq> None)"

definition rows_kept :: "db \<Rightarrow> db \<Rightarrow> bool" where
  "rows_kept d d' \<longleftrightarrow> list_all2 same_origin (raw_events d) (raw_events d')"

definition only_rows :: "db \<Rightarrow> db \<Rightarrow> bool" where
  "only_rows d d' \<longleftrightarrow> rows_kept d d' \<and>
     (\<forall>k. entities k d' = entities k d \<and> entity_events k d' = entity_events k d)"

lemma same_origin_refl: "same_origin r r"
  by (simp add: same_origin_def)

lemma only_rows_refl: "only_rows d d"
  by (simp add: only_rows_def rows_kept_def list_all2_refl same_origin_refl)

text \<open>The row \<open>i\<close> exists and is a primary.\<close>

definition held :: "uuid \<Rightarrow> db \<Rightarrow> bool" where
  "held i d \<longleftrightarrow> (\<exists>r \<in> set (raw_events d). re_id r = i) \<and> pinned i d"

lemma held_kept:
  assumes "rows_kept d d'" and "held i d"
  shows "held i d'"
proof -
  have rows: "list_all2 same_origin (raw_events d) (raw_events d')"
    using assms(1) by (simp add: rows_kept_def)
  have "\<exists>r' \<in> set (raw_events d'). re_id r' = i"
  proof -
    from assms(2) obtain r where r: "r \<in> set (raw_events d)" "re_id r = i" by (auto simp: held_def)
    from list_all2_first [OF rows r(1)] r(2) show ?thesis by (auto simp: same_origin_def)
  qed
  moreover have "is_primary r'" if "r' \<in> set (raw_events d')" "re_id r' = i" for r'
  proof -
    from list_all2_second [OF rows that(1)] obtain r where
      "r \<in> set (raw_events d)" "same_origin r r'" by blast
    with assms(2) that(2) show ?thesis by (auto simp: held_def pinned_def same_origin_def is_primary_def)
  qed
  ultimately show ?thesis by (auto simp: held_def pinned_def)
qed


lemma only_rows_held: "only_rows d d' \<Longrightarrow> held i d \<Longrightarrow> held i d'"
  by (auto simp: only_rows_def intro: held_kept)

subsection \<open>Each transaction changes only rows, stores a row, or persists an event\<close>

text \<open>The base invariant: the schema, exactly the duplicates have a parent, and tasks work on primaries.\<close>

definition base_ok :: "db \<Rightarrow> bool" where
  "base_ok d \<longleftrightarrow> schema_ok d \<and> all_rows status_link d"

lemma base_ok_empty: "base_ok empty_db"
  by (simp add: base_ok_def schema_ok_empty) (simp add: all_rows_def empty_db_def)

lemma held_not_duplicate:
  "base_ok d \<Longrightarrow> held i d \<Longrightarrow> r \<in> set (raw_events d) \<Longrightarrow> re_id r = i \<Longrightarrow> re_status r \<noteq> Duplicate"
  by (auto simp: base_ok_def all_rows_def status_link_def held_def pinned_def is_primary_def)

lemma only_rows_update:
  assumes "\<And>r. r \<in> set (raw_events d) \<Longrightarrow> re_id r = i \<Longrightarrow> same_origin r (f r)"
  shows "only_rows d (set_raw_events (row_update re_id i f (raw_events d)) d)"
  using assms
  by (simp add: only_rows_def rows_kept_def row_update_def list_all2_map2 list.rel_refl_strong same_origin_refl)

lemma only_rows_update_raw:
  assumes "\<And>r. r \<in> set (raw_events d) \<Longrightarrow> re_id r = i \<Longrightarrow> same_origin r (f r)"
  shows "only_rows d (snd (update_raw i f d))"
  using only_rows_update [OF assms] only_rows_refl by (auto simp: update_raw_def)

lemma same_origin_claimed: "re_status r = Pending \<Longrightarrow> same_origin r (mark_claimed t r)"
  by (simp add: same_origin_def, simp add: mark_claimed_def)

lemma same_origin_failed: "re_status r \<noteq> Duplicate \<Longrightarrow> same_origin r (fail_row err m r)"
  by (simp add: same_origin_def, simp add: fail_row_def)

lemma same_origin_released: "re_status r = Processing \<Longrightarrow> same_origin r (release_row r)"
  by (simp add: same_origin_def, simp add: release_row_def)

lemma same_origin_processed: "re_status r \<noteq> Duplicate \<Longrightarrow> same_origin r (mark_processed t info r)"
  by (simp add: same_origin_def, simp add: mark_processed_def)

lemma same_origin_acquired: "re_status r \<noteq> Duplicate \<Longrightarrow> same_origin r (acquire_row t r)"
  by (simp add: same_origin_def, simp add: acquire_row_def)

lemma same_origin_put_back: "re_status r \<noteq> Duplicate \<Longrightarrow> same_origin r (retry_failed_row err r)"
  by (simp add: same_origin_def del: append.simps, simp add: retry_failed_row_def del: append.simps)

lemma claim_effect:
  assumes d: "base_ok d"
    and run: "session_scope fault (claim_one tie locked t m) d = (Inr (Some r), d')"
  shows "only_rows d d'" and "held (re_id r) d'"
proof -
  have schema: "schema_ok d" using d by (simp add: base_ok_def)
  from run have "claim_one tie locked t m d = (Inr (Some r), d')" by (simp add: session_scope_returns)
  then obtain q where q: "next_pending tie locked d = Some q" "r = mark_claimed t q" "d' = claimed_db t q d"
    by (auto simp: claim_one_result [OF schema] split: option.splits)
  note qin = next_pending_Some(1,2) [OF q(1)]
  have same: "x = q" if "x \<in> set (raw_events d)" "re_id x = re_id q" for x
    using schema_same_id [OF schema qin(1)] that by blast
  show "only_rows d d'"
    unfolding q(3) by (rule only_rows_update) (use same qin(2) same_origin_claimed in blast)
  have "is_primary q"
    using d qin by (auto simp: base_ok_def all_rows_def status_link_def is_primary_def)
  with qin(1) same have "held (re_id q) d" by (auto simp: held_def pinned_def)
  from only_rows_held [OF \<open>only_rows d d'\<close> this] q(2) show "held (re_id r) d'" by simp
qed

lemma mark_failed_effect:
  assumes "base_ok d" and "held i d"
  shows "only_rows d (snd (mark_failed fault i err m d))"
proof -
  let ?body = "tx_bind (get_raw i) (\<lambda>row. case row of None \<Rightarrow> tx_return ()
      | Some r \<Rightarrow> update_raw i (fail_row err m))"
  have "only_rows d (snd (?body d))"
  proof (cases "row_lookup re_id (raw_events d) i")
    case None
    then show ?thesis by (simp add: tx_simps get_raw_def only_rows_refl)
  next
    case (Some r)
    have "only_rows d (snd (update_raw i (fail_row err m) d))"
      by (rule only_rows_update_raw) (rule same_origin_failed [OF held_not_duplicate [OF assms]])
    with Some show ?thesis by (simp add: tx_simps get_raw_def)
  qed
  then show ?thesis unfolding mark_failed_def by (rule session_scope_either [where Q = "only_rows d", OF only_rows_refl])
qed

lemma record_effect:
  assumes "base_ok d" and "held i d"
  shows "only_rows d (snd (retry_record fault i err d))"
proof -
  let ?body = "tx_bind (get_raw i) (\<lambda>row. case row of None \<Rightarrow> tx_return ()
      | Some r \<Rightarrow> update_raw i (retry_failed_row err))"
  have "only_rows d (snd (?body d))"
  proof (cases "row_lookup re_id (raw_events d) i")
    case None
    then show ?thesis by (simp add: tx_simps get_raw_def only_rows_refl)
  next
    case (Some r)
    have "only_rows d (snd (update_raw i (retry_failed_row err) d))"
      by (rule only_rows_update_raw) (rule same_origin_put_back [OF held_not_duplicate [OF assms]])
    with Some show ?thesis by (simp add: tx_simps get_raw_def)
  qed
  then show ?thesis unfolding retry_record_def by (rule session_scope_either [where Q = "only_rows d", OF only_rows_refl])
qed

lemma release_effect: "only_rows d (snd (release_stale th d))"
proof -
  have "same_origin r (if is_stale th r then release_row r else r)" for r
    by (simp add: same_origin_refl, simp add: is_stale_def same_origin_released)
  then have "list_all2 same_origin rs (map (\<lambda>r. if is_stale th r then release_row r else r) rs)" for rs
    by (simp add: list_all2_map2 list_all2_refl)
  then show ?thesis by (simp add: release_stale_def only_rows_def rows_kept_def)
qed

lemma reap_effect: "only_rows d (snd (reap_stale fault cfg now d))"
proof (cases "minutes_before (worker_stale_lock_minutes cfg) now")
  case None
  then show ?thesis by (simp add: reap_stale_def only_rows_refl)
next
  case (Some th)
  have "only_rows d (snd (session_scope fault (release_stale th) d))"
    by (rule session_scope_either [where Q = "only_rows d" and body = "release_stale th", OF only_rows_refl release_effect])
  with Some show ?thesis by (simp add: reap_stale_def)
qed

lemma acquire_effect:
  assumes d: "base_ok d" and run: "session_scope fault (retry_acquire sh i t) d = (Inr p, d')"
  shows "only_rows d d'" and "held i d'"
proof -
  have schema: "schema_ok d" using d by (simp add: base_ok_def)
  from run have acq: "retry_acquire sh i t d = (Inr p, d')" by (simp add: session_scope_returns)
  then obtain r where r: "r \<in> set (raw_events d)" "re_id r = i" "re_status r \<noteq> Duplicate"
    and d': "d' = set_raw_events (row_update re_id i (acquire_row t) (raw_events d)) d"
    by (rule retry_acquire_returns) blast
  have same: "x = r" if "x \<in> set (raw_events d)" "re_id x = i" for x
    using schema_same_id [OF schema r(1)] r(2) that by blast
  show "only_rows d d'"
    unfolding d' by (rule only_rows_update) (use same r(3) same_origin_acquired in blast)
  have "is_primary r"
    using d r by (auto simp: base_ok_def all_rows_def status_link_def is_primary_def)
  then have "pinned i d" unfolding pinned_def using same by blast
  with r have "held i d" unfolding held_def by blast
  from only_rows_held [OF \<open>only_rows d d'\<close> this] show "held i d'" .
qed

subsection \<open>Invariants of the reachable states\<close>

text \<open>What a persist and an insert do to the rows.\<close>

lemma persist_keeps_rows:
  assumes "base_ok d" and "held (re_id raw) d"
    and "persist_normalized sc cfg now db_now eid vid raw e d = (Inr (), d')"
  shows "rows_kept d d'"
proof (rule persist_raw_row [OF assms(3)])
  fix info
  assume "raw_events d' = row_update re_id (re_id raw) (mark_processed now info) (raw_events d)"
  moreover have "only_rows d (set_raw_events
      (row_update re_id (re_id raw) (mark_processed now info) (raw_events d)) d)"
    by (rule only_rows_update) (rule same_origin_processed [OF held_not_duplicate [OF assms(1,2)]])
  ultimately show ?thesis by (simp add: only_rows_def rows_kept_def)
qed

lemma insert_held:
  assumes "insert_raw_event dumps id1 id2 t v p d = (Inr res, d')" and "held i d"
  shows "held i d'"
  using assms(1) by (cases rule: insert_raw_event_cases) (use assms(2) in \<open>auto simp: held_def pinned_def\<close>)

definition sys_base :: "system \<Rightarrow> bool" where
  "sys_base s \<longleftrightarrow> base_ok (sys_db s) \<and> (\<forall>t \<in> set (sys_tasks s). held (task_row t) (sys_db s))"

text \<open>
  The contract of an invariant of the database: it holds of the empty database, and each of the three
  kinds of changes keeps it. Then every reachable state has it.
\<close>

locale db_invariant =
  fixes I :: "db \<Rightarrow> bool"
  assumes initial: "I empty_db"
    and rows_changed: "base_ok d \<Longrightarrow> I d \<Longrightarrow> only_rows d d' \<Longrightarrow> schema_ok d' \<Longrightarrow> I d'"
    and stored: "base_ok d \<Longrightarrow> I d \<Longrightarrow> insert_raw_event dumps id1 id2 t v p d = (Inr res, d') \<Longrightarrow> I d'"
    and persisted: "base_ok d \<Longrightarrow> I d \<Longrightarrow> raw \<in> set (raw_events d) \<Longrightarrow> held (re_id raw) d \<Longrightarrow>
      persist_normalized sc cfg now db_now eid vid raw e d = (Inr (), d') \<Longrightarrow> I d'"

text \<open>\<open>change d d'\<close>: one of the three kinds of changes.\<close>

inductive change :: "db \<Rightarrow> db \<Rightarrow> bool" where
  change_rows: "only_rows d d' \<Longrightarrow> change d d'"
| change_store: "insert_raw_event dumps id1 id2 t v p d = (Inr res, d') \<Longrightarrow> change d d'"
| change_persist: "raw \<in> set (raw_events d) \<Longrightarrow> held (re_id raw) d \<Longrightarrow>
    persist_normalized sc cfg now db_now eid vid raw e d = (Inr (), d') \<Longrightarrow> change d d'"

lemma change_refl: "change d d"
  by (rule change_rows [OF only_rows_refl])

lemma change_held:
  assumes "change d d'" and "base_ok d" and "held i d"
  shows "held i d'"
  using assms(1)
proof cases
  case change_rows
  then show ?thesis using assms(3) by (rule only_rows_held)
next
  case change_store
  then show ?thesis using assms(3) by (rule insert_held)
next
  case change_persist
  show ?thesis
    by (rule held_kept [OF persist_keeps_rows [OF assms(2) change_persist(2,3)] assms(3)])
qed

lemma ingest_change:
  assumes "ingest_webhook dumps loads cfg env v body d = (out, d')"
  shows "change d d'"
proof (cases out)
  case (Inl e)
  with assms have "d' = d" by (intro ingest_webhook_raises) simp
  then show ?thesis by (simp add: change_refl)
next
  case (Inr ack)
  from assms [unfolded Inr] show ?thesis
    by (rule ingest_webhook_effect) (simp add: change_refl, rule change_store)
qed

lemma worker_persist_change:
  assumes "held i d" and "session_scope fault (persist_loaded sc cfg env i ev) d = (Inr (), d')"
  shows "change d d'"
proof (cases "row_lookup re_id (raw_events d) i")
  case None
  with assms(2) have "d' = d" by (simp add: session_scope_returns persist_loaded_def tx_simps get_raw_def)
  then show ?thesis by (simp add: change_refl)
next
  case (Some r)
  with assms(2) have "persist_normalized sc cfg (pe_now env) (pe_db_now env) (pe_entity_id env)
      (pe_event_id env) r ev d = (Inr (), d')"
    by (simp add: session_scope_returns persist_loaded_def tx_simps get_raw_def)
  with row_lookup_Some [OF Some] assms(1) show ?thesis by (intro change_persist [of r]) auto
qed

lemma retry_persist_change:
  assumes "held i d" and "session_scope fault (retry_persist sc cfg env i ev) d = (Inr (), d')"
  shows "change d d'"
proof (cases "row_lookup re_id (raw_events d) i")
  case None
  with assms(2) show ?thesis
    by (simp add: session_scope_returns retry_persist_def tx_simps get_raw_def)
next
  case (Some r)
  with assms(2) have "persist_normalized sc cfg (rt_now env) (rt_db_now env) (rt_entity_id env)
      (rt_event_id env) r ev d = (Inr (), d')"
    by (simp add: session_scope_returns retry_persist_def tx_simps get_raw_def)
  with row_lookup_Some [OF Some] assms(1) show ?thesis by (intro change_persist [of r]) auto
qed

text \<open>Every step is a change of the database, and its tasks work on primaries.\<close>

lemma step_change:
  assumes "sys_step cx s s'" and "sys_base s"
  shows "change (sys_db s) (sys_db s')"
proof -
  have base: "base_ok (sys_db s)" and tasks: "\<And>t. t \<in> set (sys_tasks s) \<Longrightarrow> held (task_row t) (sys_db s)"
    using assms(2) by (auto simp: sys_base_def)
  from assms(1) show ?thesis
  proof cases
    case (step_ingest env vendor body d out d' ts)
    then show ?thesis using ingest_change by simp
  next
    case (step_claim fault tie locked now d r d' ts)
    then show ?thesis using claim_effect(1) [of d] base by (auto intro: change_rows)
  next
    case (step_persist i ev ts env d d')
    then show ?thesis using tasks [of "WorkerPersist i ev"] worker_persist_change by simp
  next
    case (step_not_persisted i ev ts env d exc d')
    from session_scope_raises [OF step_not_persisted(4)] step_not_persisted show ?thesis
      by (simp add: change_refl)
  next
    case (step_mark_failed i err ts fault d out d')
    with mark_failed_effect [OF base, of i fault err "max_attempts cx"] tasks [of "WorkerFail i err"]
    show ?thesis by (simp add: change_rows)
  next
    case (step_reap fault now d out' d' ts)
    with reap_effect [of d fault "cx_settings cx" now] show ?thesis by (simp add: change_rows)
  next
    case (step_acquire fault i now d p d' ts)
    then show ?thesis using acquire_effect(1) [of d] base by (auto intro: change_rows)
  next
    case (step_retry_persist i ev ts renv d d')
    then show ?thesis using tasks [of "RetryPersist i ev"] retry_persist_change by simp
  next
    case (step_retry_not_persisted i ev ts renv d exc d')
    from session_scope_raises [OF step_retry_not_persisted(4)] step_retry_not_persisted show ?thesis
      by (simp add: change_refl)
  next
    case (step_record i exc ts fault d out'' d')
    with record_effect [OF base, of i fault "cx_repr cx exc"] tasks [of "RetryRecord i exc"]
    show ?thesis by (simp add: change_rows)
  qed (simp_all add: change_refl)
qed

text \<open>A task after a step was there, continues one that was there, or has just taken its row.\<close>

lemma step_tasks:
  assumes "sys_step cx s s'" and "base_ok (sys_db s)" and "t \<in> set (sys_tasks s')"
  shows "(\<exists>u \<in> set (sys_tasks s). task_row t = task_row u) \<or> held (task_row t) (sys_db s')"
  using assms(1)
proof cases
  case (step_claim fault tie locked now d r d' ts)
  with assms(2,3) claim_effect(2) [of d] show ?thesis by auto
next
  case (step_acquire fault i now d p d' ts)
  with assms(2,3) acquire_effect(2) [of d] show ?thesis by auto
next
  case (step_crash ts' ts d)
  with assms(3) show ?thesis using mset_subset_eqD by fastforce
qed (use assms(3) in \<open>force dest: notin_set_remove1 set_remove1_subset [THEN subsetD]\<close>)+

text \<open>A step keeps the schema, and every property of rows that satisfies the contract.\<close>

lemma step_schema:
  assumes "sys_step cx s s'" and schema: "schema_ok (sys_db s)"
  shows "schema_ok (sys_db s')"
  using assms(1)
proof cases
  case (step_ingest env vendor body d out d' ts)
  with keepsD [OF schema_ingest_webhook schema] show ?thesis by (metis snd_conv system.select_convs(1))
next
  case (step_claim fault tie locked now d r d' ts)
  with keepsD [OF schema_claim_one schema, of tie locked now "max_attempts cx"]
  show ?thesis by (simp add: session_scope_returns)
next
  case (step_persist i ev ts env d d')
  with keepsD [OF keeps_session_scope [OF schema_persist_loaded] schema, of "pe_persist_fault env"]
  show ?thesis by (metis snd_conv system.select_convs(1))
next
  case (step_not_persisted i ev ts env d exc d')
  from session_scope_raises [OF step_not_persisted(4)] step_not_persisted schema show ?thesis by simp
next
  case (step_mark_failed i err ts fault d out d')
  with keepsD [OF schema_mark_failed schema] show ?thesis by (metis snd_conv system.select_convs(1))
next
  case (step_reap fault now d out' d' ts)
  with keepsD [OF schema_reap_stale schema] show ?thesis by (metis snd_conv system.select_convs(1))
next
  case (step_acquire fault i now d p d' ts)
  with keepsD [OF schema_retry_acquire schema, of "cx_show cx" i now]
  show ?thesis by (simp add: session_scope_returns)
next
  case (step_retry_persist i ev ts renv d d')
  with keepsD [OF keeps_session_scope [OF schema_retry_persist] schema, of "rt_persist_fault renv"]
  show ?thesis by (metis snd_conv system.select_convs(1))
next
  case (step_retry_not_persisted i ev ts renv d exc d')
  from session_scope_raises [OF step_retry_not_persisted(4)] step_retry_not_persisted schema
  show ?thesis by simp
next
  case (step_record i exc ts fault d out'' d')
  with keepsD [OF schema_retry_record schema] show ?thesis by (metis snd_conv system.select_convs(1))
qed (use schema in simp_all)

context row_contract
begin

lemma rows_ingest_webhook: "keeps (all_rows P) (ingest_webhook dumps loads cfg env v body)"
  unfolding ingest_webhook_def by (intro keeps_intros rows_insert_raw_event)

lemma owned_tx: "all_rows P d \<Longrightarrow> held i d \<Longrightarrow> keeps (owned i) m \<Longrightarrow> all_rows P (snd (m d))"
  using keepsD [of "owned i" m d] by (simp add: owned_def held_def)

lemma step_rows:
  assumes "sys_step cx s s'" and schema: "schema_ok (sys_db s)" and rows: "all_rows P (sys_db s)"
    and tasks: "\<forall>t \<in> set (sys_tasks s). held (task_row t) (sys_db s)"
  shows "all_rows P (sys_db s')"
  using assms(1)
proof cases
  case (step_ingest env vendor body d out d' ts)
  with keepsD [OF rows_ingest_webhook rows] show ?thesis by (metis snd_conv system.select_convs(1))
next
  case (step_claim fault tie locked now d r d' ts)
  with rows_claim_one [OF schema rows, of tie locked now "max_attempts cx"]
  show ?thesis by (simp add: session_scope_returns)
next
  case (step_persist i ev ts env d d')
  with owned_tx [OF rows, of i] keeps_session_scope [OF owned_persist_loaded] tasks
  show ?thesis by (metis snd_conv system.select_convs task_row.simps(2))
next
  case (step_not_persisted i ev ts env d exc d')
  from session_scope_raises [OF step_not_persisted(4)] step_not_persisted rows show ?thesis by simp
next
  case (step_mark_failed i err ts fault d out d')
  with owned_tx [OF rows, of i] owned_mark_failed tasks
  show ?thesis by (metis snd_conv system.select_convs task_row.simps(3))
next
  case (step_reap fault now d out' d' ts)
  with keepsD [OF rows_reap_stale rows] show ?thesis by (metis snd_conv system.select_convs(1))
next
  case (step_acquire fault i now d p d' ts)
  then have "retry_acquire (cx_show cx) i now d = (Inr p, d')" by (simp add: session_scope_returns)
  with owned_acquired [OF _ _ this] schema rows step_acquire(1,2) show ?thesis by (simp add: owned_def)
next
  case (step_retry_persist i ev ts renv d d')
  with owned_tx [OF rows, of i] keeps_session_scope [OF owned_retry_persist] tasks
  show ?thesis by (metis snd_conv system.select_convs task_row.simps(5))
next
  case (step_retry_not_persisted i ev ts renv d exc d')
  from session_scope_raises [OF step_retry_not_persisted(4)] step_retry_not_persisted rows
  show ?thesis by simp
next
  case (step_record i exc ts fault d out'' d')
  with owned_tx [OF rows, of i] owned_retry_record tasks
  show ?thesis by (metis snd_conv system.select_convs task_row.simps(6))
qed (use rows in simp_all)

end

lemma step_base: "sys_step cx s s' \<Longrightarrow> sys_base s \<Longrightarrow> base_ok (sys_db s')"
  using step_schema link.step_rows unfolding sys_base_def base_ok_def by blast

lemma sys_base_step: "sys_step cx s s' \<Longrightarrow> sys_base s \<Longrightarrow> sys_base s'"
proof -
  assume step: "sys_step cx s s'" and base: "sys_base s"
  have "held (task_row t) (sys_db s')" if t: "t \<in> set (sys_tasks s')" for t
  proof -
    have "base_ok (sys_db s)" using base by (simp add: sys_base_def)
    from step_tasks [OF step this t] show ?thesis
    proof
      assume "\<exists>u \<in> set (sys_tasks s). task_row t = task_row u"
      with base have "held (task_row t) (sys_db s)" by (auto simp: sys_base_def)
      with change_held [OF step_change [OF step base]] base show ?thesis by (simp add: sys_base_def)
    qed
  qed
  with step_base [OF step base] show "sys_base s'" by (simp add: sys_base_def)
qed

lemma sys_base_reachable: "reachable cx s \<Longrightarrow> sys_base s"
proof (induction rule: reachable.induct)
  case reachable_initial
  then show ?case by (simp add: sys_base_def initial_system_def base_ok_empty)
next
  case (reachable_step s s')
  show ?case by (rule sys_base_step [OF reachable_step.hyps(2) reachable_step.IH])
qed

context row_contract
begin

lemma reachable_rows: "reachable cx s \<Longrightarrow> all_rows P (sys_db s)"
proof (induction rule: reachable.induct)
  case reachable_initial
  then show ?case by (simp add: initial_system_def all_rows_def empty_db_def)
next
  case (reachable_step s s')
  from sys_base_reachable [OF reachable_step.hyps(1)] show ?case
    by (intro step_rows [OF reachable_step.hyps(2) _ reachable_step.IH])
       (auto simp: sys_base_def base_ok_def)
qed

end

context db_invariant
begin

lemma change_keeps:
  assumes "change d d'" and "base_ok d" and "I d" and "schema_ok d'"
  shows "I d'"
  using assms(1)
proof cases
  case change_rows
  show ?thesis by (rule rows_changed [OF assms(2,3) change_rows assms(4)])
next
  case change_store
  show ?thesis by (rule stored [OF assms(2,3) change_store])
next
  case change_persist
  show ?thesis by (rule persisted [OF assms(2,3) change_persist])
qed

lemma step_keeps:
  assumes "sys_step cx s s'" and "sys_base s" and "I (sys_db s)"
  shows "I (sys_db s')"
proof (rule change_keeps [OF step_change [OF assms(1,2)] _ assms(3)])
  show "base_ok (sys_db s)" using assms(2) by (simp add: sys_base_def)
  show "schema_ok (sys_db s')" using sys_base_step [OF assms(1,2)] by (simp add: sys_base_def base_ok_def)
qed

lemma reachable_invariant: "reachable cx s \<Longrightarrow> I (sys_db s)"
proof (induction rule: reachable.induct)
  case reachable_initial
  then show ?case by (simp add: initial_system_def initial)
next
  case (reachable_step s s')
  show ?case
    by (rule step_keeps [OF reachable_step.hyps(2) sys_base_reachable [OF reachable_step.hyps(1)]
          reachable_step.IH])
qed

end

end
