(* ===== verification/Guarantees.thy ===== *)
theory Guarantees
  imports System
begin

text \<open>
  The invariants of the whole service as interpretations of \<open>db_invariant\<close>: deduplication, the
  consistency of the entity rows, the bound the history sets for the last event, and the fact that
  only primaries that were processed appear in a history.
\<close>

subsection \<open>Deduplication\<close>

lemma dedup_rows_kept:
  assumes "dedup_ok d" and "rows_kept d d'"
  shows "dedup_ok d'"
  unfolding dedup_ok_def
proof (intro ballI conjI allI impI)
  have rows: "list_all2 same_origin (raw_events d) (raw_events d')"
    using assms(2) by (simp add: rows_kept_def)
  fix r' assume "r' \<in> set (raw_events d')"
  from list_all2_second [OF rows this] obtain r
    where r: "r \<in> set (raw_events d)" "same_origin r r'" by blast
  with assms(1) show "(re_status r' = Duplicate) = (re_duplicate_of_id r' \<noteq> None)"
    by (simp add: dedup_ok_def same_origin_def)
  fix i assume "re_duplicate_of_id r' = Some i"
  with r(2) have "re_duplicate_of_id r = Some i" by (simp add: same_origin_def)
  with r(1) assms(1) have "\<exists>p \<in> set (primaries d). re_id p = i \<and> dedup_key p = dedup_key r"
    by (simp add: dedup_ok_def)
  then obtain p where p: "p \<in> set (primaries d)" "re_id p = i" "dedup_key p = dedup_key r" by blast
  then have "p \<in> set (raw_events d)" by (simp add: primaries_def)
  from list_all2_first [OF rows this] obtain p'
    where "p' \<in> set (raw_events d')" "same_origin p p'" by blast
  with p r(2) show "\<exists>p' \<in> set (primaries d'). re_id p' = i \<and> dedup_key p' = dedup_key r'"
    by (intro bexI [of _ p']) (auto simp: same_origin_def primaries_def is_primary_def dedup_key_def)
qed

lemma dedup_stored:
  "dedup_ok d \<Longrightarrow> insert_raw_event dumps id1 id2 t v p d = (Inr res, d') \<Longrightarrow> dedup_ok d'"
  using keepsD [OF dedup_insert_raw_event, of d dumps id1 id2 t v p] by simp

interpretation dedup: db_invariant dedup_ok
proof
  show "dedup_ok empty_db" by (rule dedup_ok_empty)
next
  fix d d' assume "dedup_ok d" "only_rows d d'"
  then show "dedup_ok d'" by (simp add: only_rows_def dedup_rows_kept)
next
  fix d d' dumps id1 id2 t v p res
  assume "dedup_ok d" "insert_raw_event dumps id1 id2 t v p d = (Inr res, d')"
  then show "dedup_ok d'" by (rule dedup_stored)
next
  fix d d' sc cfg now db_now eid vid raw e
  assume d: "base_ok d" "dedup_ok d" and held: "held (re_id raw) d"
    and run: "persist_normalized sc cfg now db_now eid vid raw e d = (Inr (), d')"
  show "dedup_ok d'" by (rule dedup_rows_kept [OF d(2) persist_keeps_rows [OF d(1) held run]])
qed

subsection \<open>Entity rows\<close>

lemma insert_keeps_tables:
  assumes "insert_raw_event dumps id1 id2 t v p d = (Inr res, d')"
  shows "entities k d' = entities k d" and "entity_events k d' = entity_events k d"
    and "\<exists>r. raw_events d' = raw_events d @ [r]"
  using assms by (cases rule: insert_raw_event_cases; simp)+

text \<open>An unclassified payload only marks its row.\<close>

lemma persist_unclassified_only_rows:
  assumes d: "base_ok d" and held: "held (re_id raw) d" and none: "payload_kind (ne_payload e) = None"
    and run: "persist_normalized sc cfg now db_now eid vid raw e d = (Inr (), d')"
  shows "only_rows d d'"
proof -
  from none obtain p where p: "ne_payload e = UnclassifiedPayload p" by (auto simp: payload_kind_None)
  from run have "entities k d' = entities k d \<and> entity_events k d' = entity_events k d" for k
    unfolding persist_normalized_unclassified [OF p] by (auto dest: update_raw_effect)
  with persist_keeps_rows [OF d held run] show ?thesis by (simp add: only_rows_def)
qed

lemma schema_stored:
  "schema_ok d \<Longrightarrow> insert_raw_event dumps id1 id2 t v p d = (Inr res, d') \<Longrightarrow> schema_ok d'"
  using keepsD [OF schema_insert_raw_event, of d dumps id1 id2 t v p] by simp

lemma projection_only_rows: "projection_ok d \<Longrightarrow> only_rows d d' \<Longrightarrow> schema_ok d' \<Longrightarrow> projection_ok d'"
  by (simp add: projection_ok_def only_rows_def)

interpretation entity_rows: db_invariant projection_ok
proof
  show "projection_ok empty_db"
    by (simp add: projection_ok_def schema_ok_empty all_kinds) (simp add: empty_db_def)
next
  fix d d' assume "projection_ok d" "only_rows d d'" "schema_ok d'"
  then show "projection_ok d'" by (rule projection_only_rows)
next
  fix d d' dumps id1 id2 t v p res
  assume "projection_ok d" and run: "insert_raw_event dumps id1 id2 t v p d = (Inr res, d')"
  then show "projection_ok d'"
    using schema_stored [OF _ run] by (simp add: projection_ok_def insert_keeps_tables(1) [OF run])
next
  fix d d' sc cfg now db_now eid vid raw e
  assume d: "base_ok d" and ok: "projection_ok d" and held: "held (re_id raw) d"
    and run: "persist_normalized sc cfg now db_now eid vid raw e d = (Inr (), d')"
  show "projection_ok d'"
  proof (cases "payload_kind (ne_payload e)")
    case None
    have "schema_ok d" using d by (simp add: base_ok_def)
    from schema_after_persist [OF this run] show ?thesis
      by (rule projection_only_rows [OF ok persist_unclassified_only_rows [OF d held None run]])
  next
    case (Some k)
    with payload_kind_external_ref obtain ref where "external_ref e = Some ref"
      by (auto simp: external_ref_def)
    from projection_ok_persist [OF ok run Some this] show ?thesis .
  qed
qed

subsection \<open>The history\<close>

lemma history_only_rows: "history_bound d \<Longrightarrow> only_rows d d' \<Longrightarrow> history_bound d'"
  by (simp add: history_bound_def only_rows_def)

interpretation last_event: db_invariant history_bound
proof
  show "history_bound empty_db" by (rule history_bound_empty)
next
  fix d d' assume "history_bound d" "only_rows d d'"
  then show "history_bound d'" by (rule history_only_rows)
next
  fix d d' dumps id1 id2 t v p res
  assume "history_bound d" and run: "insert_raw_event dumps id1 id2 t v p d = (Inr res, d')"
  then show "history_bound d'" by (simp add: history_bound_def insert_keeps_tables [OF run])
next
  fix d d' sc cfg now db_now eid vid raw e
  assume d: "base_ok d" and ok: "history_bound d" and held: "held (re_id raw) d"
    and run: "persist_normalized sc cfg now db_now eid vid raw e d = (Inr (), d')"
  show "history_bound d'"
  proof (cases "payload_kind (ne_payload e)")
    case None
    show ?thesis by (rule history_only_rows [OF ok persist_unclassified_only_rows [OF d held None run]])
  next
    case (Some k)
    with payload_kind_external_ref obtain ref where "external_ref e = Some ref"
      by (auto simp: external_ref_def)
    from history_bound_persist [OF _ ok run Some this] d show ?thesis by (simp add: base_ok_def)
  qed
qed

text \<open>Every history row comes from a primary that was processed.\<close>

definition logged_ok :: "db \<Rightarrow> bool" where
  "logged_ok d \<longleftrightarrow> (\<forall>k. \<forall>v \<in> set (entity_events k d). \<exists>r \<in> set (raw_events d).
     re_id r = ev_raw_event_id v \<and> is_primary r \<and> re_processed_at r \<noteq> None)"

definition has_log :: "uuid \<Rightarrow> db \<Rightarrow> bool" where
  "has_log i d \<longleftrightarrow> (\<exists>r \<in> set (raw_events d). re_id r = i \<and> is_primary r \<and> re_processed_at r \<noteq> None)"

lemma logged_has_log:
  "logged_ok d \<longleftrightarrow> (\<forall>k. \<forall>v \<in> set (entity_events k d). has_log (ev_raw_event_id v) d)"
  by (simp add: logged_ok_def has_log_def)

lemma has_log_kept:
  assumes "rows_kept d d'" and "has_log i d"
  shows "has_log i d'"
proof -
  from assms(2) obtain r where r: "r \<in> set (raw_events d)" "re_id r = i" "is_primary r" "re_processed_at r \<noteq> None"
    by (auto simp: has_log_def)
  from list_all2_first [OF assms(1) [unfolded rows_kept_def] r(1)] r(2-4) show ?thesis
    by (auto simp: has_log_def same_origin_def is_primary_def)
qed

lemma persisted_has_log:
  assumes "held (re_id raw) d" and "persist_normalized sc cfg now db_now eid vid raw e d = (Inr (), d')"
  shows "has_log (re_id raw) d'"
proof (rule persist_raw_row [OF assms(2)])
  fix info
  assume rows: "raw_events d' = row_update re_id (re_id raw) (mark_processed now info) (raw_events d)"
  from assms(1) obtain r where r: "r \<in> set (raw_events d)" "re_id r = re_id raw" "is_primary r"
    by (auto simp: held_def pinned_def)
  then have "mark_processed now info r \<in> set (raw_events d')" unfolding rows by (auto simp: row_update_def)
  with r show ?thesis
    unfolding has_log_def by (intro bexI [of _ "mark_processed now info r"]) (simp_all add: is_primary_def)
qed

lemma logged_only_rows:
  assumes "logged_ok d" and "only_rows d d'"
  shows "logged_ok d'"
  using assms has_log_kept [of d d'] by (auto simp: only_rows_def logged_has_log)

interpretation log: db_invariant logged_ok
proof
  show "logged_ok empty_db" by (simp add: logged_ok_def all_kinds) (simp add: empty_db_def)
next
  fix d d' assume "logged_ok d" "only_rows d d'"
  then show "logged_ok d'" by (rule logged_only_rows)
next
  fix d d' dumps id1 id2 t v p res
  assume ok: "logged_ok d" and run: "insert_raw_event dumps id1 id2 t v p d = (Inr res, d')"
  from insert_keeps_tables(3) [OF run] obtain r where "raw_events d' = raw_events d @ [r]" by blast
  with ok show "logged_ok d'" by (auto simp: logged_ok_def insert_keeps_tables(2) [OF run])
next
  fix d d' sc cfg now db_now eid vid raw e
  assume d: "base_ok d" and ok: "logged_ok d" and held: "held (re_id raw) d"
    and run: "persist_normalized sc cfg now db_now eid vid raw e d = (Inr (), d')"
  note kept = has_log_kept [OF persist_keeps_rows [OF d held run]]
  show "logged_ok d'"
  proof (cases "payload_kind (ne_payload e)")
    case None
    show ?thesis by (rule logged_only_rows [OF ok persist_unclassified_only_rows [OF d held None run]])
  next
    case (Some k)
    with payload_kind_external_ref obtain ref where ref: "external_ref e = Some ref"
      by (auto simp: external_ref_def)
    show ?thesis
    proof (rule persist_event_log [OF run Some ref])
      fix i
      assume k: "entity_events k d' = (if re_id raw \<in> ev_raw_event_id ` set (entity_events k d)
          then entity_events k d else entity_events k d @ [event_row sc db_now vid i (re_id raw) e])"
        and other: "\<And>k'. k' \<noteq> k \<Longrightarrow> entity_events k' d' = entity_events k' d"
      have "has_log (ev_raw_event_id v) d'" if "v \<in> set (entity_events k' d')" for k' v
      proof (cases "v \<in> set (entity_events k' d)")
        case True
        with ok show ?thesis by (intro kept) (auto simp: logged_has_log)
      next
        case False
        with that other k have "ev_raw_event_id v = re_id raw"
          by (cases "k' = k") (auto split: if_splits)
        with persisted_has_log [OF held run] show ?thesis by simp
      qed
      then show ?thesis by (simp add: logged_has_log)
    qed
  qed
qed

subsection \<open>The inbox is append-only\<close>

text \<open>No stored raw event is ever lost or altered in what was received.\<close>

lemma change_keeps_inbox:
  assumes "change d d'" and "base_ok d" and "r \<in> set (raw_events d)"
  shows "\<exists>r' \<in> set (raw_events d'). same_origin r r'"
  using assms(1)
proof cases
  case change_rows
  with list_all2_first assms(3) show ?thesis by (fastforce simp: only_rows_def rows_kept_def)
next
  case (change_store dumps id1 id2 t v p res)
  from insert_keeps_tables(3) [OF this] assms(3) show ?thesis by (auto intro: same_origin_refl)
next
  case change_persist
  from persist_keeps_rows [OF assms(2) change_persist(2,3)] list_all2_first assms(3) show ?thesis
    by (fastforce simp: rows_kept_def)
qed

end
