(* ===== verification/Migrations.thy ===== *)
theory Migrations
  imports Store
begin

text \<open>
  The Alembic migrations \<^verbatim>\<open>alembic/versions/0001_initial.py\<close>, \<^verbatim>\<open>0002\<close> and \<^verbatim>\<open>0003\<close> as lists of
  operations on a schema with data, and the metadata of \<^verbatim>\<open>app/core/models.py\<close> they lead to.

  An operation fails as Postgres does: on a missing or existing object, on a \<open>NOT NULL\<close> column
  without a default added to a table with rows, on a unique index or constraint the rows violate, and
  on dropping a table another one references. A row is an association list from columns to cells.
\<close>

subsection \<open>Schemas\<close>

datatype col_type = TUuid | TString nat | TJsonb | TTimestamptz | TInteger

datatype on_delete = NoAction | Cascade | SetNull

record column =
  col_name :: string
  col_type :: col_type
  col_nullable :: bool
  col_default :: "string option"
  col_primary_key :: bool
  col_references :: "(string \<times> string \<times> on_delete) option"

datatype row_pred = ColEquals string string | ColIsNull string

record index =
  ix_name :: string
  ix_columns :: "string list"
  ix_unique :: bool
  ix_where :: "row_pred option"

datatype cell = Null | Cell string

record table =
  tb_name :: string
  tb_columns :: "column list"
  tb_uniques :: "(string \<times> string list) list"
  tb_indexes :: "index list"
  tb_rows :: "(string \<times> cell) list list"

record schema =
  sc_extensions :: "string list"
  sc_tables :: "table list"

definition empty_schema :: schema where
  "empty_schema = \<lparr>sc_extensions = [], sc_tables = []\<rparr>"

subsection \<open>Operations\<close>

datatype operation =
    CreateExtension string
  | CreateTable table
  | DropTable string
  | CreateIndex string index
  | DropIndex string string
  | DropConstraint string string
  | DropColumn string string
  | AddColumn string column
  | CreateUnique string string "string list"

definition cell_of :: "(string \<times> cell) list \<Rightarrow> string \<Rightarrow> cell" where
  "cell_of r c = (case map_of r c of None \<Rightarrow> Null | Some x \<Rightarrow> x)"

fun satisfies :: "row_pred option \<Rightarrow> (string \<times> cell) list \<Rightarrow> bool" where
  "satisfies None r = True"
| "satisfies (Some (ColEquals c v)) r = (cell_of r c = Cell v)"
| "satisfies (Some (ColIsNull c)) r = (cell_of r c = Null)"

text \<open>Unique: among the rows the predicate selects, no two agree on the columns; a null agrees with nothing.\<close>

definition unique_keys :: "string list \<Rightarrow> row_pred option \<Rightarrow> (string \<times> cell) list list \<Rightarrow> bool" where
  "unique_keys cs p rows =
     distinct (filter (\<lambda>k. Null \<notin> set k) (map (\<lambda>r. map (cell_of r) cs) (filter (satisfies p) rows)))"

definition find_table :: "string \<Rightarrow> schema \<Rightarrow> table option" where
  "find_table n s = row_lookup tb_name (sc_tables s) n"

definition put_table :: "table \<Rightarrow> schema \<Rightarrow> schema" where
  "put_table t s = s\<lparr>sc_tables := row_update tb_name (tb_name t) (\<lambda>_. t) (sc_tables s)\<rparr>"

definition has_column :: "table \<Rightarrow> string \<Rightarrow> bool" where
  "has_column t c \<longleftrightarrow> c \<in> set (map col_name (tb_columns t))"

definition index_mentions :: "string \<Rightarrow> index \<Rightarrow> bool" where
  "index_mentions c ix \<longleftrightarrow> c \<in> set (ix_columns ix) \<or>
     (case ix_where ix of None \<Rightarrow> False | Some (ColEquals c' v) \<Rightarrow> c = c' | Some (ColIsNull c') \<Rightarrow> c = c')"

definition references :: "string \<Rightarrow> column \<Rightarrow> bool" where
  "references n c \<longleftrightarrow> (case col_references c of None \<Rightarrow> False | Some (t, _, _) \<Rightarrow> t = n)"

definition index_names :: "schema \<Rightarrow> string list" where
  "index_names s = concat (map (\<lambda>t. map ix_name (tb_indexes t)) (sc_tables s))"

definition refs_exist :: "schema \<Rightarrow> string \<Rightarrow> column \<Rightarrow> bool" where
  "refs_exist s self c \<longleftrightarrow>
     (case col_references c of None \<Rightarrow> True | Some (t, _, _) \<Rightarrow> t = self \<or> find_table t s \<noteq> None)"

definition on_table :: "string \<Rightarrow> schema \<Rightarrow> (table \<Rightarrow> string + table) \<Rightarrow> string + schema" where
  "on_table n s f =
     (case find_table n s of
        None \<Rightarrow> Inl ''UndefinedTable''
      | Some t \<Rightarrow> (case f t of Inl e \<Rightarrow> Inl e | Inr t' \<Rightarrow> Inr (put_table t' s)))"

fun run_op :: "operation \<Rightarrow> schema \<Rightarrow> string + schema" where
  "run_op (CreateExtension e) s =
     Inr (if e \<in> set (sc_extensions s) then s else s\<lparr>sc_extensions := sc_extensions s @ [e]\<rparr>)"
| "run_op (CreateTable t) s =
     (if find_table (tb_name t) s \<noteq> None then Inl ''DuplicateTable''
      else if \<not> list_all (refs_exist s (tb_name t)) (tb_columns t) then Inl ''UndefinedTable''
      else Inr (s\<lparr>sc_tables := sc_tables s @ [t]\<rparr>))"
| "run_op (DropTable n) s =
     (if find_table n s = None then Inl ''UndefinedTable''
      else if list_ex (\<lambda>t. tb_name t \<noteq> n \<and> list_ex (references n) (tb_columns t)) (sc_tables s)
        then Inl ''DependentObjectsStillExist''
      else Inr (s\<lparr>sc_tables := filter (\<lambda>t. tb_name t \<noteq> n) (sc_tables s)\<rparr>))"
| "run_op (CreateIndex n ix) s =
     on_table n s (\<lambda>t.
       if ix_name ix \<in> set (index_names s) then Inl ''DuplicateTable''
       else if \<not> list_all (has_column t) (ix_columns ix) then Inl ''UndefinedColumn''
       else if ix_unique ix \<and> \<not> unique_keys (ix_columns ix) (ix_where ix) (tb_rows t)
         then Inl ''UniqueViolation''
       else Inr (t\<lparr>tb_indexes := tb_indexes t @ [ix]\<rparr>))"
| "run_op (DropIndex i n) s =
     on_table n s (\<lambda>t.
       if i \<notin> set (map ix_name (tb_indexes t)) then Inl ''UndefinedObject''
       else Inr (t\<lparr>tb_indexes := filter (\<lambda>ix. ix_name ix \<noteq> i) (tb_indexes t)\<rparr>))"
| "run_op (DropConstraint c n) s =
     on_table n s (\<lambda>t.
       if c \<notin> set (map fst (tb_uniques t)) then Inl ''UndefinedObject''
       else Inr (t\<lparr>tb_uniques := filter (\<lambda>u. fst u \<noteq> c) (tb_uniques t)\<rparr>))"
| "run_op (DropColumn n c) s =
     on_table n s (\<lambda>t.
       if \<not> has_column t c then Inl ''UndefinedColumn''
       else Inr (t\<lparr>tb_columns := filter (\<lambda>x. col_name x \<noteq> c) (tb_columns t),
                   tb_uniques := filter (\<lambda>u. c \<notin> set (snd u)) (tb_uniques t),
                   tb_indexes := filter (\<lambda>ix. \<not> index_mentions c ix) (tb_indexes t),
                   tb_rows := map (filter (\<lambda>x. fst x \<noteq> c)) (tb_rows t)\<rparr>))"
| "run_op (AddColumn n c) s =
     on_table n s (\<lambda>t.
       if has_column t (col_name c) then Inl ''DuplicateColumn''
       else if \<not> refs_exist s n c then Inl ''UndefinedTable''
       else if \<not> col_nullable c \<and> col_default c = None \<and> tb_rows t \<noteq> [] then Inl ''NotNullViolation''
       else Inr (t\<lparr>tb_columns := tb_columns t @ [c],
                   tb_rows := map (\<lambda>r. r @ [(col_name c,
                     case col_default c of None \<Rightarrow> Null | Some v \<Rightarrow> Cell v)]) (tb_rows t)\<rparr>))"
| "run_op (CreateUnique u n cs) s =
     on_table n s (\<lambda>t.
       if u \<in> set (map fst (tb_uniques t)) then Inl ''DuplicateObject''
       else if \<not> list_all (has_column t) cs then Inl ''UndefinedColumn''
       else if \<not> unique_keys cs None (tb_rows t) then Inl ''UniqueViolation''
       else Inr (t\<lparr>tb_uniques := tb_uniques t @ [(u, cs)]\<rparr>))"

text \<open>A revision runs in one transaction: the first failure undoes it.\<close>

fun run_ops :: "operation list \<Rightarrow> schema \<Rightarrow> string + schema" where
  "run_ops [] s = Inr s"
| "run_ops (x # xs) s = (case run_op x s of Inl e \<Rightarrow> Inl e | Inr s' \<Rightarrow> run_ops xs s')"

lemma run_ops_append:
  "run_ops (xs @ ys) s = (case run_ops xs s of Inl e \<Rightarrow> Inl e | Inr s' \<Rightarrow> run_ops ys s')"
  by (induction xs arbitrary: s) (auto split: sum.split)

subsection \<open>Columns\<close>

definition column_of :: "string \<Rightarrow> col_type \<Rightarrow> bool \<Rightarrow> string option \<Rightarrow> column" where
  "column_of n ty nullable dflt =
     \<lparr>col_name = n, col_type = ty, col_nullable = nullable, col_default = dflt,
      col_primary_key = False, col_references = None\<rparr>"

definition id_column :: column where
  "id_column = (column_of ''id'' TUuid False (Some ''gen_random_uuid()''))\<lparr>col_primary_key := True\<rparr>"

definition reference_column :: "string \<Rightarrow> bool \<Rightarrow> string \<Rightarrow> on_delete \<Rightarrow> column" where
  "reference_column n nullable target od =
     (column_of n TUuid nullable None)\<lparr>col_references := Some (target, ''id'', od)\<rparr>"

definition new_table :: "string \<Rightarrow> column list \<Rightarrow> (string \<times> string list) list \<Rightarrow> table" where
  "new_table n cs us = \<lparr>tb_name = n, tb_columns = cs, tb_uniques = us, tb_indexes = [], tb_rows = []\<rparr>"

definition pending_index :: index where
  "pending_index = \<lparr>ix_name = ''ix_raw_events_pending'', ix_columns = [''status'', ''received_at''],
     ix_unique = False, ix_where = Some (ColEquals ''status'' ''pending'')\<rparr>"

definition plain_index :: "string \<Rightarrow> string list \<Rightarrow> index" where
  "plain_index n cs = \<lparr>ix_name = n, ix_columns = cs, ix_unique = False, ix_where = None\<rparr>"

definition primary_index :: index where
  "primary_index = \<lparr>ix_name = ''uq_raw_events_primary_per_hash'',
     ix_columns = [''vendor_hint'', ''hash_exact''], ix_unique = True,
     ix_where = Some (ColIsNull ''duplicate_of_id'')\<rparr>"

subsection \<open>Revision 0001\<close>

definition raw_events_0001 :: table where
  "raw_events_0001 = new_table ''raw_events''
     [id_column,
      column_of ''dedupe_key'' (TString 128) False None,
      column_of ''vendor_hint'' (TString 64) False None,
      column_of ''payload'' TJsonb False None,
      column_of ''received_at'' TTimestamptz False (Some ''now()''),
      column_of ''status'' (TString 16) False (Some ''pending''),
      column_of ''attempts'' TInteger False (Some ''0''),
      column_of ''last_error'' (TString 2048) True None,
      column_of ''locked_at'' TTimestamptz True None,
      column_of ''processed_at'' TTimestamptz True None]
     [(''uq_raw_events_dedupe_key'', [''dedupe_key''])]"

definition entity_table :: "string \<Rightarrow> string \<Rightarrow> table" where
  "entity_table n u = new_table n
     [id_column,
      column_of ''vendor'' (TString 64) False None,
      column_of ''external_ref'' (TString 128) False None,
      column_of ''current_state'' (TString 32) True None,
      column_of ''last_event_at'' TTimestamptz True None,
      column_of ''attributes'' TJsonb False (Some ''{}''),
      column_of ''created_at'' TTimestamptz False (Some ''now()''),
      column_of ''updated_at'' TTimestamptz False (Some ''now()'')]
     [(u, [''vendor'', ''external_ref''])]"

definition event_table :: "string \<Rightarrow> string \<Rightarrow> string \<Rightarrow> table" where
  "event_table n owner u = new_table n
     [id_column,
      reference_column ''entity_id'' False owner Cascade,
      reference_column ''raw_event_id'' False ''raw_events'' NoAction,
      column_of ''canonical_state'' (TString 32) False None,
      column_of ''event_at'' TTimestamptz False None,
      column_of ''vendor_milestone'' (TString 512) True None,
      column_of ''attributes'' TJsonb False (Some ''{}''),
      column_of ''created_at'' TTimestamptz False (Some ''now()'')]
     [(u, [''raw_event_id''])]"

definition upgrade_0001 :: "operation list" where
  "upgrade_0001 =
     [CreateExtension ''pgcrypto'',
      CreateTable raw_events_0001,
      CreateIndex ''raw_events'' pending_index,
      CreateTable (entity_table ''shipments'' ''uq_shipments_vendor_ref''),
      CreateTable (event_table ''shipment_events'' ''shipments'' ''uq_shipment_events_raw_event_id''),
      CreateIndex ''shipment_events'' (plain_index ''ix_shipment_events_entity_event_at''
        [''entity_id'', ''event_at'']),
      CreateTable (entity_table ''invoices'' ''uq_invoices_vendor_ref''),
      CreateTable (event_table ''invoice_events'' ''invoices'' ''uq_invoice_events_raw_event_id''),
      CreateIndex ''invoice_events'' (plain_index ''ix_invoice_events_entity_event_at''
        [''entity_id'', ''event_at''])]"

definition downgrade_0001 :: "operation list" where
  "downgrade_0001 =
     [DropIndex ''ix_invoice_events_entity_event_at'' ''invoice_events'',
      DropTable ''invoice_events'', DropTable ''invoices'',
      DropIndex ''ix_shipment_events_entity_event_at'' ''shipment_events'',
      DropTable ''shipment_events'', DropTable ''shipments'',
      DropIndex ''ix_raw_events_pending'' ''raw_events'',
      DropTable ''raw_events'']"

subsection \<open>Revisions 0002 and 0003\<close>

definition hash_column :: column where
  "hash_column = column_of ''hash_exact'' (TString 64) False None"

definition hash_index :: index where
  "hash_index = plain_index ''ix_raw_events_hash_exact_vendor'' [''vendor_hint'', ''hash_exact'']"

definition upgrade_0002 :: "operation list" where
  "upgrade_0002 =
     [DropIndex ''ix_raw_events_pending'' ''raw_events'',
      DropConstraint ''uq_raw_events_dedupe_key'' ''raw_events'',
      DropColumn ''raw_events'' ''dedupe_key'',
      AddColumn ''raw_events'' hash_column,
      AddColumn ''raw_events'' (reference_column ''duplicate_of_id'' True ''raw_events'' SetNull),
      CreateIndex ''raw_events'' pending_index,
      CreateIndex ''raw_events'' hash_index]"

definition downgrade_0002 :: "operation list" where
  "downgrade_0002 =
     [DropIndex ''ix_raw_events_hash_exact_vendor'' ''raw_events'',
      DropIndex ''ix_raw_events_pending'' ''raw_events'',
      DropColumn ''raw_events'' ''duplicate_of_id'',
      DropColumn ''raw_events'' ''hash_exact'',
      AddColumn ''raw_events'' (column_of ''dedupe_key'' (TString 128) False None),
      CreateUnique ''uq_raw_events_dedupe_key'' ''raw_events'' [''dedupe_key''],
      CreateIndex ''raw_events'' pending_index]"

definition upgrade_0003 :: "operation list" where
  "upgrade_0003 =
     [DropIndex ''ix_raw_events_hash_exact_vendor'' ''raw_events'',
      CreateIndex ''raw_events'' primary_index]"

definition downgrade_0003 :: "operation list" where
  "downgrade_0003 =
     [DropIndex ''uq_raw_events_primary_per_hash'' ''raw_events'',
      CreateIndex ''raw_events'' hash_index]"

text \<open>
  The revisions, each with the one it follows. An upgrade follows these links from the version the
  database has recorded, a downgrade follows them back; \<^verbatim>\<open>alembic/env.py\<close> runs the whole path in one
  transaction, in which Postgres rolls back its DDL too.
\<close>

record revision =
  rev_id :: string
  rev_down :: "string option"
  rev_upgrade :: "operation list"
  rev_downgrade :: "operation list"

definition revisions :: "revision list" where
  "revisions =
     [\<lparr>rev_id = ''0003'', rev_down = Some ''0002'', rev_upgrade = upgrade_0003, rev_downgrade = downgrade_0003\<rparr>,
      \<lparr>rev_id = ''0001'', rev_down = None, rev_upgrade = upgrade_0001, rev_downgrade = downgrade_0001\<rparr>,
      \<lparr>rev_id = ''0002'', rev_down = Some ''0001'', rev_upgrade = upgrade_0002, rev_downgrade = downgrade_0002\<rparr>]"

fun upgrades_from :: "nat \<Rightarrow> string option \<Rightarrow> revision list" where
  "upgrades_from 0 v = []"
| "upgrades_from (Suc n) v =
     (case List.find (\<lambda>r. rev_down r = v) revisions of
        None \<Rightarrow> []
      | Some r \<Rightarrow> r # upgrades_from n (Some (rev_id r)))"

fun downgrades_from :: "nat \<Rightarrow> string option \<Rightarrow> revision list" where
  "downgrades_from 0 v = []"
| "downgrades_from (Suc n) v =
     (case List.find (\<lambda>r. Some (rev_id r) = v) revisions of
        None \<Rightarrow> []
      | Some r \<Rightarrow> r # downgrades_from n (rev_down r))"

record migration_db =
  mg_schema :: schema
  mg_version :: "string option"

definition run_migrations ::
    "operation list \<Rightarrow> string option \<Rightarrow> migration_db \<Rightarrow> (string + unit) \<times> migration_db" where
  "run_migrations ops version m =
     (case run_ops ops (mg_schema m) of
        Inl e \<Rightarrow> (Inl e, m)
      | Inr s \<Rightarrow> (Inr (), \<lparr>mg_schema = s, mg_version = version\<rparr>))"

definition upgrade_to_head :: "migration_db \<Rightarrow> (string + unit) \<times> migration_db" where
  "upgrade_to_head m =
     (let path = upgrades_from (length revisions) (mg_version m) in
      run_migrations (concat (map rev_upgrade path))
        (if path = [] then mg_version m else Some (rev_id (last path))) m)"

definition downgrade_to_base :: "migration_db \<Rightarrow> (string + unit) \<times> migration_db" where
  "downgrade_to_base m =
     run_migrations (concat (map rev_downgrade (downgrades_from (length revisions) (mg_version m)))) None m"

definition upgrade_head :: "operation list" where
  "upgrade_head = concat (map rev_upgrade (upgrades_from (length revisions) None))"

lemma paths:
  "map rev_id (upgrades_from (length revisions) None) = [''0001'', ''0002'', ''0003'']"
  "map rev_id (upgrades_from (length revisions) (Some ''0001'')) = [''0002'', ''0003'']"
  "map rev_id (upgrades_from (length revisions) (Some ''0002'')) = [''0003'']"
  "upgrades_from (length revisions) (Some ''0003'') = []"
  "map rev_id (downgrades_from (length revisions) (Some ''0003'')) = [''0003'', ''0002'', ''0001'']"
  by code_simp+

lemma run_migrations_atomic: "run_migrations ops v m = (Inl e, m') \<Longrightarrow> m' = m"
  by (auto simp: run_migrations_def split: sum.splits)

subsection \<open>The metadata of the models\<close>

definition raw_event_model :: table where
  "raw_event_model = (new_table ''raw_events''
     [id_column,
      column_of ''vendor_hint'' (TString 64) False None,
      column_of ''payload'' TJsonb False None,
      column_of ''received_at'' TTimestamptz False (Some ''now()''),
      column_of ''hash_exact'' (TString 64) False None,
      reference_column ''duplicate_of_id'' True ''raw_events'' SetNull,
      column_of ''status'' (TString 16) False (Some ''pending''),
      column_of ''attempts'' TInteger False (Some ''0''),
      column_of ''last_error'' (TString 2048) True None,
      column_of ''locked_at'' TTimestamptz True None,
      column_of ''processed_at'' TTimestamptz True None]
     [])\<lparr>tb_indexes := [pending_index, primary_index]\<rparr>"

definition entity_model :: "string \<Rightarrow> string \<Rightarrow> table" where
  "entity_model n u = new_table n
     [id_column,
      column_of ''vendor'' (TString 64) False None,
      column_of ''external_ref'' (TString 128) False None,
      column_of ''current_state'' (TString 32) True None,
      column_of ''last_event_at'' TTimestamptz True None,
      column_of ''attributes'' TJsonb False (Some ''{}''),
      column_of ''created_at'' TTimestamptz False (Some ''now()''),
      column_of ''updated_at'' TTimestamptz False (Some ''now()'')]
     [(u, [''vendor'', ''external_ref''])]"

definition event_model :: "string \<Rightarrow> string \<Rightarrow> string \<Rightarrow> table" where
  "event_model n owner ix = (new_table n
     [id_column,
      reference_column ''entity_id'' False owner Cascade,
      reference_column ''raw_event_id'' False ''raw_events'' NoAction,
      column_of ''canonical_state'' (TString 32) False None,
      column_of ''event_at'' TTimestamptz False None,
      column_of ''vendor_milestone'' (TString 512) True None,
      column_of ''attributes'' TJsonb False (Some ''{}''),
      column_of ''created_at'' TTimestamptz False (Some ''now()'')]
     [(''raw_event_id'', [''raw_event_id''])])
     \<lparr>tb_indexes := [plain_index ix [''entity_id'', ''event_at'']]\<rparr>"

definition models :: "table list" where
  "models =
     [raw_event_model,
      entity_model ''shipments'' ''uq_shipments_vendor_ref'',
      event_model ''shipment_events'' ''shipments'' ''ix_shipment_events_entity_event_at'',
      entity_model ''invoices'' ''uq_invoices_vendor_ref'',
      event_model ''invoice_events'' ''invoices'' ''ix_invoice_events_entity_event_at'']"

text \<open>
  Two tables describe the same relation: same name, same columns in any order, same unique column
  lists whatever the constraints are called, same indexes.
\<close>

definition same_table :: "table \<Rightarrow> table \<Rightarrow> bool" where
  "same_table a b \<longleftrightarrow>
     tb_name a = tb_name b \<and>
     length (tb_columns a) = length (tb_columns b) \<and>
     list_all (\<lambda>c. c \<in> set (tb_columns b)) (tb_columns a) \<and>
     list_all (\<lambda>c. c \<in> set (tb_columns a)) (tb_columns b) \<and>
     map snd (tb_uniques a) = map snd (tb_uniques b) \<and>
     tb_indexes a = tb_indexes b"

subsection \<open>Migrating a database with rows\<close>

definition with_rows :: "string \<Rightarrow> (string \<times> cell) list list \<Rightarrow> schema \<Rightarrow> schema" where
  "with_rows n rows s = s\<lparr>sc_tables := row_update tb_name n (tb_rows_update (\<lambda>_. rows)) (sc_tables s)\<rparr>"

definition schema_at :: "operation list \<Rightarrow> schema" where
  "schema_at ops = (case run_ops ops empty_schema of Inl e \<Rightarrow> empty_schema | Inr s \<Rightarrow> s)"

text \<open>The columns of a raw event that indexes and constraints look at, as cells.\<close>

definition raw_row :: "(uuid \<Rightarrow> string) \<Rightarrow> raw_event \<Rightarrow> (string \<times> cell) list" where
  "raw_row sh r =
     [(''id'', Cell (sh (re_id r))), (''vendor_hint'', Cell (re_vendor_hint r)),
      (''hash_exact'', Cell (re_hash_exact r)),
      (''duplicate_of_id'', case re_duplicate_of_id r of None \<Rightarrow> Null | Some i \<Rightarrow> Cell (sh i)),
      (''status'', Cell (status_text (re_status r)))]"

lemma raw_row_cells:
  "cell_of (raw_row sh r) ''vendor_hint'' = Cell (re_vendor_hint r)"
  "cell_of (raw_row sh r) ''hash_exact'' = Cell (re_hash_exact r)"
  "cell_of (raw_row sh r) ''duplicate_of_id'' = Null \<longleftrightarrow> is_primary r"
  by (simp_all add: cell_of_def raw_row_def is_primary_def split: option.split)

text \<open>The partial unique index holds of rows exactly when no two primaries share their key.\<close>

lemma primary_index_holds:
  "unique_keys (ix_columns primary_index) (ix_where primary_index) (map (raw_row sh) rs) \<longleftrightarrow>
     distinct (map dedup_key (filter is_primary rs))"
proof -
  let ?key = "\<lambda>k. [Cell (fst k), Cell (snd k :: string)]"
  have cells: "map (cell_of (raw_row sh r)) [''vendor_hint'', ''hash_exact''] = ?key (dedup_key r)" for r
    by (simp only: list.map raw_row_cells) (simp add: dedup_key_def)
  have "filter (satisfies (Some (ColIsNull ''duplicate_of_id''))) (map (raw_row sh) rs) =
      map (raw_row sh) (filter is_primary rs)"
    by (induction rs) (simp_all only: list.map filter.simps satisfies.simps raw_row_cells, simp_all)
  then have "map (\<lambda>r. map (cell_of r) [''vendor_hint'', ''hash_exact''])
      (filter (satisfies (Some (ColIsNull ''duplicate_of_id''))) (map (raw_row sh) rs)) =
      map ?key (map dedup_key (filter is_primary rs))"
    by (simp only: map_map o_def cells)
  moreover have "filter (\<lambda>k. Null \<notin> set k) (map ?key ks) = map ?key ks" for ks
    by (induction ks) auto
  moreover have "distinct (map ?key ks) = distinct ks" for ks
    by (simp add: distinct_map inj_on_def prod_eq_iff)
  ultimately show ?thesis by (simp only: unique_keys_def primary_index_def index.simps)
qed

text \<open>The structural part of an operation does not look at the rows.\<close>

lemma find_table_with_rows:
  "find_table m (with_rows n rows s) =
     map_option (\<lambda>t. if m = n then t\<lparr>tb_rows := rows\<rparr> else t) (find_table m s)"
  by (simp add: find_table_def with_rows_def row_lookup_update) (cases "row_lookup tb_name (sc_tables s) m"; simp)

lemma index_names_with_rows [simp]: "index_names (with_rows n rows s) = index_names s"
proof -
  have "map (\<lambda>t. map ix_name (tb_indexes t)) (row_update tb_name n (tb_rows_update (\<lambda>_. rows)) ts) =
      map (\<lambda>t. map ix_name (tb_indexes t)) ts" for ts
    by (induction ts) (auto simp: row_update_def)
  from this [of "sc_tables s"] show ?thesis by (simp add: index_names_def with_rows_def)
qed

lemma put_table_with_rows:
  assumes "tb_name t = n"
  shows "put_table (t\<lparr>tb_rows := rows\<rparr>) (with_rows n rows s) = with_rows n rows (put_table t s)"
proof -
  have "row_update tb_name n (\<lambda>_. t\<lparr>tb_rows := rows\<rparr>) (row_update tb_name n (tb_rows_update (\<lambda>_. rows)) ts) =
      row_update tb_name n (tb_rows_update (\<lambda>_. rows)) (row_update tb_name n (\<lambda>_. t) ts)" for ts
    using assms by (simp add: row_update_def)
  with assms show ?thesis by (simp add: put_table_def with_rows_def)
qed

lemma find_table_name: "find_table n s = Some t \<Longrightarrow> tb_name t = n"
  unfolding find_table_def by (drule row_lookup_Some) simp

lemma put_indexes_with_rows:
  assumes "tb_name t = n"
  shows "put_table (t\<lparr>tb_rows := rows, tb_indexes := ixs\<rparr>) (with_rows n rows s) =
    with_rows n rows (put_table (t\<lparr>tb_indexes := ixs\<rparr>) s)"
  using put_table_with_rows [of "t\<lparr>tb_indexes := ixs\<rparr>" n rows s] assms by (cases t) simp

lemma has_column_rows [simp]: "has_column (t\<lparr>tb_rows := rows\<rparr>) = has_column t"
  by (simp add: has_column_def fun_eq_iff)

lemma drop_index_with_rows:
  assumes "run_op (DropIndex i n) s = Inr s'"
  shows "run_op (DropIndex i n) (with_rows n rows s) = Inr (with_rows n rows s')"
proof (cases "find_table n s")
  case None
  with assms show ?thesis by (simp add: on_table_def)
next
  case (Some t)
  with assms find_table_name [OF Some] show ?thesis
    by (auto simp: on_table_def find_table_with_rows put_indexes_with_rows split: if_splits)
qed

lemma create_index_with_rows:
  assumes "run_op (CreateIndex n (ix\<lparr>ix_unique := False\<rparr>)) s = Inr s'"
  shows "run_op (CreateIndex n ix) (with_rows n rows s) =
    (if ix_unique ix \<and> \<not> unique_keys (ix_columns ix) (ix_where ix) rows then Inl ''UniqueViolation''
     else Inr (with_rows n rows (put_table ((the (find_table n s))\<lparr>tb_indexes :=
       tb_indexes (the (find_table n s)) @ [ix]\<rparr>) s)))"
proof (cases "find_table n s")
  case None
  with assms show ?thesis by (simp add: on_table_def)
next
  case (Some t)
  from Some assms find_table_name [OF Some] show ?thesis
    by (auto simp: on_table_def find_table_with_rows put_indexes_with_rows split: if_splits)
qed

lemma upgrade_0003_rows:
  "(\<exists>s. run_ops upgrade_0003 (with_rows ''raw_events'' (map (raw_row sh) rs)
          (schema_at (upgrade_0001 @ upgrade_0002))) = Inr s) \<longleftrightarrow>
   distinct (map dedup_key (filter is_primary rs))"
proof -
  let ?s = "schema_at (upgrade_0001 @ upgrade_0002)"
  let ?rows = "map (raw_row sh) rs"
  have ex: "case run_op (DropIndex ''ix_raw_events_hash_exact_vendor'' ''raw_events'') ?s of
      Inl _ \<Rightarrow> False
    | Inr s \<Rightarrow> (case run_op (CreateIndex ''raw_events'' (primary_index\<lparr>ix_unique := False\<rparr>)) s of
        Inl _ \<Rightarrow> False | Inr _ \<Rightarrow> True)"
    by code_simp
  obtain s1 where s1: "run_op (DropIndex ''ix_raw_events_hash_exact_vendor'' ''raw_events'') ?s = Inr s1"
    using ex by (simp split: sum.splits)
  with ex obtain s2 where
    s2: "run_op (CreateIndex ''raw_events'' (primary_index\<lparr>ix_unique := False\<rparr>)) s1 = Inr s2"
    by (simp split: sum.splits)
  have "ix_unique primary_index" by (simp add: primary_index_def)
  then show ?thesis
    unfolding upgrade_0003_def run_ops.simps drop_index_with_rows [OF s1] sum.case
      create_index_with_rows [OF s2] primary_index_holds by simp
qed

subsection \<open>The widths the statements check\<close>

definition width_of :: "table list \<Rightarrow> string \<Rightarrow> string \<Rightarrow> nat option" where
  "width_of ts n c =
     (case row_lookup tb_name ts n of
        None \<Rightarrow> None
      | Some t \<Rightarrow> (case row_lookup col_name (tb_columns t) c of
          None \<Rightarrow> None
        | Some x \<Rightarrow> (case col_type x of TString w \<Rightarrow> Some w | _ \<Rightarrow> None)))"

definition fits_column :: "table list \<Rightarrow> string \<Rightarrow> string \<Rightarrow> string option \<Rightarrow> bool" where
  "fits_column ts n c v = (case width_of ts n c of None \<Rightarrow> True | Some w \<Rightarrow> varchar_opt w v)"

lemma model_widths:
  "width_of models ''raw_events'' ''vendor_hint'' = Some 64"
  "width_of models ''raw_events'' ''hash_exact'' = Some 64"
  "width_of models ''raw_events'' ''status'' = Some 16"
  "width_of models ''raw_events'' ''last_error'' = Some 2048"
  "width_of models ''shipments'' ''vendor'' = Some 64"
  "width_of models ''shipments'' ''external_ref'' = Some 128"
  "width_of models ''shipments'' ''current_state'' = Some 32"
  "width_of models ''invoices'' ''vendor'' = Some 64"
  "width_of models ''invoices'' ''external_ref'' = Some 128"
  "width_of models ''invoices'' ''current_state'' = Some 32"
  "width_of models ''shipment_events'' ''canonical_state'' = Some 32"
  "width_of models ''shipment_events'' ''vendor_milestone'' = Some 512"
  "width_of models ''invoice_events'' ''canonical_state'' = Some 32"
  "width_of models ''invoice_events'' ''vendor_milestone'' = Some 512"
  by code_simp+

fun entity_table_name :: "entity_kind \<Rightarrow> string" where
  "entity_table_name ShipmentKind = ''shipments''"
| "entity_table_name InvoiceKind = ''invoices''"

fun event_table_name :: "entity_kind \<Rightarrow> string" where
  "event_table_name ShipmentKind = ''shipment_events''"
| "event_table_name InvoiceKind = ''invoice_events''"

end
