(* ===== verification/Alembic.thy ===== *)
theory Alembic
  imports Migrations
begin

text \<open>
  \<^verbatim>\<open>alembic/env.py\<close>: how a migration is run. Online, an engine is created, one connection runs the operations
  in one transaction, and the engine is disposed of afterwards, though not when the connection or the
  migration fails. Offline, nothing is connected to: the operations are written out as a script, starting
  from an empty database. \<open>connect\<close> is the failure to connect, if there is one.
\<close>

record alembic =
  al_db :: migration_db
  al_script :: "operation list"
  al_open_engines :: nat

definition run_migrations_offline :: "operation list \<Rightarrow> alembic \<Rightarrow> (string + unit) \<times> alembic" where
  "run_migrations_offline ops a = (Inr (), a\<lparr>al_script := al_script a @ ops\<rparr>)"

definition do_run_migrations ::
    "operation list \<Rightarrow> string option \<Rightarrow> alembic \<Rightarrow> (string + unit) \<times> alembic" where
  "do_run_migrations ops version a =
     (let (out, m) = run_migrations ops version (al_db a) in (out, a\<lparr>al_db := m\<rparr>))"

definition run_migrations_online ::
    "string option \<Rightarrow> operation list \<Rightarrow> string option \<Rightarrow> alembic \<Rightarrow> (string + unit) \<times> alembic" where
  "run_migrations_online connect ops version a =
     (let a1 = a\<lparr>al_open_engines := al_open_engines a + 1\<rparr> in
      case connect of
        Some e \<Rightarrow> (Inl e, a1)
      | None \<Rightarrow>
          (case do_run_migrations ops version a1 of
             (Inl e, a2) \<Rightarrow> (Inl e, a2)
           | (Inr u, a2) \<Rightarrow> (Inr u, a2\<lparr>al_open_engines := al_open_engines a2 - 1\<rparr>)))"

text \<open>\<open>alembic upgrade head\<close>, with or without \<^verbatim>\<open>--sql\<close>.\<close>

definition alembic_upgrade :: "bool \<Rightarrow> string option \<Rightarrow> alembic \<Rightarrow> (string + unit) \<times> alembic" where
  "alembic_upgrade offline connect a =
     (let start = (if offline then None else mg_version (al_db a));
          path = upgrades_from (length revisions) start;
          ops = concat (map rev_upgrade path);
          version = (if path = [] then start else Some (rev_id (last path)))
      in if offline then run_migrations_offline ops a else run_migrations_online connect ops version a)"

definition empty_migration_db :: migration_db where
  "empty_migration_db = \<lparr>mg_schema = empty_schema, mg_version = None\<rparr>"

subsection \<open>What the two modes do\<close>

lemma alembic_online:
  assumes "upgrade_to_head (al_db a) = (out, m)"
  shows "alembic_upgrade False None a =
    (out, a\<lparr>al_db := m, al_open_engines := (case out of Inl e \<Rightarrow> al_open_engines a + 1 | Inr u \<Rightarrow> al_open_engines a)\<rparr>)"
  using assms
  by (cases out)
     (simp_all add: alembic_upgrade_def run_migrations_online_def do_run_migrations_def upgrade_to_head_def Let_def)

lemma alembic_offline: "alembic_upgrade True connect a = (Inr (), a\<lparr>al_script := al_script a @ upgrade_head\<rparr>)"
  by (simp add: alembic_upgrade_def run_migrations_offline_def upgrade_head_def)

text \<open>A failed migration leaves the database as it was.\<close>

lemma alembic_atomic:
  "alembic_upgrade offline connect a = (Inl e, a') \<Longrightarrow> al_db a' = al_db a \<and> al_script a' = al_script a"
  by (auto simp: alembic_upgrade_def run_migrations_offline_def run_migrations_online_def do_run_migrations_def
      Let_def dest: run_migrations_atomic split: option.splits prod.splits sum.splits if_splits)

lemma upgrade_from_empty:
  "upgrade_to_head empty_migration_db = (Inr (), m) \<Longrightarrow> run_ops upgrade_head empty_schema = Inr (mg_schema m)"
  by (auto simp: upgrade_to_head_def upgrade_head_def run_migrations_def empty_migration_db_def Let_def
      split: sum.splits)

end
