(* ===== verification/Hash_Example.thy ===== *)
theory Hash_Example
  imports Hashing
begin

unbundle bit_operations_syntax

text \<open>
  A known answer: the SHA-256 of the text \<^verbatim>\<open>{"a":1,"b":2}\<close>, computed
  from the definitions of \<open>Hashing\<close>. The message schedule and the rounds are evaluated on 32-bit words.
\<close>

lemma replicate_numeral: "replicate (numeral n) x = x # replicate (pred_numeral n) x"
  by (simp add: numeral_eq_Suc)

text \<open>Sums of words are reduced as they arise.\<close>

lemma word_of_int_mod_w32: "(word_of_int (k mod 4294967296) :: w32) = word_of_int k"
proof -
  have "(word_of_int (take_bit 32 k) :: w32) = word_of_int k" by (simp add: word_of_int_eq_iff)
  then show ?thesis by (simp add: take_bit_eq_mod)
qed

lemma w32_reduce:
  "4294967296 \<le> (numeral n :: int) \<Longrightarrow> (numeral n :: w32) = word_of_int (numeral n mod 4294967296)"
  unfolding word_of_int_mod_w32 by simp

lemmas evaluate = Let_def rotr_def w32_reduce

subsection \<open>The message schedule\<close>

lemma example_words:
  "be_words (sha_pad [123, 34, 97, 34, 58, 49, 44, 34, 98, 34, 58, 50, 125]) =
    [2065850658, 976301090, 1646410290, 2105540608, 0, 0, 0, 0, 0, 0, 0, 0, 0, 0, 0, 104]"
  by (simp add: sha_pad_def upt_conv_Cons replicate_numeral)

text \<open>Eight words at a time.\<close>

lemma extend_8:
  "sha_extend (8 + n) ws = sha_extend (Suc (Suc (Suc (Suc (Suc (Suc (Suc (Suc n)))))))) ws"
proof -
  have "8 + n = Suc (Suc (Suc (Suc (Suc (Suc (Suc (Suc n)))))))" by simp
  then show ?thesis by (rule arg_cong)
qed

lemma example_schedule_1:
  "sha_extend (8 + n)
    [2065850658, 976301090, 1646410290, 2105540608, 0, 0, 0, 0, 0, 0, 0, 0, 0, 0, 0, 104] =
   sha_extend n
    [2065850658, 976301090, 1646410290, 2105540608, 0, 0, 0, 0, 0, 0, 0, 0, 0, 0, 0, 104,
    2203921010, 544655324, 2714050593, 949848452, 876385682, 1979497535, 3631633444, 1289901536]"
  by (simp add: extend_8 evaluate cong: let_weak_cong)

lemma example_schedule_2:
  "sha_extend (8 + n)
    [2065850658, 976301090, 1646410290, 2105540608, 0, 0, 0, 0, 0, 0, 0, 0, 0, 0, 0, 104,
    2203921010, 544655324, 2714050593, 949848452, 876385682, 1979497535, 3631633444, 1289901536] =
   sha_extend n
    [2065850658, 976301090, 1646410290, 2105540608, 0, 0, 0, 0, 0, 0, 0, 0, 0, 0, 0, 104,
    2203921010, 544655324, 2714050593, 949848452, 876385682, 1979497535, 3631633444, 1289901536,
    18330236, 35927961, 1745833673, 3514547693, 3299104532, 2180341921, 3193317824, 3714973773]"
  by (simp add: extend_8 evaluate cong: let_weak_cong)

lemma example_schedule_3:
  "sha_extend (8 + n)
    [2065850658, 976301090, 1646410290, 2105540608, 0, 0, 0, 0, 0, 0, 0, 0, 0, 0, 0, 104,
    2203921010, 544655324, 2714050593, 949848452, 876385682, 1979497535, 3631633444, 1289901536,
    18330236, 35927961, 1745833673, 3514547693, 3299104532, 2180341921, 3193317824, 3714973773] =
   sha_extend n
    [2065850658, 976301090, 1646410290, 2105540608, 0, 0, 0, 0, 0, 0, 0, 0, 0, 0, 0, 104,
    2203921010, 544655324, 2714050593, 949848452, 876385682, 1979497535, 3631633444, 1289901536,
    18330236, 35927961, 1745833673, 3514547693, 3299104532, 2180341921, 3193317824, 3714973773,
    1697807583, 1745972084, 1378972850, 2644247678, 2859047094, 2124542124, 298388415, 2368783653]"
  by (simp add: extend_8 evaluate cong: let_weak_cong)

lemma example_schedule_4:
  "sha_extend (8 + n)
    [2065850658, 976301090, 1646410290, 2105540608, 0, 0, 0, 0, 0, 0, 0, 0, 0, 0, 0, 104,
    2203921010, 544655324, 2714050593, 949848452, 876385682, 1979497535, 3631633444, 1289901536,
    18330236, 35927961, 1745833673, 3514547693, 3299104532, 2180341921, 3193317824, 3714973773,
    1697807583, 1745972084, 1378972850, 2644247678, 2859047094, 2124542124, 298388415, 2368783653] =
   sha_extend n
    [2065850658, 976301090, 1646410290, 2105540608, 0, 0, 0, 0, 0, 0, 0, 0, 0, 0, 0, 104,
    2203921010, 544655324, 2714050593, 949848452, 876385682, 1979497535, 3631633444, 1289901536,
    18330236, 35927961, 1745833673, 3514547693, 3299104532, 2180341921, 3193317824, 3714973773,
    1697807583, 1745972084, 1378972850, 2644247678, 2859047094, 2124542124, 298388415, 2368783653,
    1299956900, 449746081, 3480762818, 964716451, 1782992581, 4021309255, 975954991, 2260114780]"
  by (simp add: extend_8 evaluate cong: let_weak_cong)

lemma example_schedule_5:
  "sha_extend (8 + n)
    [2065850658, 976301090, 1646410290, 2105540608, 0, 0, 0, 0, 0, 0, 0, 0, 0, 0, 0, 104,
    2203921010, 544655324, 2714050593, 949848452, 876385682, 1979497535, 3631633444, 1289901536,
    18330236, 35927961, 1745833673, 3514547693, 3299104532, 2180341921, 3193317824, 3714973773,
    1697807583, 1745972084, 1378972850, 2644247678, 2859047094, 2124542124, 298388415, 2368783653,
    1299956900, 449746081, 3480762818, 964716451, 1782992581, 4021309255, 975954991, 2260114780] =
   sha_extend n
    [2065850658, 976301090, 1646410290, 2105540608, 0, 0, 0, 0, 0, 0, 0, 0, 0, 0, 0, 104,
    2203921010, 544655324, 2714050593, 949848452, 876385682, 1979497535, 3631633444, 1289901536,
    18330236, 35927961, 1745833673, 3514547693, 3299104532, 2180341921, 3193317824, 3714973773,
    1697807583, 1745972084, 1378972850, 2644247678, 2859047094, 2124542124, 298388415, 2368783653,
    1299956900, 449746081, 3480762818, 964716451, 1782992581, 4021309255, 975954991, 2260114780,
    3450673125, 142408787, 2760257627, 129538062, 2737557944, 1456109818, 2537050753, 2121419887]"
  by (simp add: extend_8 evaluate cong: let_weak_cong)

lemma example_schedule_6:
  "sha_extend (8 + n)
    [2065850658, 976301090, 1646410290, 2105540608, 0, 0, 0, 0, 0, 0, 0, 0, 0, 0, 0, 104,
    2203921010, 544655324, 2714050593, 949848452, 876385682, 1979497535, 3631633444, 1289901536,
    18330236, 35927961, 1745833673, 3514547693, 3299104532, 2180341921, 3193317824, 3714973773,
    1697807583, 1745972084, 1378972850, 2644247678, 2859047094, 2124542124, 298388415, 2368783653,
    1299956900, 449746081, 3480762818, 964716451, 1782992581, 4021309255, 975954991, 2260114780,
    3450673125, 142408787, 2760257627, 129538062, 2737557944, 1456109818, 2537050753, 2121419887] =
   sha_extend n
    [2065850658, 976301090, 1646410290, 2105540608, 0, 0, 0, 0, 0, 0, 0, 0, 0, 0, 0, 104,
    2203921010, 544655324, 2714050593, 949848452, 876385682, 1979497535, 3631633444, 1289901536,
    18330236, 35927961, 1745833673, 3514547693, 3299104532, 2180341921, 3193317824, 3714973773,
    1697807583, 1745972084, 1378972850, 2644247678, 2859047094, 2124542124, 298388415, 2368783653,
    1299956900, 449746081, 3480762818, 964716451, 1782992581, 4021309255, 975954991, 2260114780,
    3450673125, 142408787, 2760257627, 129538062, 2737557944, 1456109818, 2537050753, 2121419887,
    1567752564, 3237729781, 1885375938, 2169356230, 2588854392, 2405387119, 2218827190, 3371830302]"
  by (simp add: extend_8 evaluate cong: let_weak_cong)

lemmas example_schedule_parts =
  example_schedule_1 example_schedule_2 example_schedule_3 example_schedule_4 example_schedule_5 example_schedule_6

lemma example_schedule:
  "sha_extend 48
    [2065850658, 976301090, 1646410290, 2105540608, 0, 0, 0, 0, 0, 0, 0, 0, 0, 0, 0, 104] =
    [2065850658, 976301090, 1646410290, 2105540608, 0, 0, 0, 0, 0, 0, 0, 0, 0, 0, 0, 104,
    2203921010, 544655324, 2714050593, 949848452, 876385682, 1979497535, 3631633444, 1289901536,
    18330236, 35927961, 1745833673, 3514547693, 3299104532, 2180341921, 3193317824, 3714973773,
    1697807583, 1745972084, 1378972850, 2644247678, 2859047094, 2124542124, 298388415, 2368783653,
    1299956900, 449746081, 3480762818, 964716451, 1782992581, 4021309255, 975954991, 2260114780,
    3450673125, 142408787, 2760257627, 129538062, 2737557944, 1456109818, 2537050753, 2121419887,
    1567752564, 3237729781, 1885375938, 2169356230, 2588854392, 2405387119, 2218827190, 3371830302]"
proof -
  have "(48 :: nat) = 8 + (8 + (8 + (8 + (8 + (8 + 0)))))" by simp
  then show ?thesis by (simp only: example_schedule_parts sha_extend.simps(1))
qed

subsection \<open>The rounds\<close>

lemma foldl_start_cong: "a = b \<Longrightarrow> foldl f a xs = foldl f b xs"
  by simp

lemma example_rounds_1:
  "foldl sha_round
    [1779033703, 3144134277, 1013904242, 2773480762, 1359893119, 2600822924, 528734635, 1541459225]
    ((1116352408, 2065850658) # (1899447441, 976301090) # (3049323471, 1646410290) # (3921009573,
    2105540608) # (961987163, 0) # (1508970993, 0) # (2453635748, 0) # (2870763221, 0) # kws) =
   foldl sha_round
    [2456134162, 2021932303, 3582727166, 1715884228, 1552197392, 1428721455, 2759646927, 640550064] kws"
  by (simp add: evaluate cong: let_weak_cong foldl_start_cong)

lemma example_rounds_2:
  "foldl sha_round
    [2456134162, 2021932303, 3582727166, 1715884228, 1552197392, 1428721455, 2759646927, 640550064]
    ((3624381080, 0) # (310598401, 0) # (607225278, 0) # (1426881987, 0) # (1925078388, 0) #
    (2162078206, 0) # (2614888103, 0) # (3248222580, 104) # kws) =
   foldl sha_round
    [3448602988, 4076143682, 2987367397, 3237804664, 3023080904, 2084738172, 3118716534, 955525774] kws"
  by (simp add: evaluate cong: let_weak_cong foldl_start_cong)

lemma example_rounds_3:
  "foldl sha_round
    [3448602988, 4076143682, 2987367397, 3237804664, 3023080904, 2084738172, 3118716534, 955525774]
    ((3835390401, 2203921010) # (4022224774, 544655324) # (264347078, 2714050593) # (604807628,
    949848452) # (770255983, 876385682) # (1249150122, 1979497535) # (1555081692, 3631633444) #
    (1996064986, 1289901536) # kws) =
   foldl sha_round
    [830786892, 661510226, 3602577040, 3306350732, 1648172810, 559690412, 2142962159, 2840471400] kws"
  by (simp add: evaluate cong: let_weak_cong foldl_start_cong)

lemma example_rounds_4:
  "foldl sha_round
    [830786892, 661510226, 3602577040, 3306350732, 1648172810, 559690412, 2142962159, 2840471400]
    ((2554220882, 18330236) # (2821834349, 35927961) # (2952996808, 1745833673) # (3210313671,
    3514547693) # (3336571891, 3299104532) # (3584528711, 2180341921) # (113926993, 3193317824) #
    (338241895, 3714973773) # kws) =
   foldl sha_round
    [2762467231, 1785790890, 2213604426, 1536640737, 1159186410, 2247228531, 1187740885, 3074658495] kws"
  by (simp add: evaluate cong: let_weak_cong foldl_start_cong)

lemma example_rounds_5:
  "foldl sha_round
    [2762467231, 1785790890, 2213604426, 1536640737, 1159186410, 2247228531, 1187740885, 3074658495]
    ((666307205, 1697807583) # (773529912, 1745972084) # (1294757372, 1378972850) # (1396182291,
    2644247678) # (1695183700, 2859047094) # (1986661051, 2124542124) # (2177026350, 298388415) #
    (2456956037, 2368783653) # kws) =
   foldl sha_round
    [1844398887, 2307725533, 292064445, 3382589083, 325372390, 33715947, 1240776413, 3819427707] kws"
  by (simp add: evaluate cong: let_weak_cong foldl_start_cong)

lemma example_rounds_6:
  "foldl sha_round
    [1844398887, 2307725533, 292064445, 3382589083, 325372390, 33715947, 1240776413, 3819427707]
    ((2730485921, 1299956900) # (2820302411, 449746081) # (3259730800, 3480762818) # (3345764771,
    964716451) # (3516065817, 1782992581) # (3600352804, 4021309255) # (4094571909, 975954991) #
    (275423344, 2260114780) # kws) =
   foldl sha_round
    [276439475, 885559453, 2287655182, 3619942103, 3171771613, 1016452576, 1379454659, 1895864780] kws"
  by (simp add: evaluate cong: let_weak_cong foldl_start_cong)

lemma example_rounds_7:
  "foldl sha_round
    [276439475, 885559453, 2287655182, 3619942103, 3171771613, 1016452576, 1379454659, 1895864780]
    ((430227734, 3450673125) # (506948616, 142408787) # (659060556, 2760257627) # (883997877,
    129538062) # (958139571, 2737557944) # (1322822218, 1456109818) # (1537002063, 2537050753) #
    (1747873779, 2121419887) # kws) =
   foldl sha_round
    [1848476958, 1765640827, 535331632, 2825097904, 3596093427, 335337034, 2180390280, 780454173] kws"
  by (simp add: evaluate cong: let_weak_cong foldl_start_cong)

lemma example_rounds_8:
  "foldl sha_round
    [1848476958, 1765640827, 535331632, 2825097904, 3596093427, 335337034, 2180390280, 780454173]
    ((1955562222, 1567752564) # (2024104815, 3237729781) # (2227730452, 1885375938) # (2361852424,
    2169356230) # (2428436474, 2588854392) # (2756734187, 2405387119) # (3204031479, 2218827190) #
    (3329325298, 3371830302) # kws) =
   foldl sha_round
    [3642467992, 3168286846, 823873425, 2587039141, 1962962360, 2636057288, 1799579917, 742939230] kws"
  by (simp add: evaluate cong: let_weak_cong foldl_start_cong)

lemmas example_rounds =
  example_rounds_1 example_rounds_2 example_rounds_3 example_rounds_4
  example_rounds_5 example_rounds_6 example_rounds_7 example_rounds_8

lemma example_compressed:
  "foldl sha_round sha_H0 (zip sha_K
    [2065850658, 976301090, 1646410290, 2105540608, 0, 0, 0, 0, 0, 0, 0, 0, 0, 0, 0, 104,
    2203921010, 544655324, 2714050593, 949848452, 876385682, 1979497535, 3631633444, 1289901536,
    18330236, 35927961, 1745833673, 3514547693, 3299104532, 2180341921, 3193317824, 3714973773,
    1697807583, 1745972084, 1378972850, 2644247678, 2859047094, 2124542124, 298388415, 2368783653,
    1299956900, 449746081, 3480762818, 964716451, 1782992581, 4021309255, 975954991, 2260114780,
    3450673125, 142408787, 2760257627, 129538062, 2737557944, 1456109818, 2537050753, 2121419887,
    1567752564, 3237729781, 1885375938, 2169356230, 2588854392, 2405387119, 2218827190, 3371830302]) =
    [3642467992, 3168286846, 823873425, 2587039141, 1962962360, 2636057288, 1799579917, 742939230]"
  unfolding sha_K_def sha_H0_def zip_Cons_Cons zip_Nil example_rounds foldl_Nil ..

subsection \<open>The digest\<close>

lemma example_block:
  "sha_block sha_H0
    [2065850658, 976301090, 1646410290, 2105540608, 0, 0, 0, 0, 0, 0, 0, 0, 0, 0, 0, 104] =
    [1126534399, 2017453827, 1837777667, 1065552607, 3322855479, 941912916, 2328314552, 2284398455]"
  unfolding sha_block_def example_schedule example_compressed by (simp add: sha_H0_def)

lemma example_sha256:
  "sha256 [123, 34, 97, 34, 58, 49, 44, 34, 98, 34, 58, 50, 125] =
    [1126534399, 2017453827, 1837777667, 1065552607, 3322855479, 941912916, 2328314552, 2284398455]"
  by (simp add: sha256_def example_words example_block)

lemma example_digest:
  "hexdigest (sha256 [123, 34, 97, 34, 58, 49, 44, 34, 98, 34, 58, 50, 125]) =
    ''43258cff783fe7036d8a43033f830adfc60ec037382473548ac742b888292777''"
  unfolding example_sha256 by (simp add: hexdigest_def hex_word_def hex_digits_def upt_conv_Cons)

end
