(* ===== verification/Schedule.thy ===== *)
theory Schedule
  imports Queue Dispatch
begin

text \<open>
  How long a row can stay claimed. The loop of the worker runs the reaper when
  \<open>worker_reaper_interval_s\<close> have passed since the last time, so at every pass the last sweep is less
  than one interval old, and no claim is older than the stale-lock limit and one interval, whoever left it
  there. The reaper does not see a row in processing without a lock time; a worker leaves no new one.
\<close>

subsection \<open>Rows claimed since a point in time\<close>

definition claims_since :: "timestamp \<Rightarrow> db \<Rightarrow> bool" where
  "claims_since th d \<longleftrightarrow> (\<forall>r \<in> set (raw_events d). \<forall>l.
     re_status r = Processing \<longrightarrow> re_locked_at r = Some l \<longrightarrow> th \<le> l)"

lemma claims_since_stale: "claims_since th d \<longleftrightarrow> (\<forall>r \<in> set (raw_events d). \<not> is_stale th r)"
  by (force simp: claims_since_def is_stale_def split: option.splits)

lemma claims_since_mono: "claims_since th d \<Longrightarrow> th' \<le> th \<Longrightarrow> claims_since th' d"
  unfolding claims_since_stale using is_stale_mono by blast

lemma claims_since_reap:
  assumes "minutes_before (worker_stale_lock_minutes cfg) now = Some th"
  shows "claims_since th (snd (reap_stale None cfg now d))"
  by (auto simp: reap_stale_result [OF assms] claims_since_stale)

lemma outcome_not_stale:
  "th \<le> t \<Longrightarrow> \<not> is_stale th (apply_outcome m x (mark_claimed t r))"
  by (cases x) (auto simp: is_stale_def not_less)

lemma claims_since_process_one:
  assumes d: "schema_ok d" and since: "claims_since th d" and now: "th \<le> pe_claim_now env"
  shows "claims_since th (snd (process_one sc repr cfg cl env d))"
proof (cases "pe_claim_fault env \<noteq> None \<or> next_pending (pe_tie env) (pe_locked env) d = None")
  case True
  from process_one_idle(1) [OF d this] since show ?thesis by simp
next
  case False
  then obtain r where "pe_claim_fault env = None" "next_pending (pe_tie env) (pe_locked env) d = Some r" by auto
  from process_one_raw [OF d this, of sc repr cfg cl] obtain x where rows:
    "raw_events (snd (process_one sc repr cfg cl env d)) = row_update re_id (re_id r)
      (\<lambda>r. apply_outcome (worker_max_attempts cfg) x (mark_claimed (pe_claim_now env) r)) (raw_events d)" .
  show ?thesis
    unfolding claims_since_stale
  proof
    fix q assume "q \<in> set (raw_events (snd (process_one sc repr cfg cl env d)))"
    from in_row_update [OF this [unfolded rows]] since outcome_not_stale [OF now] show "\<not> is_stale th q"
      by (auto simp: claims_since_stale)
  qed
qed

subsection \<open>Rows in processing without a lock time\<close>

text \<open>Those of the state are among \<open>R\<close>.\<close>

definition lockless_within :: "raw_event set \<Rightarrow> db \<Rightarrow> bool" where
  "lockless_within R d \<longleftrightarrow>
     {r \<in> set (raw_events d). re_status r = Processing \<and> re_locked_at r = None} \<subseteq> R"

lemma lockless_reap_stale: "keeps (lockless_within R) (reap_stale fault cfg now)"
  unfolding reap_stale_def
  by (intro keeps_intros) (auto simp: keeps_def release_stale_def lockless_within_def)

lemma outcome_not_lockless:
  "\<not> (re_status (apply_outcome m x (mark_claimed t r)) = Processing \<and>
      re_locked_at (apply_outcome m x (mark_claimed t r)) = None)"
  by (cases x) auto

lemma lockless_process_one:
  assumes d: "schema_ok d" and lockless: "lockless_within R d"
  shows "lockless_within R (snd (process_one sc repr cfg cl env d))"
proof (cases "pe_claim_fault env \<noteq> None \<or> next_pending (pe_tie env) (pe_locked env) d = None")
  case True
  from process_one_idle(1) [OF d this] lockless show ?thesis by simp
next
  case False
  then obtain r where "pe_claim_fault env = None" "next_pending (pe_tie env) (pe_locked env) d = Some r" by auto
  from process_one_raw [OF d this, of sc repr cfg cl] obtain x where rows:
    "raw_events (snd (process_one sc repr cfg cl env d)) = row_update re_id (re_id r)
      (\<lambda>r. apply_outcome (worker_max_attempts cfg) x (mark_claimed (pe_claim_now env) r)) (raw_events d)" .
  show ?thesis
    unfolding lockless_within_def
  proof (intro subsetI, elim CollectE conjE)
    fix q assume "q \<in> set (raw_events (snd (process_one sc repr cfg cl env d)))"
      and "re_status q = Processing" "re_locked_at q = None"
    with in_row_update [OF this(1) [unfolded rows]] outcome_not_lockless lockless show "q \<in> R"
      unfolding lockless_within_def by blast
  qed
qed

lemma lockless_loop_pass:
  assumes "schema_ok (snd st)" and "lockless_within R (snd st)"
  shows "schema_ok (snd (snd (loop_pass sc repr cfg tk st)))"
    and "lockless_within R (snd (snd (loop_pass sc repr cfg tk st)))"
proof -
  obtain last_reap d where st: "st = (last_reap, d)" by fastforce
  let ?d1 = "if of_int (worker_reaper_interval_s cfg) \<le> tk_time tk - last_reap
    then snd (reap_stale (tk_reap_fault tk) cfg (tk_now tk) d) else d"
  have d1: "schema_ok ?d1" "lockless_within R ?d1"
    using assms st keepsD [OF schema_reap_stale] keepsD [OF lockless_reap_stale] by simp_all
  have pass: "snd (snd (loop_pass sc repr cfg tk st)) =
      snd (process_one sc repr cfg (tk_classifier tk) (tk_env tk) ?d1)"
    by (simp add: st loop_pass_def Let_def case_prod_beta)
  show "schema_ok (snd (snd (loop_pass sc repr cfg tk st)))"
    unfolding pass by (rule keepsD [OF schema_process_one d1(1)])
  show "lockless_within R (snd (snd (loop_pass sc repr cfg tk st)))"
    unfolding pass by (rule lockless_process_one [OF d1])
qed

lemma lockless_run_loop:
  "schema_ok (snd st) \<Longrightarrow> lockless_within R (snd st) \<Longrightarrow>
     lockless_within R (snd (snd (run_loop sc repr cfg tks st)))"
proof (induction tks arbitrary: st)
  case (Cons tk tks)
  from Cons.IH [OF lockless_loop_pass [OF Cons.prems]] Cons.prems(2) show ?case
    by (simp add: case_prod_beta Let_def)
qed simp

lemma lockless_run_worker:
  assumes "schema_ok d" and "r \<in> set (raw_events (snd (run_worker sc repr cfg fault now start tks d)))"
    and "re_status r = Processing" and "re_locked_at r = None"
  shows "r \<in> set (raw_events d)"
proof -
  let ?d1 = "snd (reap_stale fault cfg now d)"
  have "schema_ok ?d1" by (rule keepsD [OF schema_reap_stale assms(1)])
  moreover have "lockless_within (set (raw_events d)) ?d1"
    by (rule keepsD [OF lockless_reap_stale]) (auto simp: lockless_within_def)
  ultimately have "lockless_within (set (raw_events d)) (snd (snd (run_loop sc repr cfg tks (start, ?d1))))"
    by (intro lockless_run_loop) simp_all
  moreover have "snd (run_worker sc repr cfg fault now start tks d) =
      snd (snd (run_loop sc repr cfg tks (start, ?d1)))"
    by (simp add: run_worker_def case_prod_beta Let_def)
  ultimately show ?thesis using assms(2-4) by (auto simp: lockless_within_def)
qed

subsection \<open>Passes on time\<close>

text \<open>
  A pass that finds no shutdown and whose reaper does not fail, on a wall clock that runs as the loop's
  monotonic clock does; it claims after it has begun.
\<close>

definition on_time :: "settings \<Rightarrow> rat \<Rightarrow> timestamp \<Rightarrow> tick \<Rightarrow> bool" where
  "on_time cfg start now tk \<longleftrightarrow>
     \<not> tk_shutdown tk \<and> tk_reap_fault tk = None \<and>
     minutes_before (worker_stale_lock_minutes cfg) (tk_now tk) \<noteq> None \<and>
     tk_now tk \<le> pe_claim_now (tk_env tk) \<and>
     of_int (micros (tk_now tk) - micros now) = (tk_time tk - start) * 1000000"

text \<open>\<open>last_reap\<close> is the time of a sweep at \<open>wall\<close> that has left no older claim than the limit allows.\<close>

definition swept :: "settings \<Rightarrow> rat \<Rightarrow> timestamp \<Rightarrow> rat \<Rightarrow> db \<Rightarrow> bool" where
  "swept cfg start now last_reap d \<longleftrightarrow> (\<exists>wall th.
     of_int (micros wall - micros now) = (last_reap - start) * 1000000 \<and>
     minutes_before (worker_stale_lock_minutes cfg) wall = Some th \<and> claims_since th d)"

lemma minutes_before_le: "0 \<le> m \<Longrightarrow> minutes_before m t = Some th \<Longrightarrow> th \<le> t"
  by (auto simp: minutes_before_def Let_def less_eq_timestamp_def split: if_splits)

lemma wall_order:
  fixes a b :: rat
  assumes "of_int (micros t - micros now) = (a - start) * 1000000"
    and "of_int (micros u - micros now) = (b - start) * 1000000" and "a \<le> b"
  shows "t \<le> u"
proof -
  have "of_int (micros t - micros now) \<le> (of_int (micros u - micros now) :: rat)"
    unfolding assms(1,2) using assms(3) by simp
  then show ?thesis by (simp add: less_eq_timestamp_def)
qed

lemma swept_process_one:
  assumes d: "schema_ok d" and swept: "swept cfg start now last_reap d" and tk: "on_time cfg start now tk"
    and stale: "0 \<le> worker_stale_lock_minutes cfg" and order: "last_reap \<le> tk_time tk"
  shows "swept cfg start now last_reap (snd (process_one sc repr cfg cl (tk_env tk) d))"
proof -
  from swept obtain wall th where w: "of_int (micros wall - micros now) = (last_reap - start) * 1000000"
    "minutes_before (worker_stale_lock_minutes cfg) wall = Some th" "claims_since th d"
    unfolding swept_def by blast
  have "wall \<le> tk_now tk" by (rule wall_order [OF w(1) _ order]) (use tk in \<open>simp add: on_time_def\<close>)
  with minutes_before_le [OF stale w(2)] tk have "th \<le> pe_claim_now (tk_env tk)"
    unfolding on_time_def by (meson order_trans)
  from claims_since_process_one [OF d w(3) this] w(1,2) show ?thesis unfolding swept_def by blast
qed

lemma swept_reap:
  assumes "on_time cfg start now tk"
  shows "swept cfg start now (tk_time tk) (snd (reap_stale None cfg (tk_now tk) d))"
proof -
  from assms obtain th where "minutes_before (worker_stale_lock_minutes cfg) (tk_now tk) = Some th"
    by (auto simp: on_time_def)
  with claims_since_reap [OF this] assms show ?thesis by (auto simp: swept_def on_time_def)
qed

text \<open>One pass: the sweep is renewed when it is due, and is less than an interval old afterwards.\<close>

lemma swept_loop_pass:
  assumes d: "schema_ok d" and swept: "swept cfg start now last_reap d" and tk: "on_time cfg start now tk"
    and stale: "0 \<le> worker_stale_lock_minutes cfg" and interval: "0 < worker_reaper_interval_s cfg"
    and order: "last_reap \<le> tk_time tk" and st0: "st = snd (loop_pass sc repr cfg tk (last_reap, d))"
  shows "schema_ok (snd st)" and "swept cfg start now (fst st) (snd st)" and "fst st \<le> tk_time tk"
    and "tk_time tk - fst st < of_int (worker_reaper_interval_s cfg)"
proof -
  let ?due = "of_int (worker_reaper_interval_s cfg) \<le> tk_time tk - last_reap"
  let ?last = "if ?due then tk_time tk else last_reap"
  let ?d1 = "if ?due then snd (reap_stale None cfg (tk_now tk) d) else d"
  have st: "st = (?last, snd (process_one sc repr cfg (tk_classifier tk) (tk_env tk) ?d1))"
    using tk by (simp add: st0 loop_pass_def on_time_def Let_def case_prod_beta)
  have d1: "schema_ok ?d1" using d keepsD [OF schema_reap_stale d] by simp
  have last: "?last \<le> tk_time tk" using order by simp
  have "swept cfg start now ?last ?d1" using swept swept_reap [OF tk, of d] by simp
  from swept_process_one [OF d1 this tk stale last] st show "swept cfg start now (fst st) (snd st)" by simp
  show "schema_ok (snd st)" unfolding st snd_conv by (rule keepsD [OF schema_process_one d1])
  show "fst st \<le> tk_time tk" using last st by simp
  show "tk_time tk - fst st < of_int (worker_reaper_interval_s cfg)" using st interval by simp
qed

lemma swept_run_loop:
  assumes "schema_ok d" and "swept cfg start now last_reap d" and "\<forall>tk \<in> set tks. on_time cfg start now tk"
    and "sorted (last_reap # map tk_time tks)" and "tks \<noteq> []"
    and cfg: "0 \<le> worker_stale_lock_minutes cfg" "0 < worker_reaper_interval_s cfg"
  shows "(case snd (run_loop sc repr cfg tks (last_reap, d)) of (last_reap', d') \<Rightarrow>
    swept cfg start now last_reap' d' \<and> tk_time (last tks) - last_reap' < of_int (worker_reaper_interval_s cfg))"
  using assms(1-5)
proof (induction tks arbitrary: last_reap d)
  case (Cons tk tks)
  define st1 where "st1 = snd (loop_pass sc repr cfg tk (last_reap, d))"
  have tk: "on_time cfg start now tk" and order: "last_reap \<le> tk_time tk" using Cons.prems by simp_all
  note pass = swept_loop_pass [OF Cons.prems(1,2) tk cfg order st1_def]
  have run: "snd (run_loop sc repr cfg (tk # tks) (last_reap, d)) = snd (run_loop sc repr cfg tks st1)"
    using tk by (simp add: on_time_def st1_def case_prod_beta Let_def)
  show ?case
  proof (cases "tks = []")
    case True
    with run pass show ?thesis by (cases st1) simp
  next
    case False
    have "sorted (fst st1 # map tk_time tks)" using Cons.prems(4) pass(3) by auto
    from Cons.IH [OF pass(1,2) _ this False] Cons.prems(3) run False show ?thesis by simp
  qed
qed simp

text \<open>The age of a claim at the last pass of a run, from the age of the last sweep.\<close>

lemma swept_age:
  assumes "swept cfg start now last_reap d" and "r \<in> set (raw_events d)"
    and "re_status r = Processing" and "re_locked_at r = Some l"
    and "of_int (micros t - micros now) = (time - start) * 1000000"
    and "time - last_reap < of_int (worker_reaper_interval_s cfg)"
  shows "micros t - micros l <
    (worker_stale_lock_minutes cfg * 60 + worker_reaper_interval_s cfg) * 1000000"
proof -
  from assms(1) obtain wall th where w: "of_int (micros wall - micros now) = (last_reap - start) * 1000000"
    "minutes_before (worker_stale_lock_minutes cfg) wall = Some th" "claims_since th d"
    unfolding swept_def by blast
  have "micros wall - worker_stale_lock_minutes cfg * 60 * 1000000 = micros th"
    using w(2) by (auto simp: minutes_before_def Let_def split: if_splits)
  moreover have "th \<le> l" using w(3) assms(2-4) by (simp add: claims_since_def)
  moreover have "of_int (micros t - micros wall) = (time - last_reap) * (1000000 :: rat)"
    using w(1) assms(5) by (simp add: algebra_simps)
  with assms(6) have "(of_int (micros t - micros wall) :: rat) < of_int (worker_reaper_interval_s cfg * 1000000)"
    by simp
  then have "micros t - micros wall < worker_reaper_interval_s cfg * 1000000" by (simp only: of_int_less_iff)
  ultimately show ?thesis by (simp add: less_eq_timestamp_def algebra_simps)
qed

lemma swept_run_worker:
  assumes "schema_ok d" and "minutes_before (worker_stale_lock_minutes cfg) now \<noteq> None"
    and "\<forall>tk \<in> set tks. on_time cfg start now tk" and "sorted (start # map tk_time tks)" and "tks \<noteq> []"
    and "0 \<le> worker_stale_lock_minutes cfg" "0 < worker_reaper_interval_s cfg"
    and row: "r \<in> set (raw_events (snd (run_worker sc repr cfg None now start tks d)))"
      "re_status r = Processing" "re_locked_at r = Some l"
  shows "micros (tk_now (last tks)) - micros l <
    (worker_stale_lock_minutes cfg * 60 + worker_reaper_interval_s cfg) * 1000000"
proof -
  let ?d1 = "snd (reap_stale None cfg now d)"
  from assms(2) obtain th where th: "minutes_before (worker_stale_lock_minutes cfg) now = Some th" by blast
  have d1: "schema_ok ?d1" by (rule keepsD [OF schema_reap_stale assms(1)])
  have "swept cfg start now start ?d1"
    unfolding swept_def using th claims_since_reap [OF th] by (intro exI [of _ now] exI [of _ th]) simp
  note run = swept_run_loop [OF d1 this assms(3-7), of sc repr, unfolded case_prod_beta]
  have d': "snd (run_worker sc repr cfg None now start tks d) = snd (snd (run_loop sc repr cfg tks (start, ?d1)))"
    by (simp add: run_worker_def case_prod_beta Let_def)
  have "on_time cfg start now (last tks)" using assms(3,5) by simp
  then have clock: "of_int (micros (tk_now (last tks)) - micros now) = (tk_time (last tks) - start) * 1000000"
    by (simp add: on_time_def)
  show ?thesis
    by (rule swept_age [OF conjunct1 [OF run] row(1) [unfolded d'] row(2,3) clock conjunct2 [OF run]])
qed

end
