(* ===== verification/Samples.thy ===== *)
theory Samples
  imports Guarantees Alembic Hash_Example Schedule
begin

text \<open>
  Concrete data: settings, scalars, events, rows and a small database in which every status occurs.
  The properties of the root theory are instantiated on it.
\<close>

subsection \<open>Scalars, codecs and events\<close>

definition sample_scalars :: scalars where
  "sample_scalars =
     \<lparr>parse_datetime = (\<lambda>j. case j of JInt n \<Rightarrow> Some \<lparr>dt_wall = n, dt_offset = Some 0\<rparr> | _ \<Rightarrow> None),
      dump_datetime = (\<lambda>t. JInt (dt_wall t)),
      parse_decimal = (\<lambda>j. case j of JArr [JInt c, JInt e] \<Rightarrow> Some (Dec c e) | _ \<Rightarrow> None),
      dump_decimal = (\<lambda>x. JArr [JInt (dec_coeff x), JInt (dec_exponent x)]),
      parse_float = (\<lambda>j. case j of JFloat x \<Rightarrow> Some x | JInt n \<Rightarrow> Some (of_int n) | _ \<Rightarrow> None)\<rparr>"

text \<open>A serialiser that sorts keys, a parser for the one body the examples use, and its payload.\<close>

definition byte_text :: "string \<Rightarrow> byte list" where
  "byte_text s = map of_char s"

fun comma_separated :: "byte list list \<Rightarrow> byte list" where
  "comma_separated [] = []"
| "comma_separated [x] = x"
| "comma_separated (x # y # xs) = x @ byte_text '','' @ comma_separated (y # xs)"

fun render :: "json \<Rightarrow> byte list" where
  "render JNull = byte_text ''null''"
| "render (JBool b) = byte_text (if b then ''true'' else ''false'')"
| "render (JInt n) = byte_text (show_int n)"
| "render (JFloat x) = byte_text (show_int (fst (quotient_of x)) @ ''/'' @ show_int (snd (quotient_of x)))"
| "render (JStr s) = byte_text ([CHR 0x22] @ s @ [CHR 0x22])"
| "render (JArr js) = byte_text ''['' @ comma_separated (map render js) @ byte_text '']''"
| "render (JObj d) = byte_text ''{'' @
     comma_separated (map (\<lambda>(k, j). byte_text ([CHR 0x22] @ k @ [CHR 0x22, CHR '':'']) @ render j) d) @
     byte_text ''}''"

definition sample_dumps :: "json \<Rightarrow> byte list option" where
  "sample_dumps j = Some (render (sort_keys j))"

lemma sample_sorts_keys: "sorts_keys sample_dumps"
  by (simp add: sorts_keys_def sample_dumps_def sort_keys_idem)

definition sample_payload :: json where
  "sample_payload = JObj [(''k'', JInt 1)]"

definition sample_loads :: "byte list \<Rightarrow> string + json" where
  "sample_loads b = (if b = [7] then Inr sample_payload else Inl ''unexpected character'')"

definition hash_of :: "json \<Rightarrow> string" where
  "hash_of j = hexdigest (sha256 (render (sort_keys j)))"

lemma canonical_hash_of: "canonical_hash sample_dumps j = Inr (hash_of j)"
  by (simp add: canonical_hash_def sample_dumps_def hash_of_def)

text \<open>The hash of an object with two keys, in either order.\<close>

lemma hash_of_example: "hash_of (JObj [(''a'', JInt 1), (''b'', JInt 2)]) =
  ''43258cff783fe7036d8a43033f830adfc60ec037382473548ac742b888292777''"
proof -
  have "sort_keys (JObj [(''a'', JInt 1), (''b'', JInt 2)]) = JObj [(''a'', JInt 1), (''b'', JInt 2)]" by code_simp
  moreover have "render (JObj [(''a'', JInt 1), (''b'', JInt 2)]) =
      [123, 34, 97, 34, 58, 49, 44, 34, 98, 34, 58, 50, 125]" by code_simp
  ultimately show ?thesis by (simp add: hash_of_def example_digest)
qed

lemma length_hash_of [simp]: "length (hash_of j) = 64"
  by (rule canonical_hash_format(1) [OF canonical_hash_of])

lemma hash_of_not_single [simp]: "hash_of j \<noteq> [c]" "[c] \<noteq> hash_of j"
proof -
  have "length (hash_of j) \<noteq> length [c]" by simp
  then show "hash_of j \<noteq> [c]" and "[c] \<noteq> hash_of j" by metis+
qed

definition sample_hash :: string where
  "sample_hash = hash_of sample_payload"

lemma sample_canonical_hash: "canonical_hash sample_dumps sample_payload = Inr sample_hash"
  by (simp add: canonical_hash_of sample_hash_def)

lemma sample_hash_fits: "length sample_hash = 64"
  by (simp add: sample_hash_def)

lemma sample_hash_not_single [simp]: "sample_hash \<noteq> [c]" "[c] \<noteq> sample_hash"
  by (simp_all add: sample_hash_def)

definition sample_repr :: "exn \<Rightarrow> string" where
  "sample_repr e = ''Error()''"

definition sample_show :: "uuid option \<Rightarrow> string" where
  "sample_show i = (case i of None \<Rightarrow> ''None'' | Some n \<Rightarrow> show_nat n)"

definition at_time :: "int \<Rightarrow> datetime" where
  "at_time n = \<lparr>dt_wall = n, dt_offset = Some 0\<rparr>"

definition picked_up :: "string \<Rightarrow> int \<Rightarrow> normalized_event" where
  "picked_up ref n =
     \<lparr>ne_vendor = ''MAEU'', ne_event_at = at_time n, ne_confidence = 1,
      ne_payload = ShipmentPickedUpPayload
        \<lparr>extras = [], s_vendor_milestone = ''gate-in'', transport_doc_number = ref,
         container_id = None, origin_port_code = None, origin_port_name = None,
         shipper_reference = None\<rparr>\<rparr>"

definition delivered :: "string \<Rightarrow> int \<Rightarrow> normalized_event" where
  "delivered ref n =
     \<lparr>ne_vendor = ''MAEU'', ne_event_at = at_time n, ne_confidence = 1,
      ne_payload = ShipmentDeliveredPayload
        \<lparr>extras = [], s_vendor_milestone = ''gate-out'', transport_doc_number = ref,
         container_id = None, consignee = None, delivery_port_code = None,
         delivery_order_number = None\<rparr>\<rparr>"

definition paid :: "string \<Rightarrow> int \<Rightarrow> normalized_event" where
  "paid ref n =
     \<lparr>ne_vendor = ''MAEU'', ne_event_at = at_time n, ne_confidence = 1,
      ne_payload = InvoicePaidPayload
        \<lparr>extras = [], i_vendor_milestone = ''settled'', document_reference = ref,
         currency = ''EUR'', payer = None, payee = None, amount_paid = Dec 5 0,
         settled_at = at_time n, remitter = None, memo = None\<rparr>\<rparr>"

lemma event_simps [simp]:
  "ne_event_at (picked_up ref n) = at_time n" "ne_event_at (delivered ref n) = at_time n"
  "ne_event_at (paid ref n) = at_time n"
  "external_ref (picked_up ref n) = Some ref" "external_ref (delivered ref n) = Some ref"
  "external_ref (paid ref n) = Some ref"
  "vendor_milestone (picked_up ref n) = Some ''gate-in''"
  "vendor_milestone (delivered ref n) = Some ''gate-out''"
  "vendor_milestone (paid ref n) = Some ''settled''"
  "canonical_state (picked_up ref n) = ''PICKED_UP''" "canonical_state (delivered ref n) = ''DELIVERED''"
  "canonical_state (paid ref n) = ''PAID''"
  "payload_kind (ne_payload (picked_up ref n)) = Some ShipmentKind"
  "payload_kind (ne_payload (delivered ref n)) = Some ShipmentKind"
  "payload_kind (ne_payload (paid ref n)) = Some InvoiceKind"
  by (simp_all add: picked_up_def delivered_def paid_def external_ref_def vendor_milestone_def
      canonical_state_def payload_kind_def)

lemma event_wf:
  "ref \<noteq> [] \<Longrightarrow> wf_event (picked_up ref n)" "ref \<noteq> [] \<Longrightarrow> wf_event (delivered ref n)"
  "ref \<noteq> [] \<Longrightarrow> wf_event (paid ref n)"
  by (simp_all add: wf_event_def picked_up_def delivered_def paid_def wf_shipment_def wf_invoice_def
      dec_ge_0_def)

text \<open>A valid event can be too long for its columns.\<close>

lemma valid_event_never_stored:
  assumes "128 < length ref"
  shows "wf_event (delivered ref n)"
    and "fst (persist_normalized sc cfg now db_now eid vid raw (delivered ref n) d) \<noteq> Inr ()"
proof -
  show "wf_event (delivered ref n)" using assms by (intro event_wf) auto
  show "fst (persist_normalized sc cfg now db_now eid vid raw (delivered ref n) d) \<noteq> Inr ()"
  proof
    assume "fst (persist_normalized sc cfg now db_now eid vid raw (delivered ref n) d) = Inr ()"
    then obtain d' where "persist_normalized sc cfg now db_now eid vid raw (delivered ref n) d = (Inr (), d')"
      by (metis prod.collapse)
    from persist_classified_needs(2) [OF this, of ShipmentKind ref] assms show False
      by (simp add: varchar_def)
  qed
qed

lemma at_time_simps [simp]:
  "instant (at_time n) = Ts n"
  "datetime_in_range n \<Longrightarrow> ensure_utc (at_time n) = Some (at_time n)"
  by (simp_all add: at_time_def instant_def ensure_utc_def)

subsection \<open>A database\<close>

definition sample_row :: "uuid \<Rightarrow> int \<Rightarrow> string \<Rightarrow> raw_status \<Rightarrow> raw_event" where
  "sample_row i t h st =
     \<lparr>re_id = i, re_vendor_hint = ''maersk'', re_payload = sample_payload, re_received_at = Ts t,
      re_hash_exact = h, re_duplicate_of_id = (if st = Duplicate then Some 1 else None),
      re_status = st, re_attempts = (if st = Failed then 5 else 0),
      re_last_error = (if st = Failed then Some ''classify: x'' else None),
      re_locked_at = (if st = Processing then Some (Ts t) else None),
      re_processed_at = (if st = Processed then Some (Ts t) else None)\<rparr>"

definition sample_entity :: entity where
  "sample_entity =
     \<lparr>en_id = 10, en_vendor = ''maersk'', en_external_ref = ''T1'',
      en_current_state = Some ''PICKED_UP'', en_last_event_at = Some (Ts 50), en_attributes = JObj [],
      en_created_at = Ts 60, en_updated_at = Ts 60\<rparr>"

definition sample_event :: entity_event where
  "sample_event =
     \<lparr>ev_id = 20, ev_entity_id = 10, ev_raw_event_id = 5, ev_canonical_state = ''PICKED_UP'',
      ev_event_at = Ts 50, ev_vendor_milestone = Some ''gate-in'', ev_attributes = JObj [],
      ev_created_at = Ts 60\<rparr>"

definition sample_db :: db where
  "sample_db =
     \<lparr>raw_events =
        [sample_row 1 30 ''a'' Pending, sample_row 2 20 ''b'' Pending,
         sample_row 3 10 ''c'' Processing, sample_row 4 40 ''a'' Duplicate,
         sample_row 5 5 ''d'' Processed, sample_row 6 4 ''e'' Failed],
      shipments = [sample_entity], shipment_events = [sample_event],
      invoices = [], invoice_events = []\<rparr>"

lemma sample_row_simps [simp]:
  "re_id (sample_row i t h st) = i" "re_vendor_hint (sample_row i t h st) = ''maersk''"
  "re_payload (sample_row i t h st) = sample_payload" "re_received_at (sample_row i t h st) = Ts t"
  "re_hash_exact (sample_row i t h st) = h" "re_status (sample_row i t h st) = st"
  "re_duplicate_of_id (sample_row i t h st) = (if st = Duplicate then Some 1 else None)"
  "re_attempts (sample_row i t h st) = (if st = Failed then 5 else 0)"
  "re_last_error (sample_row i t h st) = (if st = Failed then Some ''classify: x'' else None)"
  "re_locked_at (sample_row i t h st) = (if st = Processing then Some (Ts t) else None)"
  "re_processed_at (sample_row i t h st) = (if st = Processed then Some (Ts t) else None)"
  "dedup_key (sample_row i t h st) = (''maersk'', h)"
  "is_primary (sample_row i t h st) = (st \<noteq> Duplicate)"
  by (simp_all add: sample_row_def dedup_key_def is_primary_def)

lemma sample_row_fits: "length h \<le> 64 \<Longrightarrow> raw_fits (sample_row i t h st)"
  by (simp add: raw_fits_def int4_def varchar_def status_text_fits)

lemma sample_db_tables [simp]:
  "raw_events sample_db =
     [sample_row 1 30 ''a'' Pending, sample_row 2 20 ''b'' Pending,
      sample_row 3 10 ''c'' Processing, sample_row 4 40 ''a'' Duplicate,
      sample_row 5 5 ''d'' Processed, sample_row 6 4 ''e'' Failed]"
  "shipments sample_db = [sample_entity]" "shipment_events sample_db = [sample_event]"
  "invoices sample_db = []" "invoice_events sample_db = []"
  by (simp_all add: sample_db_def)

lemma sample_schema: "schema_ok sample_db"
  by (simp add: schema_ok_def raw_schema_ok_def kind_schema_ok_def all_kinds primaries_def sample_row_fits)
     (simp add: sample_entity_def sample_event_def entity_fits_def event_fits_def varchar_def)

lemma sample_links: "all_rows status_link sample_db"
  by (simp add: all_rows_def status_link_def)

lemma sample_base: "base_ok sample_db"
  by (simp add: base_ok_def sample_schema sample_links)

lemma sample_dedup: "dedup_ok sample_db"
  by (simp add: dedup_ok_def primaries_def)

lemma sample_projection: "projection_ok sample_db"
  by (simp add: projection_ok_def sample_schema all_kinds) (simp add: stamped_def sample_entity_def)

lemma sample_replay: "replay_ok sample_db"
  by (simp add: replay_ok_def all_kinds replay_def history_def)
     (simp add: sample_entity_def sample_event_def projection_def jump_to_latest_def event_as_latest_def)

lemma sample_has_room: "has_room sample_db"
  by (simp add: has_room_def)

lemma sample_next: "next_pending tie [] sample_db = Some (sample_row 2 20 ''b'' Pending)"
  by (simp add: next_pending_def claimable_def insort_key.simps)

subsection \<open>Persisting on it\<close>

lemma sample_times [simp]: "0 \<le> n \<Longrightarrow> n \<le> 1000000 \<Longrightarrow> datetime_in_range n"
  by (simp add: datetime_in_range_def datetime_min_def datetime_max_def)

lemma persist_exists:
  assumes "schema_ok d" and "raw \<in> set (raw_events d)"
    and "payload_kind (ne_payload e) = Some k" and "external_ref e = Some ref"
    and "ensure_utc (ne_event_at e) = Some u" and "length ref \<le> 128"
    and "varchar_opt 512 (vendor_milestone e)"
    and "eid \<notin> en_id ` set (entities k d)" and "vid \<notin> ev_id ` set (entity_events k d)"
  obtains d' where "persist_normalized sc cfg now db_now eid vid raw e d = (Inr (), d')"
  using persist_classified_succeeds [OF assms(1-5) _ assms(7-9), of sc cfg now db_now] assms(6)
  by (metis prod.collapse varchar_def)

text \<open>Two shipment events for the same new shipment, by the first two rows, in either order.\<close>

definition first_event :: "(string \<times> string) \<times> latest" where
  "first_event = ((''maersk'', ''T9''), event_latest sample_scalars (picked_up ''T9'' 60))"

definition second_event :: "(string \<times> string) \<times> latest" where
  "second_event = ((''maersk'', ''T9''), event_latest sample_scalars (delivered ''T9'' 70))"

lemma persist_pair:
  assumes "e = picked_up ''T9'' 60 \<and> e' = delivered ''T9'' 70 \<or> e = delivered ''T9'' 70 \<and> e' = picked_up ''T9'' 60"
  obtains d' where "run_steps (persist_step ShipmentKind)
    [((''maersk'', ''T9''), event_latest sample_scalars e), ((''maersk'', ''T9''), event_latest sample_scalars e')]
    sample_db d'"
proof -
  let ?raw = "sample_row 1 30 ''a'' Pending" and ?raw' = "sample_row 2 20 ''b'' Pending"
  have k: "payload_kind (ne_payload x) = Some ShipmentKind" and r: "external_ref x = Some ''T9''"
    and u: "\<exists>u. ensure_utc (ne_event_at x) = Some u" and m: "varchar_opt 512 (vendor_milestone x)"
    if "x \<in> {e, e'}" for x
    using assms that by (auto simp: varchar_def)
  obtain u where u1: "ensure_utc (ne_event_at e) = Some u" using u [of e] by auto
  obtain u' where u2: "ensure_utc (ne_event_at e') = Some u'" using u [of e'] by auto
  obtain d1 where d1: "persist_normalized sample_scalars default_settings (Ts 80) (Ts 80) 11 21 ?raw e sample_db
      = (Inr (), d1)"
    by (rule persist_exists [OF sample_schema _ k r u1 _ m, of ?raw])
       (auto simp: sample_entity_def sample_event_def)
  have s1: "schema_ok d1" by (rule schema_after_persist [OF sample_schema d1])
  note ids = persist_new_ids [OF sample_schema d1 k r, simplified]
  have raw': "\<exists>q \<in> set (raw_events d1). re_id q = 2 \<and> re_vendor_hint q = ''maersk''"
    by (rule persist_raw_row [OF d1]) (simp add: row_update_def)
  then obtain q where q: "q \<in> set (raw_events d1)" "re_vendor_hint q = ''maersk''" by blast
  obtain d2 where d2: "persist_normalized sample_scalars default_settings (Ts 90) (Ts 90) 12 22 q e' d1
      = (Inr (), d2)"
    by (rule persist_exists [OF s1 q(1) k r u2 _ m])
       (use ids in \<open>auto simp: sample_entity_def sample_event_def\<close>)
  have "persist_step ShipmentKind ((''maersk'', ''T9''), event_latest sample_scalars e) sample_db d1"
    using persist_stepI [OF k r d1] by simp
  moreover have "persist_step ShipmentKind ((''maersk'', ''T9''), event_latest sample_scalars e') d1 d2"
    using persist_stepI [OF k r d2] q(2) by simp
  ultimately show ?thesis by (intro that [of d2]) auto
qed

subsection \<open>A pass of the worker\<close>

definition sample_env :: process_env where
  "sample_env =
     \<lparr>pe_tie = (\<lambda>i. i), pe_locked = [], pe_claim_now = Ts 100, pe_now = Ts 101, pe_db_now = Ts 101,
      pe_entity_id = 30, pe_event_id = 40, pe_claim_fault = None, pe_persist_fault = None,
      pe_mark_fault = None\<rparr>"

definition sample_tick :: "(json \<Rightarrow> exn + normalized_event) \<Rightarrow> tick" where
  "sample_tick cl =
     \<lparr>tk_shutdown = False, tk_time = 1, tk_now = Ts 100, tk_reap_fault = None, tk_classifier = cl,
      tk_env = sample_env\<rparr>"

lemma sample_tick_quiet: "quiet_pass default_settings 0 (sample_tick cl)"
  by (simp add: quiet_pass_def no_reap_def fault_free_def sample_tick_def sample_env_def default_settings_def)

lemma sample_budget: "budget default_settings sample_db = 10"
  by (simp add: budget_def weight_def default_settings_def)

definition sample_retry_env :: retry_env where
  "sample_retry_env =
     \<lparr>rt_acquire_now = Ts 100, rt_now = Ts 101, rt_db_now = Ts 101, rt_entity_id = 30, rt_event_id = 40,
      rt_acquire_fault = None, rt_persist_fault = None, rt_record_fault = None, rt_read_fault = None\<rparr>"

lemma sample_plain_faults: "plain_faults sample_retry_env"
  by (simp add: plain_faults_def sample_retry_env_def)

text \<open>An event of no entity, which can always be persisted.\<close>

definition advisory :: normalized_event where
  "advisory = \<lparr>ne_vendor = ''MAEU'', ne_event_at = at_time 1, ne_confidence = 1,
     ne_payload = UnclassifiedPayload \<lparr>extras = [], unclassified_reason = ''port advisory''\<rparr>\<rparr>"

lemma advisory_payload:
  "ne_payload advisory = UnclassifiedPayload \<lparr>extras = [], unclassified_reason = ''port advisory''\<rparr>"
  by (simp add: advisory_def)

text \<open>A pass one second after a start at 1000 seconds, on a clock that runs with the loop's.\<close>

definition late_tick :: tick where
  "late_tick = (sample_tick (\<lambda>p. Inl OverflowError))
     \<lparr>tk_now := Ts 1001000000, tk_env := sample_env\<lparr>pe_claim_now := Ts 1001000001\<rparr>\<rparr>"

end
