(* ===== verification/Simulation.thy ===== *)
theory Simulation
  imports System
begin

text \<open>
  The code's functions as runs of the system: an iteration of the worker, its loop with the reaper,
  and the operator's retry start from a reachable state and, step by step, lead to a reachable state
  with the same tasks left for the other processes. What is invariant of \<open>sys_step\<close> therefore holds
  after every function of the code.
\<close>

lemma reachable_schema: "reachable cx \<lparr>sys_db = d, sys_tasks = ts\<rparr> \<Longrightarrow> schema_ok d"
  using sys_base_reachable by (fastforce simp: sys_base_def base_ok_def)

subsection \<open>The worker\<close>

lemma run_mark_failed:
  assumes "reachable cx \<lparr>sys_db = d, sys_tasks = WorkerFail i err # ts\<rparr>"
    and "mark_failed fault i err (max_attempts cx) d = (out, d')"
  shows "reachable cx \<lparr>sys_db = d', sys_tasks = ts\<rparr>"
  using reachable_step [OF assms(1) step_mark_failed [OF _ assms(2), of "WorkerFail i err # ts"]] by simp

lemma run_classified:
  assumes "reachable cx \<lparr>sys_db = d, sys_tasks = WorkerClassify i p # ts\<rparr>"
  shows "reachable cx \<lparr>sys_db = d, sys_tasks = WorkerPersist i ev # ts\<rparr>"
    and "reachable cx \<lparr>sys_db = d, sys_tasks = WorkerFail i (''classify: '' @ cx_repr cx exc) # ts\<rparr>"
  using reachable_step [OF assms step_classified [of i p "WorkerClassify i p # ts" cx d ev]]
    reachable_step [OF assms step_not_classified [of i p "WorkerClassify i p # ts" cx d exc]] by simp_all

lemma run_process_claimed:
  assumes reach: "reachable cx \<lparr>sys_db = d, sys_tasks = WorkerClassify i p # ts\<rparr>"
    and run: "process_claimed (cx_scalars cx) (cx_repr cx) (cx_settings cx) env i res d = (out, d')"
  shows "reachable cx \<lparr>sys_db = d', sys_tasks = ts\<rparr>"
proof (cases res)
  case (Inl exc)
  with run have "mark_failed (pe_mark_fault env) i (''classify: '' @ cx_repr cx exc) (max_attempts cx) d = (out, d')"
    by (simp add: process_claimed_def del: append.simps)
  with run_classified(2) [OF reach] show ?thesis by (rule run_mark_failed)
next
  case (Inr ev)
  let ?ts = "WorkerPersist i ev # ts"
  note classified = run_classified(1) [OF reach, of ev]
  have pending: "WorkerPersist i ev \<in> set ?ts" by simp
  let ?scope = "session_scope (pe_persist_fault env) (persist_loaded (cx_scalars cx) (cx_settings cx) env i ev)"
  obtain res1 d1 where persist: "?scope d = (res1, d1)" by fastforce
  show ?thesis
  proof (cases res1)
    case Inl': (Inl exc)
    note persist = persist [unfolded Inl']
    from reachable_step [OF classified step_not_persisted [OF pending persist]]
    have failing: "reachable cx \<lparr>sys_db = d1, sys_tasks = WorkerFail i (''persist: '' @ cx_repr cx exc) # ts\<rparr>"
      by simp
    have "mark_failed (pe_mark_fault env) i (''persist: '' @ cx_repr cx exc) (max_attempts cx) d1 = (out, d')"
      using run persist Inr by (simp add: process_claimed_def tx_try_apply del: append.simps)
    with failing show ?thesis by (rule run_mark_failed)
  next
    case Inr': (Inr u)
    note persist = persist [unfolded Inr', simplified]
    from reachable_step [OF classified step_persist [OF pending persist]]
    have "reachable cx \<lparr>sys_db = d1, sys_tasks = ts\<rparr>" by simp
    with run persist Inr show ?thesis by (simp add: process_claimed_def tx_try_apply)
  qed
qed

lemma run_process_one:
  assumes reach: "reachable cx \<lparr>sys_db = d, sys_tasks = ts\<rparr>"
    and run: "process_one (cx_scalars cx) (cx_repr cx) (cx_settings cx) cl env d = (out, d')"
  shows "reachable cx \<lparr>sys_db = d', sys_tasks = ts\<rparr>"
proof -
  let ?claim = "session_scope (pe_claim_fault env)
    (claim_one (pe_tie env) (pe_locked env) (pe_claim_now env) (max_attempts cx))"
  obtain res d1 where claim: "?claim d = (res, d1)" by fastforce
  have none: "d1 = d" if "res = Inr None"
    using claim that
    by (auto simp: session_scope_def claim_one_result [OF reachable_schema [OF reach]] split: option.splits)
  show ?thesis
  proof (cases res)
    case (Inl exc)
    with claim have "d1 = d" by (intro session_scope_raises [of _ _ d exc]) simp
    with run claim Inl reach show ?thesis by (simp add: process_one_def tx_bind_Inl)
  next
    case (Inr claimed)
    show ?thesis
    proof (cases claimed)
      case None
      with run claim Inr none reach show ?thesis by (simp add: process_one_def tx_bind_Inr)
    next
      case (Some r)
      note claim = claim [unfolded Inr Some]
      from reachable_step [OF reach step_claim [OF claim]]
      have claimed: "reachable cx \<lparr>sys_db = d1, sys_tasks = WorkerClassify (re_id r) (re_payload r) # ts\<rparr>" .
      obtain out1 d2 where rest: "process_claimed (cx_scalars cx) (cx_repr cx) (cx_settings cx) env (re_id r)
          (cl (re_payload r)) d1 = (out1, d2)" by fastforce
      have "d' = d2" using run claim rest by (cases out1) (simp_all add: process_one_def tx_bind_apply)
      with run_process_claimed [OF claimed rest] show ?thesis by simp
    qed
  qed
qed

lemma run_reap_stale:
  assumes "reachable cx \<lparr>sys_db = d, sys_tasks = ts\<rparr>"
  shows "reachable cx \<lparr>sys_db = snd (reap_stale fault (cx_settings cx) now d), sys_tasks = ts\<rparr>"
  using reachable_step [OF assms step_reap [OF prod.collapse [symmetric]]] .

lemma run_loop_pass:
  assumes "reachable cx \<lparr>sys_db = snd st, sys_tasks = ts\<rparr>"
  shows "reachable cx \<lparr>sys_db = snd (snd (loop_pass (cx_scalars cx) (cx_repr cx) (cx_settings cx) tk st)),
    sys_tasks = ts\<rparr>"
proof -
  obtain last_reap d where st: "st = (last_reap, d)" by fastforce
  note pass = run_process_one [OF _ prod.collapse [symmetric], of cx _ ts "tk_classifier tk" "tk_env tk"]
  show ?thesis
  proof (cases "of_int (worker_reaper_interval_s (cx_settings cx)) \<le> tk_time tk - last_reap")
    case True
    with pass [OF run_reap_stale, of d "tk_reap_fault tk" "tk_now tk"] assms show ?thesis
      by (simp add: loop_pass_def st case_prod_beta Let_def)
  next
    case False
    with pass [of d] assms show ?thesis by (simp add: loop_pass_def st case_prod_beta Let_def)
  qed
qed

lemma run_run_loop:
  "reachable cx \<lparr>sys_db = snd st, sys_tasks = ts\<rparr> \<Longrightarrow>
   reachable cx \<lparr>sys_db = snd (snd (run_loop (cx_scalars cx) (cx_repr cx) (cx_settings cx) tks st)), sys_tasks = ts\<rparr>"
proof (induction tks arbitrary: st)
  case (Cons tk tks)
  from Cons.IH [OF run_loop_pass [OF Cons.prems]] Cons.prems
  show ?case by (simp add: case_prod_beta Let_def)
qed simp

lemma run_run_worker:
  assumes "reachable cx \<lparr>sys_db = d, sys_tasks = ts\<rparr>"
  shows "reachable cx \<lparr>sys_db = snd (run_worker (cx_scalars cx) (cx_repr cx) (cx_settings cx) fault now start tks d),
    sys_tasks = ts\<rparr>"
  using run_run_loop [of cx "(start, snd (reap_stale fault (cx_settings cx) now d))" ts tks]
    run_reap_stale [OF assms, of fault now]
  by (simp add: run_worker_def case_prod_beta Let_def)

subsection \<open>The retry\<close>

lemma run_retry_finish:
  assumes reach: "reachable cx \<lparr>sys_db = d, sys_tasks = RetryClassify i p # ts\<rparr>"
    and run: "retry_finish (cx_scalars cx) (cx_repr cx) (cx_settings cx) env i res d = (out, d')"
  shows "reachable cx \<lparr>sys_db = d', sys_tasks = ts\<rparr>"
proof -
  have pending: "RetryClassify i p \<in> set (RetryClassify i p # ts)" by simp
  have recorded: "reachable cx \<lparr>sys_db = d', sys_tasks = ts\<rparr>"
    if at: "reachable cx \<lparr>sys_db = d, sys_tasks = RetryRecord i exc # ts\<rparr>"
      and proc: "retry_process (cx_scalars cx) (cx_settings cx) env i res d = (Inl exc, d)" for exc
  proof -
    obtain out1 d1 where rec: "retry_record (rt_record_fault env) i (cx_repr cx exc) d = (out1, d1)" by fastforce
    have "d' = d1" using run proc rec
      by (cases out1) (simp_all add: retry_finish_def tx_try_apply tx_bind_apply)
    with reachable_step [OF at step_record [OF _ rec, of "RetryRecord i exc # ts"]] show ?thesis by simp
  qed
  show ?thesis
  proof (cases res)
    case (Inl exc)
    from reachable_step [OF reach step_retry_not_classified [OF pending]] Inl
    show ?thesis by (intro recorded [of exc]) (simp_all add: retry_process_def)
  next
    case (Inr ev)
    let ?ts = "RetryPersist i ev # ts"
    from reachable_step [OF reach step_retry_classified [OF pending]]
    have classified: "reachable cx \<lparr>sys_db = d, sys_tasks = ?ts\<rparr>" by simp
    have pending': "RetryPersist i ev \<in> set ?ts" by simp
    let ?scope = "session_scope (rt_persist_fault env) (retry_persist (cx_scalars cx) (cx_settings cx) env i ev)"
    obtain res1 d1 where persist: "?scope d = (res1, d1)" by fastforce
    show ?thesis
    proof (cases res1)
      case Inl': (Inl exc)
      note persist = persist [unfolded Inl']
      from session_scope_raises [OF persist] have "d1 = d" .
      with reachable_step [OF classified step_retry_not_persisted [OF pending' persist]] persist Inr
      show ?thesis by (intro recorded [of exc]) (simp_all add: retry_process_def)
    next
      case Inr': (Inr u)
      note persist = persist [unfolded Inr', simplified]
      from reachable_step [OF classified step_retry_persist [OF pending' persist]]
      have "reachable cx \<lparr>sys_db = d1, sys_tasks = ts\<rparr>" by simp
      with run persist Inr show ?thesis by (simp add: retry_finish_def retry_process_def tx_try_apply)
    qed
  qed
qed

lemma retry_read_same: "snd (retry_read fault i d) = d"
  by (simp add: retry_read_def session_scope_def tx_simps get_raw_def split: option.split)

lemma run_retry_raw_event:
  assumes reach: "reachable cx \<lparr>sys_db = d, sys_tasks = ts\<rparr>"
  shows "reachable cx \<lparr>sys_db = snd (retry_raw_event (cx_scalars cx) (cx_repr cx) (cx_show cx) (cx_settings cx)
    cl env i d), sys_tasks = ts\<rparr>"
proof -
  let ?acquire = "session_scope (rt_acquire_fault env) (retry_acquire (cx_show cx) i (rt_acquire_now env))"
  obtain res d1 where acquire: "?acquire d = (res, d1)" by fastforce
  show ?thesis
  proof (cases res)
    case (Inl exc)
    with acquire have "d1 = d" by (intro session_scope_raises [of _ _ d exc]) simp
    with acquire Inl reach show ?thesis by (simp add: retry_raw_event_def tx_bind_Inl)
  next
    case (Inr p)
    note acquire = acquire [unfolded Inr]
    from reachable_step [OF reach step_acquire [OF acquire]]
    have acquired: "reachable cx \<lparr>sys_db = d1, sys_tasks = RetryClassify i p # ts\<rparr>" .
    obtain out d2 where finish: "retry_finish (cx_scalars cx) (cx_repr cx) (cx_settings cx) env i (cl p) d1 = (out, d2)"
      by fastforce
    have "snd (retry_raw_event (cx_scalars cx) (cx_repr cx) (cx_show cx) (cx_settings cx) cl env i d) = d2"
      using acquire finish retry_read_same [of "rt_read_fault env" i d2]
      by (cases out) (simp_all add: retry_raw_event_def tx_bind_apply)
    with run_retry_finish [OF acquired finish] show ?thesis by simp
  qed
qed

lemma retry_endpoint_same:
  "snd (retry_endpoint sc repr sh cfg cl env rf i d) = snd (retry_raw_event sc repr sh cfg cl env i d)"
proof -
  have find: "snd (find_state ks j d1) = d1" for ks j d1
    by (induction ks j rule: find_state.induct)
       (auto simp: tx_simps tx_of_def split: prod.splits sum.splits option.splits)
  obtain out d1 where run: "retry_raw_event sc repr sh cfg cl env i d = (out, d1)" by fastforce
  have scope: "snd (session_scope rf (find_state ks j) d1) = d1" for ks j
    by (rule session_scope_either [where Q = "\<lambda>x. x = d1"]) (simp_all add: find)
  show ?thesis
  proof (cases out)
    case (Inl exc)
    with retry_endpoint_error [OF run [unfolded Inl]] run show ?thesis by simp
  next
    case (Inr raw)
    with run scope [of "[(ShipmentKind, ''shipment''), (InvoiceKind, ''invoice'')]" "re_id raw"]
    show ?thesis
      by (cases "session_scope rf (find_state [(ShipmentKind, ''shipment''), (InvoiceKind, ''invoice'')] (re_id raw)) d1")
         (auto simp: retry_endpoint_def tx_try_apply tx_bind_apply simp del: find_state.simps split: sum.split)
  qed
qed

end
