(* ===== verification/Application.thy ===== *)
theory Application
  imports Simulation
begin

text \<open>
  The application of \<^verbatim>\<open>app/api/__init__.py\<close> and the dependencies of \<^verbatim>\<open>app/api/dependencies.py\<close>: the table of
  routes \<open>create_app\<close> assembles, the dispatch of a request to its handler, the response an exception
  becomes, the one classifier of the process and the end of its engine.

  The web framework is a parameter: what it answers to a request no route takes, and how it reads an id
  from the path. Of its dispatch the model has what the code relies on: a request goes to the first
  route whose method and path match, an invalid path parameter is answered with 422, an
  \<open>HTTPException\<close> with its status, any other exception with 500.
\<close>

subsection \<open>Requests, responses and routes\<close>

record http_request =
  hr_method :: string
  hr_path :: "string list"
  hr_body :: "byte list"

datatype response_body =
    AckBody webhook_ack
  | EntityBody entity_out
  | RetryBody retry_result
  | HealthBody string
  | DetailBody string

record http_response =
  hs_status :: nat
  hs_body :: response_body

text \<open>A path is the list of its segments; a template has at most one parameter.\<close>

datatype path_part = Lit string | Param

datatype endpoint = Healthz | IngestWebhook | GetShipment | GetInvoice | RetryEndpoint

record route =
  ro_method :: string
  ro_path :: "path_part list"
  ro_endpoint :: endpoint

definition health_router :: "route list" where
  "health_router = [\<lparr>ro_method = ''GET'', ro_path = [Lit ''healthz''], ro_endpoint = Healthz\<rparr>]"

definition webhooks_router :: "route list" where
  "webhooks_router =
     [\<lparr>ro_method = ''POST'', ro_path = [Lit ''webhooks'', Param], ro_endpoint = IngestWebhook\<rparr>]"

definition shipments_router :: "route list" where
  "shipments_router =
     [\<lparr>ro_method = ''GET'', ro_path = [Lit ''shipments'', Param], ro_endpoint = GetShipment\<rparr>]"

definition invoices_router :: "route list" where
  "invoices_router =
     [\<lparr>ro_method = ''GET'', ro_path = [Lit ''invoices'', Param], ro_endpoint = GetInvoice\<rparr>]"

definition raw_events_router :: "route list" where
  "raw_events_router =
     [\<lparr>ro_method = ''POST'', ro_path = [Lit ''raw-events'', Param, Lit ''retry''],
       ro_endpoint = RetryEndpoint\<rparr>]"

definition include_router :: "path_part list \<Rightarrow> route list \<Rightarrow> route list" where
  "include_router pre rs = map (\<lambda>r. r\<lparr>ro_path := pre @ ro_path r\<rparr>) rs"

definition create_app :: "route list" where
  "create_app =
     include_router [] health_router @
     include_router [Lit ''api'', Lit ''v1''] webhooks_router @
     include_router [Lit ''api'', Lit ''v1''] shipments_router @
     include_router [Lit ''api'', Lit ''v1''] invoices_router @
     include_router [Lit ''api'', Lit ''v1''] raw_events_router"

text \<open>The value of the path's parameter, and the empty string for a path without one.\<close>

fun match_path :: "path_part list \<Rightarrow> string list \<Rightarrow> string option" where
  "match_path [] [] = Some ''''"
| "match_path (Lit l # ps) (s # ss) = (if s = l then match_path ps ss else None)"
| "match_path (Param # ps) (s # ss) = (if s \<noteq> '''' \<and> match_path ps ss \<noteq> None then Some s else None)"
| "match_path ps ss = None"

definition route_match :: "http_request \<Rightarrow> route \<Rightarrow> string option" where
  "route_match req r = (if hr_method req = ro_method r then match_path (ro_path r) (hr_path req) else None)"

fun find_route :: "route list \<Rightarrow> http_request \<Rightarrow> (endpoint \<times> string) option" where
  "find_route [] req = None"
| "find_route (r # rs) req =
     (case route_match req r of Some arg \<Rightarrow> Some (ro_endpoint r, arg) | None \<Rightarrow> find_route rs req)"

subsection \<open>The classifier of the process\<close>

text \<open>
  \<open>wp_construct\<close> is the exception the client's constructor raises, if it does; \<open>wp_invoke\<close> is the
  structured client made from it.
\<close>

record web_params =
  wp_parse_uuid :: "string \<Rightarrow> uuid option"
  wp_construct :: "llm_client \<Rightarrow> exn option"
  wp_invoke :: "llm_client \<Rightarrow> chat_message list \<Rightarrow> exn + llm_result"
  wp_framework :: "http_request \<Rightarrow> http_response"

record web_app =
  app_db :: db
  app_classifier :: "llm_client option"

definition build_classifier :: "context_params \<Rightarrow> web_params \<Rightarrow> exn + llm_client" where
  "build_classifier cx web =
     (let llm = build_llm (cx_settings cx)
      in case wp_construct web llm of Some e \<Rightarrow> Inl e | None \<Rightarrow> Inr llm)"

text \<open>\<open>lru_cache\<close> keeps a returned value, not an exception.\<close>

definition get_classifier :: "context_params \<Rightarrow> web_params \<Rightarrow> (web_app, llm_client) tx" where
  "get_classifier cx web = (\<lambda>app.
     case app_classifier app of
       Some c \<Rightarrow> (Inr c, app)
     | None \<Rightarrow>
         (case build_classifier cx web of
            Inl e \<Rightarrow> (Inl e, app)
          | Inr c \<Rightarrow> (Inr c, app\<lparr>app_classifier := Some c\<rparr>)))"

subsection \<open>Serving a request\<close>

record serve_env =
  se_request :: request_env
  se_retry :: retry_env
  se_read_fault :: "exn option"
  se_probe :: "exn option"
  se_tie :: "uuid \<Rightarrow> nat"

definition in_db :: "(db, 'a) tx \<Rightarrow> (web_app, 'a) tx" where
  "in_db body = (\<lambda>app. let (out, d) = body (app_db app) in (out, app\<lparr>app_db := d\<rparr>))"

definition request_session :: "serve_env \<Rightarrow> (db, 'a) tx \<Rightarrow> (web_app, 'a) tx" where
  "request_session env body = in_db (get_session (rq_late (se_request env)) (rq_fault (se_request env)) body)"

definition path_uuid :: "web_params \<Rightarrow> string \<Rightarrow> (uuid \<Rightarrow> (web_app, 'a) tx) \<Rightarrow> (web_app, 'a) tx" where
  "path_uuid web s route =
     (case wp_parse_uuid web s of Some i \<Rightarrow> route i | None \<Rightarrow> tx_raise (HTTPException 422 ''uuid''))"

definition reply :: "nat \<Rightarrow> ('a \<Rightarrow> response_body) \<Rightarrow> (web_app, 'a) tx \<Rightarrow> (web_app, http_response) tx" where
  "reply st body route = tx_bind route (\<lambda>x. tx_return \<lparr>hs_status = st, hs_body = body x\<rparr>)"

fun handle :: "context_params \<Rightarrow> web_params \<Rightarrow> serve_env \<Rightarrow> endpoint \<Rightarrow> string \<Rightarrow> byte list \<Rightarrow>
    (web_app, http_response) tx" where
  "handle cx web env Healthz arg body =
     tx_bind (request_session env (tx_return (healthz (se_probe env)))) (\<lambda>(st, text).
     tx_return \<lparr>hs_status = st, hs_body = HealthBody text\<rparr>)"
| "handle cx web env IngestWebhook arg body =
     reply 202 AckBody
       (in_db (ingest_webhook (cx_dumps cx) (cx_loads cx) (cx_settings cx) (se_request env) arg body))"
| "handle cx web env GetShipment arg body =
     reply 200 EntityBody
       (path_uuid web arg (\<lambda>i. request_session env (get_shipment_route (se_tie env) i)))"
| "handle cx web env GetInvoice arg body =
     reply 200 EntityBody
       (path_uuid web arg (\<lambda>i. request_session env (get_invoice_route (se_tie env) i)))"
| "handle cx web env RetryEndpoint arg body =
     reply 200 RetryBody
       (tx_bind (get_classifier cx web) (\<lambda>c.
        path_uuid web arg (\<lambda>i.
        in_db (retry_endpoint (cx_scalars cx) (cx_repr cx) (cx_show cx) (cx_settings cx)
          (classify (cx_scalars cx) (cx_dumps cx) (wp_invoke web c))
          (se_retry env) (se_read_fault env) i))))"

fun error_response :: "exn \<Rightarrow> http_response" where
  "error_response (HTTPException st detail) = \<lparr>hs_status = st, hs_body = DetailBody detail\<rparr>"
| "error_response exc = \<lparr>hs_status = 500, hs_body = DetailBody ''Internal Server Error''\<rparr>"

definition serve :: "context_params \<Rightarrow> web_params \<Rightarrow> serve_env \<Rightarrow> http_request \<Rightarrow> web_app \<Rightarrow>
    http_response \<times> web_app" where
  "serve cx web env req app =
     (case find_route create_app req of
        None \<Rightarrow> (wp_framework web req, app)
      | Some (ep, arg) \<Rightarrow>
          (case handle cx web env ep arg (hr_body req) app of
             (Inl exc, app') \<Rightarrow> (error_response exc, app')
           | (Inr res, app') \<Rightarrow> (res, app')))"

text \<open>
  \<open>lifespan\<close>: the engine's globals after the process has served requests, whose sessions use the engine
  in whatever way, and has shut down. The end of the worker's \<open>run\<close> does the same.
\<close>

definition lifespan :: "engine_op list \<Rightarrow> db_globals" where
  "lifespan serving = dispose_engine (foldl engine_step initial_globals serving)"

subsection \<open>At most one route takes a request\<close>

lemma match_path_Nil: "match_path [] path = Some x \<longleftrightarrow> path = [] \<and> x = ''''"
  by (cases path) auto

lemma match_path_Lit:
  "match_path (Lit l # ps) path = Some x \<longleftrightarrow> (\<exists>ss. path = l # ss \<and> match_path ps ss = Some x)"
  by (cases path) auto

lemma match_path_Param:
  "match_path (Param # ps) path = Some x \<longleftrightarrow>
     (\<exists>ss. path = x # ss \<and> x \<noteq> '''' \<and> (\<exists>y. match_path ps ss = Some y))"
  by (cases path) auto

lemmas match_path_iff = match_path_Nil match_path_Lit match_path_Param

lemma find_route_Some:
  "find_route rs req = Some (ep, arg) \<Longrightarrow> \<exists>r \<in> set rs. route_match req r = Some arg \<and> ro_endpoint r = ep"
  by (induction rs) (auto split: option.splits)

lemma find_route_None: "find_route rs req = None \<longleftrightarrow> (\<forall>r \<in> set rs. route_match req r = None)"
  by (induction rs) (auto split: option.splits)

text \<open>
  What the order of registration relies on: no request matches two routes. Then the first route that
  matches is the only one, and the routers can be included in any order.
\<close>

locale router =
  fixes routes :: "route list"
  assumes one_route: "r \<in> set routes \<Longrightarrow> r' \<in> set routes \<Longrightarrow>
    route_match req r = Some x \<Longrightarrow> route_match req r' = Some y \<Longrightarrow> r' = r"
begin

lemma find_route_iff:
  assumes "set rs = set routes"
  shows "find_route rs req = Some (ep, arg) \<longleftrightarrow>
    (\<exists>r \<in> set routes. route_match req r = Some arg \<and> ro_endpoint r = ep)"
proof
  assume "find_route rs req = Some (ep, arg)"
  from find_route_Some [OF this] assms
  show "\<exists>r \<in> set routes. route_match req r = Some arg \<and> ro_endpoint r = ep" by simp
next
  assume "\<exists>r \<in> set routes. route_match req r = Some arg \<and> ro_endpoint r = ep"
  then obtain r where r: "r \<in> set routes" "route_match req r = Some arg" "ro_endpoint r = ep" by blast
  then have "find_route rs req \<noteq> None" using assms by (auto simp: find_route_None)
  then obtain ep' arg' where found: "find_route rs req = Some (ep', arg')" by auto
  from find_route_Some [OF this] assms obtain r' where
    r': "r' \<in> set routes" "route_match req r' = Some arg'" "ro_endpoint r' = ep'" by auto
  from one_route [OF r(1) r'(1) r(2) r'(2)] r r' found
  show "find_route rs req = Some (ep, arg)" by simp
qed

lemma order_irrelevant:
  assumes same: "set rs = set routes"
  shows "find_route rs req = find_route routes req"
proof (cases "find_route routes req")
  case None
  then have "find_route rs req = None" using same by (simp add: find_route_None)
  with None show ?thesis by simp
next
  case (Some found)
  moreover from this have "find_route rs req = Some found"
    using find_route_iff [OF same, of req] find_route_iff [OF refl, of req] by (cases found) blast
  ultimately show ?thesis by simp
qed

end

lemma create_app_routes:
  "set create_app =
    {\<lparr>ro_method = ''GET'', ro_path = [Lit ''healthz''], ro_endpoint = Healthz\<rparr>,
     \<lparr>ro_method = ''POST'', ro_path = [Lit ''api'', Lit ''v1'', Lit ''webhooks'', Param],
      ro_endpoint = IngestWebhook\<rparr>,
     \<lparr>ro_method = ''GET'', ro_path = [Lit ''api'', Lit ''v1'', Lit ''shipments'', Param],
      ro_endpoint = GetShipment\<rparr>,
     \<lparr>ro_method = ''GET'', ro_path = [Lit ''api'', Lit ''v1'', Lit ''invoices'', Param],
      ro_endpoint = GetInvoice\<rparr>,
     \<lparr>ro_method = ''POST'', ro_path = [Lit ''api'', Lit ''v1'', Lit ''raw-events'', Param, Lit ''retry''],
      ro_endpoint = RetryEndpoint\<rparr>}"
  by (simp add: create_app_def include_router_def health_router_def webhooks_router_def
      shipments_router_def invoices_router_def raw_events_router_def)

text \<open>The number of segments and the third of them tell the routes apart.\<close>

lemma route_endpoint:
  "r \<in> set create_app \<Longrightarrow> route_match req r = Some x \<Longrightarrow>
   ro_endpoint r =
     (if length (hr_path req) = 1 then Healthz
      else if length (hr_path req) = 5 then RetryEndpoint
      else if hr_path req ! 2 = ''webhooks'' then IngestWebhook
      else if hr_path req ! 2 = ''shipments'' then GetShipment else GetInvoice)"
  by (auto simp: create_app_routes route_match_def match_path_iff split: if_splits)

lemma create_app_endpoints: "inj_on ro_endpoint (set create_app)"
  by (simp add: create_app_routes)

interpretation app: router create_app
  by unfold_locales (use route_endpoint in \<open>auto intro!: inj_onD [OF create_app_endpoints]\<close>)

text \<open>The requests the application takes.\<close>

lemma find_route_app:
  "find_route create_app req = Some (ep, arg) \<longleftrightarrow>
     (case ep of
        Healthz \<Rightarrow> hr_method req = ''GET'' \<and> hr_path req = [''healthz''] \<and> arg = ''''
      | IngestWebhook \<Rightarrow> hr_method req = ''POST'' \<and> hr_path req = [''api'', ''v1'', ''webhooks'', arg] \<and> arg \<noteq> ''''
      | GetShipment \<Rightarrow> hr_method req = ''GET'' \<and> hr_path req = [''api'', ''v1'', ''shipments'', arg] \<and> arg \<noteq> ''''
      | GetInvoice \<Rightarrow> hr_method req = ''GET'' \<and> hr_path req = [''api'', ''v1'', ''invoices'', arg] \<and> arg \<noteq> ''''
      | RetryEndpoint \<Rightarrow> hr_method req = ''POST'' \<and>
          hr_path req = [''api'', ''v1'', ''raw-events'', arg, ''retry''] \<and> arg \<noteq> '''')"
  unfolding app.find_route_iff [OF refl] create_app_routes
  by (cases ep) (auto simp: route_match_def match_path_iff)

subsection \<open>What a request does to the database\<close>

lemma in_db_apply: "in_db body app = (fst (body (app_db app)), app\<lparr>app_db := snd (body (app_db app))\<rparr>)"
  by (simp add: in_db_def case_prod_beta Let_def)

lemma reply_db: "app_db (snd (reply st body route app)) = app_db (snd (route app))"
  by (cases "route app"; cases "fst (route app)") (simp_all add: reply_def tx_bind_apply)

lemma path_uuid_db:
  "app_db (snd (path_uuid web s route app)) =
     (case wp_parse_uuid web s of Some i \<Rightarrow> app_db (snd (route i app)) | None \<Rightarrow> app_db app)"
  by (simp add: path_uuid_def tx_simps split: option.split)

lemma get_classifier_db: "app_db (snd (get_classifier cx web app)) = app_db app"
  by (simp add: get_classifier_def split: option.split sum.split)

lemma request_session_read:
  assumes "\<And>d. snd (route d) = d"
  shows "app_db (snd (request_session env route app)) = app_db app"
proof -
  let ?d = "app_db app"
  have "snd (get_session late fault route ?d) = ?d" for late fault
    using get_session_either [of late fault route ?d] assms by metis
  then show ?thesis by (simp add: request_session_def in_db_apply)
qed

lemma read_routes_same: "snd (get_shipment_route tie i d) = d" "snd (get_invoice_route tie i d) = d"
  by (simp_all add: get_shipment_route_result get_invoice_route_result split: option.split)

lemma handle_read:
  assumes "ep \<noteq> IngestWebhook" and "ep \<noteq> RetryEndpoint"
  shows "app_db (snd (handle cx web env ep arg body app)) = app_db app"
proof (cases ep)
  case Healthz
  have "app_db (snd (request_session env (tx_return (healthz (se_probe env))) app)) = app_db app"
    by (rule request_session_read) simp
  then show ?thesis unfolding Healthz
    by (cases "request_session env (tx_return (healthz (se_probe env))) app";
        cases "fst (request_session env (tx_return (healthz (se_probe env))) app)")
       (simp_all add: tx_bind_apply case_prod_beta)
qed (use assms in \<open>simp_all add: reply_db path_uuid_db request_session_read read_routes_same split: option.split\<close>)

lemma handle_webhook_db:
  "app_db (snd (handle cx web env IngestWebhook arg body app)) =
     snd (ingest_webhook (cx_dumps cx) (cx_loads cx) (cx_settings cx) (se_request env) arg body (app_db app))"
  by (simp add: reply_db in_db_apply)

lemma handle_retry_db:
  "app_db (snd (handle cx web env RetryEndpoint arg body app)) = app_db app \<or>
   (\<exists>c i. wp_parse_uuid web arg = Some i \<and> app_db (snd (handle cx web env RetryEndpoint arg body app)) =
      snd (retry_endpoint (cx_scalars cx) (cx_repr cx) (cx_show cx) (cx_settings cx)
        (classify (cx_scalars cx) (cx_dumps cx) (wp_invoke web c)) (se_retry env) (se_read_fault env) i (app_db app)))"
proof -
  obtain res app' where run: "get_classifier cx web app = (res, app')" by fastforce
  then have same: "app_db app' = app_db app" using get_classifier_db [of cx web app] by simp
  show ?thesis
  proof (cases res)
    case (Inl e)
    with run same show ?thesis by (simp add: reply_db tx_bind_Inl)
  next
    case (Inr c)
    with run same show ?thesis
      by (cases "wp_parse_uuid web arg") (auto simp: reply_db tx_bind_Inr path_uuid_db in_db_apply)
  qed
qed

lemma serve_db:
  "app_db (snd (serve cx web env req app)) =
     (case find_route create_app req of
        None \<Rightarrow> app_db app
      | Some (ep, arg) \<Rightarrow> app_db (snd (handle cx web env ep arg (hr_body req) app)))"
  by (simp add: serve_def split: option.split prod.split sum.split)

lemma serve_read:
  assumes "app_db (snd (serve cx web env req app)) \<noteq> app_db app"
  obtains (webhook) v where "find_route create_app req = Some (IngestWebhook, v)"
  | (retry) s where "find_route create_app req = Some (RetryEndpoint, s)"
proof -
  from assms obtain ep arg where found: "find_route create_app req = Some (ep, arg)"
    and "app_db (snd (handle cx web env ep arg (hr_body req) app)) \<noteq> app_db app"
    by (auto simp: serve_db split: option.splits)
  with handle_read have "ep = IngestWebhook \<or> ep = RetryEndpoint" by blast
  with found that show thesis by blast
qed

lemma serve_webhook:
  assumes found: "find_route create_app req = Some (IngestWebhook, v)"
    and changed: "app_db (snd (serve cx web env req app)) \<noteq> app_db app"
  shows "valid_vendor v \<and> hs_status (fst (serve cx web env req app)) = 202"
proof -
  obtain out d where run: "ingest_webhook (cx_dumps cx) (cx_loads cx) (cx_settings cx) (se_request env) v
      (hr_body req) (app_db app) = (out, d)" by fastforce
  with changed have d: "d \<noteq> app_db app" by (simp add: serve_db found handle_webhook_db del: handle.simps)
  with run ingest_webhook_raises obtain ack where out: "out = Inr ack" by (cases out) auto
  have "valid_vendor v" using run d by (auto simp: ingest_webhook_def tx_simps split: if_splits)
  moreover have "hs_status (fst (serve cx web env req app)) = 202"
    by (simp add: serve_def found reply_def tx_bind_apply in_db_apply run out)
  ultimately show ?thesis ..
qed

lemma serve_retry_uuid:
  assumes "find_route create_app req = Some (RetryEndpoint, s)"
    and "app_db (snd (serve cx web env req app)) \<noteq> app_db app"
  shows "wp_parse_uuid web s \<noteq> None"
  using assms handle_retry_db [of cx web env s "hr_body req" app] by (auto simp: serve_db simp del: handle.simps)

subsection \<open>Requests are runs of the system\<close>

lemma run_serve:
  assumes "reachable cx \<lparr>sys_db = app_db app, sys_tasks = ts\<rparr>"
  shows "reachable cx \<lparr>sys_db = app_db (snd (serve cx web env req app)), sys_tasks = ts\<rparr>"
proof (cases "app_db (snd (serve cx web env req app)) = app_db app")
  case True
  with assms show ?thesis by simp
next
  case False
  then show ?thesis
  proof (cases rule: serve_read)
    case (webhook v)
    with reachable_step [OF assms step_ingest [OF prod.collapse [symmetric]]] show ?thesis
      by (simp add: serve_db handle_webhook_db del: handle.simps)
  next
    case (retry s)
    with False handle_retry_db [of cx web env s "hr_body req" app] obtain c i where
      "app_db (snd (serve cx web env req app)) =
        snd (retry_endpoint (cx_scalars cx) (cx_repr cx) (cx_show cx) (cx_settings cx)
          (classify (cx_scalars cx) (cx_dumps cx) (wp_invoke web c)) (se_retry env) (se_read_fault env) i (app_db app))"
      by (auto simp: serve_db simp del: handle.simps)
    with run_retry_raw_event [OF assms] show ?thesis by (simp add: retry_endpoint_same)
  qed
qed

subsection \<open>The end of the process\<close>

lemma lifespan_closed:
  "engine (lifespan ops) = None \<and> session_factory (lifespan ops) = None \<and>
   {..<engines_created (lifespan ops)} = set (disposed (lifespan ops))"
  using globals_ok_run [OF globals_ok_initial, of ops]
  by (auto simp: lifespan_def dispose_engine_def globals_ok_def split: option.split)

end
