(* ===== verification/Flush.thy ===== *)
theory Flush
  imports Guarantees
begin

text \<open>
  Transactions that load the raw event without a lock: \<open>mark_failed\<close>, the phase of a retry that records its
  failure, and those that persist an event. They compute with what they have loaded and write it back at
  the commit; under READ COMMITTED other transactions can change the row in between. The session then
  writes the columns whose value differs from the loaded one, and no others.

  When the row is still as it was loaded, such a transaction is the atomic one.
\<close>

subsection \<open>Loading a row and writing it back\<close>

definition changed_column :: "'a \<Rightarrow> 'a \<Rightarrow> 'a \<Rightarrow> 'a" where
  "changed_column loaded new current = (if new = loaded then current else new)"

text \<open>The columns the two functions assign; the others are the same in \<open>loaded\<close> and \<open>new\<close>.\<close>

definition flush_row :: "raw_event \<Rightarrow> raw_event \<Rightarrow> raw_event \<Rightarrow> raw_event" where
  "flush_row loaded new r =
     r\<lparr>re_status := changed_column (re_status loaded) (re_status new) (re_status r),
       re_attempts := changed_column (re_attempts loaded) (re_attempts new) (re_attempts r),
       re_last_error := changed_column (re_last_error loaded) (re_last_error new) (re_last_error r),
       re_locked_at := changed_column (re_locked_at loaded) (re_locked_at new) (re_locked_at r)\<rparr>"

lemma flush_row_simps [simp]:
  "re_id (flush_row r0 r1 r) = re_id r" "re_vendor_hint (flush_row r0 r1 r) = re_vendor_hint r"
  "re_payload (flush_row r0 r1 r) = re_payload r" "re_hash_exact (flush_row r0 r1 r) = re_hash_exact r"
  "re_received_at (flush_row r0 r1 r) = re_received_at r"
  "re_duplicate_of_id (flush_row r0 r1 r) = re_duplicate_of_id r"
  "re_processed_at (flush_row r0 r1 r) = re_processed_at r"
  "re_status (flush_row r0 r1 r) = changed_column (re_status r0) (re_status r1) (re_status r)"
  "re_attempts (flush_row r0 r1 r) = changed_column (re_attempts r0) (re_attempts r1) (re_attempts r)"
  "re_last_error (flush_row r0 r1 r) = changed_column (re_last_error r0) (re_last_error r1) (re_last_error r)"
  "re_locked_at (flush_row r0 r1 r) = changed_column (re_locked_at r0) (re_locked_at r1) (re_locked_at r)"
  by (simp_all add: flush_row_def)

text \<open>Undisturbed, the two halves are the atomic update.\<close>

lemma flush_own [simp]:
  "flush_row r (fail_row err m r) r = fail_row err m r"
  "flush_row r (retry_failed_row err r) r = retry_failed_row err r"
  by (simp_all add: flush_row_def changed_column_def fail_row_def retry_failed_row_def del: append.simps)

lemma update_raw_cong:
  assumes "\<And>r. r \<in> set (raw_events d) \<Longrightarrow> re_id r = i \<Longrightarrow> f r = g r"
  shows "update_raw i f d = update_raw i g d"
proof -
  have "row_update re_id i f (raw_events d) = row_update re_id i g (raw_events d)"
    using assms by (simp add: row_update_def)
  with assms show ?thesis by (auto simp: update_raw_def)
qed

lemma undisturbed_update:
  assumes "schema_ok d" and "row_lookup re_id (raw_events d) i = Some r"
    and "flush_row r (f r) r = f r"
  shows "update_raw i (flush_row r (f r)) d = update_raw i f d"
proof (rule update_raw_cong)
  fix q assume "q \<in> set (raw_events d)" "re_id q = i"
  with row_lookup_Some [OF assms(2)] schema_same_id [OF assms(1), of r q] have "q = r" by simp
  with assms(3) show "flush_row r (f r) q = f q" by simp
qed

lemma undisturbed_mark_failed:
  assumes "schema_ok d" and "row_lookup re_id (raw_events d) i = Some r"
  shows "mark_failed fault i err m d = session_scope fault (update_raw i (flush_row r (fail_row err m r))) d"
  using undisturbed_update [OF assms, of "fail_row err m"] assms(2)
  by (simp add: mark_failed_def session_scope_def tx_simps get_raw_def)

lemma undisturbed_retry_record:
  assumes "schema_ok d" and "row_lookup re_id (raw_events d) i = Some r"
  shows "retry_record fault i err d = session_scope fault (update_raw i (flush_row r (retry_failed_row err r))) d"
  using undisturbed_update [OF assms, of "retry_failed_row err"] assms(2)
  by (simp add: retry_record_def session_scope_def tx_simps get_raw_def)

text \<open>Two failures recorded at the same time count as one attempt.\<close>

lemma attempt_lost:
  "re_attempts (flush_row r (fail_row err m r) (flush_row r (fail_row err' m r) r)) = re_attempts r + 1"
  by (simp add: changed_column_def)

text \<open>
  Persisting: the entity statements take effect as they do in \<open>persist_normalized\<close>; of the row \<open>new\<close> it
  leaves, only the columns it assigns to and whose value is not the loaded one are written over the row
  \<open>r\<close> there was.
\<close>

definition written_back :: "raw_event \<Rightarrow> raw_event \<Rightarrow> raw_event \<Rightarrow> raw_event" where
  "written_back loaded r new =
     new\<lparr>re_status := changed_column (re_status loaded) (re_status new) (re_status r),
         re_processed_at := changed_column (re_processed_at loaded) (re_processed_at new) (re_processed_at r),
         re_last_error := changed_column (re_last_error loaded) (re_last_error new) (re_last_error r)\<rparr>"

lemma written_back_simps [simp]:
  "re_id (written_back r0 r p) = re_id p" "re_vendor_hint (written_back r0 r p) = re_vendor_hint p"
  "re_payload (written_back r0 r p) = re_payload p" "re_hash_exact (written_back r0 r p) = re_hash_exact p"
  "re_received_at (written_back r0 r p) = re_received_at p"
  "re_duplicate_of_id (written_back r0 r p) = re_duplicate_of_id p"
  "re_status (written_back r0 r p) = changed_column (re_status r0) (re_status p) (re_status r)"
  "re_processed_at (written_back r0 r p) =
     changed_column (re_processed_at r0) (re_processed_at p) (re_processed_at r)"
  by (simp_all add: written_back_def)

text \<open>Undisturbed, everything the row was changed to is written.\<close>

lemma written_back_own: "written_back r r (mark_processed now info r) = mark_processed now info r"
  by (simp add: written_back_def changed_column_def)

text \<open>A row that has gone by then makes the flush fail, since its update matches no row.\<close>

definition persist_unlocked ::
    "scalars \<Rightarrow> settings \<Rightarrow> timestamp \<Rightarrow> timestamp \<Rightarrow> uuid \<Rightarrow> uuid \<Rightarrow> raw_event \<Rightarrow> normalized_event \<Rightarrow> (db, unit) tx" where
  "persist_unlocked sc cfg now db_now eid vid loaded ev =
     tx_bind (get_raw (re_id loaded)) (\<lambda>row.
     case row of
       None \<Rightarrow> tx_raise (OtherError ''StaleDataError'')
     | Some r \<Rightarrow>
         tx_bind (persist_normalized sc cfg now db_now eid vid loaded ev) (\<lambda>_.
         update_raw (re_id loaded) (written_back loaded r)))"

lemma undisturbed_persist:
  assumes d: "schema_ok d" and r: "row_lookup re_id (raw_events d) (re_id r) = Some r"
  shows "persist_unlocked sc cfg now db_now eid vid r ev d = persist_normalized sc cfg now db_now eid vid r ev d"
proof -
  obtain out d' where run: "persist_normalized sc cfg now db_now eid vid r ev d = (out, d')" by fastforce
  show ?thesis
  proof (cases out)
    case (Inl e)
    with r run show ?thesis by (simp add: persist_unlocked_def tx_simps get_raw_def)
  next
    case (Inr u)
    with run have run': "persist_normalized sc cfg now db_now eid vid r ev d = (Inr (), d')" by simp
    have schema: "schema_ok d'" by (rule schema_after_persist [OF d run'])
    have own: "written_back r r p = p" if p: "p \<in> set (raw_events d')" "re_id p = re_id r" for p
    proof (rule persist_raw_row [OF run'])
      fix info
      assume "raw_events d' = row_update re_id (re_id r) (mark_processed now info) (raw_events d)"
      with p schema_same_id [OF d conjunct1 [OF row_lookup_Some [OF r]]] have "p = mark_processed now info r"
        by (auto simp: row_update_def split: if_splits)
      then show ?thesis by (simp add: written_back_own)
    qed
    then have "update_raw (re_id r) (written_back r r) d' = update_raw (re_id r) (\<lambda>p. p) d'"
      by (rule update_raw_cong)
    also have "\<dots> = (Inr (), d')"
      using update_raw_fits [of d' "re_id r" "\<lambda>p. p"] schema_raw_fits [OF schema] by (simp add: row_update_def)
    finally show ?thesis using r run' by (simp add: persist_unlocked_def tx_simps get_raw_def)
  qed
qed

text \<open>What a persist leaves of the table, and of its row, when the row has changed since it was loaded.\<close>

lemma persist_unlocked_steps:
  assumes "persist_unlocked sc cfg now db_now eid vid r0 ev d = (Inr (), d')"
  obtains r d1 where "row_lookup re_id (raw_events d) (re_id r0) = Some r"
    "persist_normalized sc cfg now db_now eid vid r0 ev d = (Inr (), d1)"
    "update_raw (re_id r0) (written_back r0 r) d1 = (Inr (), d')"
proof (cases "row_lookup re_id (raw_events d) (re_id r0)")
  case None
  with assms show ?thesis by (simp add: persist_unlocked_def tx_simps get_raw_def)
next
  case (Some r)
  obtain out d1 where per: "persist_normalized sc cfg now db_now eid vid r0 ev d = (out, d1)" by fastforce
  with assms Some have "out = Inr ()"
    by (cases out) (simp_all add: persist_unlocked_def tx_simps get_raw_def)
  with assms Some per have "update_raw (re_id r0) (written_back r0 r) d1 = (Inr (), d')"
    by (simp add: persist_unlocked_def tx_simps get_raw_def)
  with Some per \<open>out = Inr ()\<close> show ?thesis by (intro that) simp_all
qed

lemma persist_unlocked_row:
  assumes d: "schema_ok d" and run: "persist_unlocked sc cfg now db_now eid vid r0 ev d = (Inr (), d')"
  obtains r info where "r \<in> set (raw_events d)" "re_id r = re_id r0" "varchar_opt 2000 info"
    "raw_events d' = row_update re_id (re_id r0)
       (\<lambda>q. written_back r0 r (mark_processed now info r)) (raw_events d)"
proof (rule persist_unlocked_steps [OF run])
  fix r d1
  assume r: "row_lookup re_id (raw_events d) (re_id r0) = Some r"
    and per: "persist_normalized sc cfg now db_now eid vid r0 ev d = (Inr (), d1)"
    and upd: "update_raw (re_id r0) (written_back r0 r) d1 = (Inr (), d')"
  note rin = row_lookup_Some [OF r]
  show ?thesis
  proof (rule persist_raw_row [OF per])
    fix info
    assume info: "varchar_opt 2000 info"
      and rows: "raw_events d1 = row_update re_id (re_id r0) (mark_processed now info) (raw_events d)"
    have "raw_events d' = row_update re_id (re_id r0) (\<lambda>q. written_back r0 r (mark_processed now info q)) (raw_events d)"
      unfolding update_raw_effect(3) [OF upd] rows by (rule row_update_compose) simp
    also have "\<dots> = row_update re_id (re_id r0) (\<lambda>q. written_back r0 r (mark_processed now info r)) (raw_events d)"
      using schema_same_id [OF d, of r] rin by (auto simp: row_update_def)
    finally show ?thesis using rin info by (intro that [of r info]) simp_all
  qed
qed

end
