(* ===== verification/Concurrency.thy ===== *)
theory Concurrency
  imports Flush
begin

text \<open>
  The system of \<open>System\<close>, extended: a transaction that loads its row without a lock (\<open>Flush\<close>) is two steps,
  and every other step can happen between them. What is an invariant by \<open>db_invariant\<close> survives, and so
  does a property of rows that satisfies \<open>flush_contract\<close>. That a row being processed has a lock time does
  not: \<open>Races\<close> has the run.
\<close>

subsection \<open>The system with unlocked updates\<close>

text \<open>A transaction that has loaded the row of its task.\<close>

record open_tx =
  ot_task :: task
  ot_loaded :: raw_event

record unlocked_system =
  us_system :: system
  us_open :: "open_tx list"

abbreviation us_db :: "unlocked_system \<Rightarrow> db" where
  "us_db u \<equiv> sys_db (us_system u)"

abbreviation ot_row :: "open_tx \<Rightarrow> uuid" where
  "ot_row x \<equiv> task_row (ot_task x)"

text \<open>How a task that records a failure changes the row it has loaded, and the event another persists.\<close>

fun recording :: "context_params \<Rightarrow> task \<Rightarrow> (raw_event \<Rightarrow> raw_event) option" where
  "recording cx (WorkerFail i err) = Some (fail_row err (max_attempts cx))"
| "recording cx (RetryRecord i exc) = Some (retry_failed_row (cx_repr cx exc))"
| "recording cx t = None"

fun task_event :: "task \<Rightarrow> normalized_event option" where
  "task_event (WorkerPersist i ev) = Some ev"
| "task_event (RetryPersist i ev) = Some ev"
| "task_event t = None"

text \<open>What a task goes on with when its persist has raised.\<close>

fun task_failed :: "context_params \<Rightarrow> exn \<Rightarrow> task \<Rightarrow> task list" where
  "task_failed cx exc (WorkerPersist i ev) = [WorkerFail i (''persist: '' @ cx_repr cx exc)]"
| "task_failed cx exc (RetryPersist i ev) = [RetryRecord i exc]"
| "task_failed cx exc t = []"

inductive unlocked_step :: "context_params \<Rightarrow> unlocked_system \<Rightarrow> unlocked_system \<Rightarrow> bool"
  for cx :: context_params where
  unlocked_serial:
    "sys_step cx s s' \<Longrightarrow>
     unlocked_step cx \<lparr>us_system = s, us_open = os\<rparr> \<lparr>us_system = s', us_open = os\<rparr>"
| unlocked_load:
    "t \<in> set ts \<Longrightarrow> recording cx t \<noteq> None \<or> task_event t \<noteq> None \<Longrightarrow>
     row_lookup re_id (raw_events d) (task_row t) = Some r \<Longrightarrow>
     unlocked_step cx \<lparr>us_system = \<lparr>sys_db = d, sys_tasks = ts\<rparr>, us_open = os\<rparr>
       \<lparr>us_system = \<lparr>sys_db = d, sys_tasks = remove1 t ts\<rparr>,
        us_open = \<lparr>ot_task = t, ot_loaded = r\<rparr> # os\<rparr>"
| unlocked_flush:
    "x \<in> set os \<Longrightarrow> recording cx (ot_task x) = Some f \<Longrightarrow>
     session_scope fault (update_raw (ot_row x) (flush_row (ot_loaded x) (f (ot_loaded x)))) d = (out, d') \<Longrightarrow>
     unlocked_step cx \<lparr>us_system = \<lparr>sys_db = d, sys_tasks = ts\<rparr>, us_open = os\<rparr>
       \<lparr>us_system = \<lparr>sys_db = d', sys_tasks = ts\<rparr>, us_open = remove1 x os\<rparr>"
| unlocked_persist:
    "x \<in> set os \<Longrightarrow> task_event (ot_task x) = Some ev \<Longrightarrow>
     session_scope fault
       (persist_unlocked (cx_scalars cx) (cx_settings cx) now db_now eid vid (ot_loaded x) ev) d = (Inr (), d') \<Longrightarrow>
     unlocked_step cx \<lparr>us_system = \<lparr>sys_db = d, sys_tasks = ts\<rparr>, us_open = os\<rparr>
       \<lparr>us_system = \<lparr>sys_db = d', sys_tasks = ts\<rparr>, us_open = remove1 x os\<rparr>"
| unlocked_not_persisted:
    "x \<in> set os \<Longrightarrow> task_event (ot_task x) = Some ev \<Longrightarrow>
     session_scope fault
       (persist_unlocked (cx_scalars cx) (cx_settings cx) now db_now eid vid (ot_loaded x) ev) d = (Inl exc, d') \<Longrightarrow>
     unlocked_step cx \<lparr>us_system = \<lparr>sys_db = d, sys_tasks = ts\<rparr>, us_open = os\<rparr>
       \<lparr>us_system = \<lparr>sys_db = d', sys_tasks = task_failed cx exc (ot_task x) @ ts\<rparr>, us_open = remove1 x os\<rparr>"

text \<open>The commit of a single open transaction that records the failure of a worker.\<close>

lemma flush_failure:
  assumes "session_scope fault (update_raw i (flush_row r (fail_row err (max_attempts cx) r))) d = (out, d')"
  shows "unlocked_step cx
    \<lparr>us_system = \<lparr>sys_db = d, sys_tasks = ts\<rparr>, us_open = [\<lparr>ot_task = WorkerFail i err, ot_loaded = r\<rparr>]\<rparr>
    \<lparr>us_system = \<lparr>sys_db = d', sys_tasks = ts\<rparr>, us_open = []\<rparr>"
  using unlocked_flush [of "\<lparr>ot_task = WorkerFail i err, ot_loaded = r\<rparr>"
      "[\<lparr>ot_task = WorkerFail i err, ot_loaded = r\<rparr>]" cx "fail_row err (max_attempts cx)" fault d out d' ts] assms
  by simp

inductive unlocked_reachable :: "context_params \<Rightarrow> unlocked_system \<Rightarrow> bool" for cx :: context_params where
  unlocked_initial: "unlocked_reachable cx \<lparr>us_system = initial_system, us_open = []\<rparr>"
| unlocked_more: "unlocked_reachable cx u \<Longrightarrow> unlocked_step cx u u' \<Longrightarrow> unlocked_reachable cx u'"

text \<open>The serial system is the part of it in which no transaction stays open.\<close>

lemma reachable_unlocked: "reachable cx s \<Longrightarrow> unlocked_reachable cx \<lparr>us_system = s, us_open = []\<rparr>"
proof (induction rule: reachable.induct)
  case reachable_initial
  show ?case by (rule unlocked_initial)
next
  case (reachable_step s s')
  show ?case by (rule unlocked_more [OF reachable_step.IH unlocked_serial [OF reachable_step.hyps(2)]])
qed

subsection \<open>What an open transaction can change\<close>

text \<open>Its row exists and is a primary, and what it has loaded is an earlier state of the row.\<close>

definition open_ok :: "db \<Rightarrow> open_tx \<Rightarrow> bool" where
  "open_ok d x \<longleftrightarrow> held (ot_row x) d \<and> re_id (ot_loaded x) = ot_row x \<and>
     (\<exists>r \<in> set (raw_events d). same_origin (ot_loaded x) r)"

definition unlocked_base :: "unlocked_system \<Rightarrow> bool" where
  "unlocked_base u \<longleftrightarrow> sys_base (us_system u) \<and> (\<forall>x \<in> set (us_open u). open_ok (us_db u) x)"

lemma same_origin_trans: "same_origin r r' \<Longrightarrow> same_origin r' r'' \<Longrightarrow> same_origin r r''"
  by (simp add: same_origin_def)

lemma open_origin:
  assumes "schema_ok d" and "open_ok d x" and "r \<in> set (raw_events d)" and "re_id r = ot_row x"
  shows "same_origin (ot_loaded x) r" and "is_primary r"
proof -
  from assms(2) obtain q where q: "q \<in> set (raw_events d)" "same_origin (ot_loaded x) q"
    and id: "re_id (ot_loaded x) = ot_row x" by (auto simp: open_ok_def)
  then have "re_id q = re_id r" using assms(4) by (simp add: same_origin_def)
  with schema_same_id [OF assms(1) assms(3) q(1)] q(2) show "same_origin (ot_loaded x) r" by simp
  show "is_primary r" using assms(2-4) by (auto simp: open_ok_def held_def pinned_def)
qed

lemma recorded_status: "recording cx t = Some f \<Longrightarrow> re_status (f r) \<noteq> Duplicate"
  by (cases t) (auto split: if_splits)

lemma same_origin_flush:
  "re_status r \<noteq> Duplicate \<Longrightarrow> re_status r1 \<noteq> Duplicate \<Longrightarrow> same_origin r (flush_row r0 r1 r)"
  by (simp add: same_origin_def changed_column_def)

lemma flush_identity [keeps_intros]: "keeps_identity (flush_row r0 r1)"
  by (simp add: keeps_identity_def dedup_key_def)

lemma written_back_identity [keeps_intros]: "keeps_identity (written_back r0 r)"
  by (simp add: keeps_identity_def dedup_key_def)

lemma flush_only_rows:
  assumes "base_ok d" and "held i d" and "re_status r1 \<noteq> Duplicate"
  shows "only_rows d (snd (session_scope fault (update_raw i (flush_row r0 r1)) d))"
proof (rule session_scope_either [where Q = "only_rows d", OF only_rows_refl], rule only_rows_update_raw)
  fix r assume "r \<in> set (raw_events d)" "re_id r = i"
  with held_not_duplicate [OF assms(1,2)] have "re_status r \<noteq> Duplicate" by simp
  then show "same_origin r (flush_row r0 r1 r)" by (rule same_origin_flush) (rule assms(3))
qed

lemma rows_kept_links: "rows_kept d d' \<Longrightarrow> all_rows status_link d \<Longrightarrow> all_rows status_link d'"
  unfolding rows_kept_def all_rows_def status_link_def
  by (metis list_all2_second same_origin_def)

lemma flush_schema:
  "schema_ok d \<Longrightarrow> schema_ok (snd (session_scope fault (update_raw i (flush_row r0 r1)) d))"
  by (rule keepsD [where I = schema_ok]) (intro keeps_intros)

text \<open>An unlocked persist is a persist, and then some columns of its row are what they were.\<close>

definition change_twice :: "db \<Rightarrow> db \<Rightarrow> bool" where
  "change_twice d d' \<longleftrightarrow> (\<exists>d1. change d d1 \<and> base_ok d1 \<and> change d1 d' \<and> schema_ok d')"

lemma change_once: "base_ok d \<Longrightarrow> change d d' \<Longrightarrow> schema_ok d' \<Longrightarrow> change_twice d d'"
  unfolding change_twice_def using change_refl by blast

lemma change_base: "change d d' \<Longrightarrow> base_ok d \<Longrightarrow> schema_ok d' \<Longrightarrow> base_ok d'"
proof (induction rule: change.induct)
  case (change_rows d d')
  then show ?case using rows_kept_links [of d d'] by (simp add: base_ok_def only_rows_def)
next
  case (change_store dumps id1 id2 t v p d res d')
  with keepsD [OF link.rows_insert_raw_event, of d dumps id1 id2 t v p] show ?case by (simp add: base_ok_def)
next
  case (change_persist raw d sc cfg now db_now eid vid e d')
  from persist_keeps_rows [OF change_persist.prems(1) change_persist.hyps(2,3)] change_persist.prems
  show ?case by (simp add: base_ok_def rows_kept_links)
qed

lemma change_open: "change d d' \<Longrightarrow> base_ok d \<Longrightarrow> open_ok d x \<Longrightarrow> open_ok d' x"
  unfolding open_ok_def using change_keeps_inbox [of d d'] change_held same_origin_trans by blast

lemma persist_reads:
  assumes "re_id r' = re_id r" and "re_vendor_hint r' = re_vendor_hint r"
  shows "persist_normalized sc cfg now db_now eid vid r' ev = persist_normalized sc cfg now db_now eid vid r ev"
  unfolding persist_normalized_def persist_classified_def assms ..

lemma same_origin_written_back:
  assumes "same_origin r0 r" and "re_status r \<noteq> Duplicate"
  shows "same_origin (mark_processed now info r) (written_back r0 r (mark_processed now info r))"
  using assms by (auto simp: same_origin_def changed_column_def)

lemma persist_unlocked_change:
  assumes d: "base_ok d" and ok: "open_ok d x"
    and run: "persist_unlocked sc cfg now db_now eid vid (ot_loaded x) ev d = (Inr (), d')"
  shows "change_twice d d'"
proof (rule persist_unlocked_steps [OF run])
  fix r d1
  let ?r0 = "ot_loaded x"
  assume r: "row_lookup re_id (raw_events d) (re_id ?r0) = Some r"
    and per: "persist_normalized sc cfg now db_now eid vid ?r0 ev d = (Inr (), d1)"
    and upd: "update_raw (re_id ?r0) (written_back ?r0 r) d1 = (Inr (), d')"
  note rin = row_lookup_Some [OF r]
  have schema: "schema_ok d" using d by (simp add: base_ok_def)
  have same: "q = r" if "q \<in> set (raw_events d)" "re_id q = re_id ?r0" for q
    using schema_same_id [OF schema, of r q] rin that by simp
  have held: "held (re_id ?r0) d" and id: "re_id ?r0 = ot_row x" using ok by (simp_all add: open_ok_def)
  have origin: "same_origin ?r0 r" using open_origin(1) [OF schema ok] rin id by simp
  have nodup: "re_status r \<noteq> Duplicate" by (rule held_not_duplicate [OF d held]) (simp_all add: rin)
  have "persist_normalized sc cfg now db_now eid vid r ev d = (Inr (), d1)"
    using per persist_reads [of r ?r0] origin by (simp add: same_origin_def)
  then have ch: "change d d1" using rin held by (intro change_persist [of r]) simp_all
  have schema1: "schema_ok d1" by (rule schema_after_persist [OF schema per])
  have "only_rows d1 (snd (update_raw (re_id ?r0) (written_back ?r0 r) d1))"
  proof (rule persist_raw_row [OF per])
    fix info
    assume rows: "raw_events d1 = row_update re_id (re_id ?r0) (mark_processed now info) (raw_events d)"
    show ?thesis
    proof (rule only_rows_update_raw)
      fix p assume "p \<in> set (raw_events d1)" "re_id p = re_id ?r0"
      with rows same have "p = mark_processed now info r" by (auto simp: row_update_def split: if_splits)
      with same_origin_written_back [OF origin nodup] show "same_origin p (written_back ?r0 r p)" by simp
    qed
  qed
  with upd have ch': "change d1 d'" by (simp add: change_rows)
  have "schema_ok d'"
    using keepsD [OF schema_update_raw [OF written_back_identity] schema1, of "re_id ?r0" ?r0 r] upd by simp
  with ch change_base [OF ch d schema1] ch' show ?thesis unfolding change_twice_def by blast
qed

lemma flush_change:
  assumes "base_ok d" and "held i d" and "re_status r1 \<noteq> Duplicate"
    and "session_scope fault (update_raw i (flush_row r0 r1)) d = (out, d')"
  shows "change_twice d d'"
proof (rule change_once [OF assms(1)])
  show "change d d'" using flush_only_rows [OF assms(1-3), of fault r0] assms(4) by (simp add: change_rows)
  show "schema_ok d'" using flush_schema [of d fault i r0 r1] assms(1,4) by (simp add: base_ok_def)
qed

lemma unlocked_change:
  assumes step: "unlocked_step cx u u'" and base: "unlocked_base u"
  shows "change_twice (us_db u) (us_db u')"
proof -
  have b: "base_ok (us_db u)" using base by (simp add: unlocked_base_def sys_base_def)
  note idle = change_once [OF b change_refl]
  from step show ?thesis
  proof cases
    case (unlocked_serial s s' os)
    with step_change [of cx s s'] sys_base_step [of cx s s'] base b show ?thesis
      by (intro change_once) (simp_all add: unlocked_base_def sys_base_def base_ok_def)
  next
    case (unlocked_flush x os f fault d out d' ts)
    then have "held (ot_row x) d" using base by (simp add: unlocked_base_def open_ok_def)
    from flush_change [OF _ this recorded_status [OF unlocked_flush(4)] unlocked_flush(5)] b unlocked_flush(1,2)
    show ?thesis by simp
  next
    case (unlocked_persist x os ev fault now db_now eid vid d d' ts)
    then have run: "persist_unlocked (cx_scalars cx) (cx_settings cx) now db_now eid vid (ot_loaded x) ev d = (Inr (), d')"
      by (simp add: session_scope_returns)
    from base unlocked_persist have "open_ok d x" by (simp add: unlocked_base_def)
    from persist_unlocked_change [OF _ this run] b unlocked_persist(1,2) show ?thesis by simp
  next
    case (unlocked_not_persisted x os ev fault now db_now eid vid d exc d' ts)
    from session_scope_raises [OF unlocked_not_persisted(5)] unlocked_not_persisted(1,2) idle b show ?thesis
      by (simp add: base_ok_def)
  qed (use idle b in \<open>simp_all add: base_ok_def\<close>)
qed

lemma change_twice_base: "change_twice d d' \<Longrightarrow> base_ok d \<Longrightarrow> base_ok d'"
  unfolding change_twice_def using change_base by blast

lemma change_twice_held: "change_twice d d' \<Longrightarrow> base_ok d \<Longrightarrow> held i d \<Longrightarrow> held i d'"
  unfolding change_twice_def using change_held by blast

lemma change_twice_open: "change_twice d d' \<Longrightarrow> base_ok d \<Longrightarrow> open_ok d x \<Longrightarrow> open_ok d' x"
  unfolding change_twice_def using change_open by blast

lemma change_twice_inbox:
  "change_twice d d' \<Longrightarrow> base_ok d \<Longrightarrow> r \<in> set (raw_events d) \<Longrightarrow> \<exists>r' \<in> set (raw_events d'). same_origin r r'"
  unfolding change_twice_def by (meson change_keeps_inbox same_origin_trans)

lemma task_failed_row: "x \<in> set (task_failed cx exc t) \<Longrightarrow> task_row x = task_row t"
  by (cases t) auto

lemma loaded_open:
  "row_lookup re_id (raw_events d) (task_row t) = Some r \<Longrightarrow> held (task_row t) d \<Longrightarrow>
   open_ok d \<lparr>ot_task = t, ot_loaded = r\<rparr>"
  using row_lookup_Some [of re_id "raw_events d" "task_row t" r] same_origin_refl by (auto simp: open_ok_def)

text \<open>What is open after a step, and what is still to do, works on rows that were held before it.\<close>

lemma unlocked_base_step:
  assumes step: "unlocked_step cx u u'" and base: "unlocked_base u"
  shows "unlocked_base u'"
proof -
  have b: "base_ok (us_db u)" using base by (simp add: unlocked_base_def sys_base_def)
  note ch = unlocked_change [OF step base]
  have b': "base_ok (us_db u')" by (rule change_twice_base [OF ch b])
  have tasks: "\<And>t. t \<in> set (sys_tasks (us_system u)) \<Longrightarrow> held (task_row t) (us_db u')"
    using base by (intro change_twice_held [OF ch b]) (simp add: unlocked_base_def sys_base_def)
  have opens: "\<And>x. x \<in> set (us_open u) \<Longrightarrow> open_ok (us_db u') x"
    using base by (intro change_twice_open [OF ch b]) (simp add: unlocked_base_def)
  note subs = set_remove1_subset [THEN subsetD]
  from step have "sys_base (us_system u') \<and> (\<forall>x \<in> set (us_open u'). open_ok (us_db u') x)"
  proof cases
    case (unlocked_serial s s' os)
    with sys_base_step [of cx s s'] base opens show ?thesis by (simp add: unlocked_base_def)
  next
    case (unlocked_load t ts d r os)
    with tasks [of t] loaded_open [of d t r] tasks opens b' show ?thesis
      by (auto simp: sys_base_def dest: subs)
  next
    case (unlocked_flush x os f fault d out d' ts)
    with tasks opens b' show ?thesis by (auto simp: sys_base_def dest: subs)
  next
    case (unlocked_persist x os ev fault now db_now eid vid d d' ts)
    with tasks opens b' show ?thesis by (auto simp: sys_base_def dest: subs)
  next
    case (unlocked_not_persisted x os ev fault now db_now eid vid d exc d' ts)
    with opens [of x] have "held (ot_row x) d'" by (simp add: open_ok_def)
    with unlocked_not_persisted tasks opens b' task_failed_row show ?thesis
      by (fastforce simp: sys_base_def dest: subs)
  qed
  then show ?thesis by (simp add: unlocked_base_def)
qed

lemma unlocked_base_reachable: "unlocked_reachable cx u \<Longrightarrow> unlocked_base u"
proof (induction rule: unlocked_reachable.induct)
  case unlocked_initial
  show ?case by (simp add: unlocked_base_def sys_base_def initial_system_def base_ok_empty)
next
  case (unlocked_more u u')
  show ?case by (rule unlocked_base_step [OF unlocked_more.hyps(2) unlocked_more.IH])
qed

lemma unlocked_schema: "unlocked_reachable cx u \<Longrightarrow> schema_ok (us_db u)"
  using unlocked_base_reachable by (auto simp: unlocked_base_def sys_base_def base_ok_def)

subsection \<open>The invariants survive\<close>

context db_invariant
begin

lemma change_twice_keeps:
  assumes "change_twice d d'" and "base_ok d" and "I d"
  shows "I d'"
  using assms(1) unfolding change_twice_def
proof (elim exE conjE)
  fix d1 assume d1: "change d d1" "base_ok d1" "change d1 d'" "schema_ok d'"
  then have "schema_ok d1" by (simp add: base_ok_def)
  from change_keeps [OF d1(3,2) change_keeps [OF d1(1) assms(2,3) this] d1(4)] show "I d'" .
qed

lemma unlocked_invariant: "unlocked_reachable cx u \<Longrightarrow> I (us_db u)"
proof (induction rule: unlocked_reachable.induct)
  case unlocked_initial
  show ?case by (simp add: initial_system_def initial)
next
  case (unlocked_more u u')
  note base = unlocked_base_reachable [OF unlocked_more.hyps(1)]
  show ?case
    by (rule change_twice_keeps [OF unlocked_change [OF unlocked_more.hyps(2) base] _ unlocked_more.IH])
       (use base in \<open>simp add: unlocked_base_def sys_base_def\<close>)
qed

end

subsection \<open>Properties of rows\<close>

text \<open>
  The contract of a property of rows with the updates a flush makes: both the row as it was loaded and the
  row as it has become have the property, and the first is an earlier state of the second.
\<close>

locale flush_contract = row_contract +
  assumes flushed: "P r0 \<Longrightarrow> P r \<Longrightarrow> is_primary r \<Longrightarrow> same_origin r0 r \<Longrightarrow> recording cx t = Some f \<Longrightarrow>
      P (flush_row r0 (f r0) r)"
    and written: "P r0 \<Longrightarrow> P r \<Longrightarrow> is_primary r \<Longrightarrow> same_origin r0 r \<Longrightarrow> varchar_opt 2000 info \<Longrightarrow>
      P (written_back r0 r (mark_processed now info r))"
begin

definition unlocked_rows :: "unlocked_system \<Rightarrow> bool" where
  "unlocked_rows u \<longleftrightarrow> all_rows P (us_db u) \<and> (\<forall>x \<in> set (us_open u). P (ot_loaded x))"

lemma rows_flush:
  assumes "schema_ok d" and "all_rows P d" and "open_ok d x" and "P (ot_loaded x)"
    and "recording cx (ot_task x) = Some f"
  shows "all_rows P (snd (session_scope fault (update_raw (ot_row x) (flush_row (ot_loaded x) (f (ot_loaded x)))) d))"
proof (rule session_scope_either [where Q = "all_rows P", OF assms(2)])
  let ?f = "flush_row (ot_loaded x) (f (ot_loaded x))"
  have "P (?f r)" if "r \<in> set (raw_events d)" "re_id r = ot_row x" for r
    using open_origin [OF assms(1,3) that] assms(2) that flushed [OF assms(4) _ _ _ assms(5)]
    by (simp add: all_rows_def)
  with assms(2) have "\<forall>r \<in> set (row_update re_id (ot_row x) ?f (raw_events d)). P r"
    by (auto simp: all_rows_def row_update_def)
  with assms(2) update_raw_cases [of "ot_row x" ?f d] show "all_rows P (snd (update_raw (ot_row x) ?f d))"
    by (auto simp: all_rows_def)
qed

lemma rows_persist_unlocked:
  assumes "schema_ok d" and "all_rows P d" and "open_ok d x" and "P (ot_loaded x)"
    and "persist_unlocked sc cfg now db_now eid vid (ot_loaded x) ev d = (Inr (), d')"
  shows "all_rows P d'"
proof (rule persist_unlocked_row [OF assms(1,5)])
  let ?r0 = "ot_loaded x"
  fix r info
  assume r: "r \<in> set (raw_events d)" "re_id r = re_id ?r0" and info: "varchar_opt 2000 info"
    and rows: "raw_events d' = row_update re_id (re_id ?r0)
      (\<lambda>q. written_back ?r0 r (mark_processed now info r)) (raw_events d)"
  have "re_id r = ot_row x" using r(2) assms(3) by (simp add: open_ok_def)
  note origin = open_origin [OF assms(1,3) r(1) this]
  have "P (written_back ?r0 r (mark_processed now info r))"
    using assms(2) r(1) by (intro written [OF assms(4) _ origin(2,1) info]) (simp add: all_rows_def)
  with assms(2) show ?thesis by (auto simp: all_rows_def rows row_update_def)
qed

lemma unlocked_rows_step:
  assumes step: "unlocked_step cx u u'" and base: "unlocked_base u" and ok: "unlocked_rows u"
  shows "unlocked_rows u'"
proof -
  have schema: "schema_ok (us_db u)" using base by (simp add: unlocked_base_def sys_base_def base_ok_def)
  have opens: "open_ok (us_db u) x \<and> P (ot_loaded x)" if "x \<in> set (us_open u)" for x
    using base ok that by (simp add: unlocked_base_def unlocked_rows_def)
  have rows: "all_rows P (us_db u)" using ok by (simp add: unlocked_rows_def)
  note subs = set_remove1_subset [THEN subsetD]
  from step show ?thesis
  proof cases
    case (unlocked_serial s s' os)
    with step_rows [of cx s s'] schema rows base ok show ?thesis
      by (simp add: unlocked_rows_def unlocked_base_def sys_base_def)
  next
    case (unlocked_load t ts d r os)
    with row_lookup_Some [OF unlocked_load(5)] ok show ?thesis by (auto simp: unlocked_rows_def all_rows_def)
  next
    case (unlocked_flush x os f fault d out d' ts)
    with rows_flush [OF _ _ _ _ unlocked_flush(4), of d fault] schema rows opens [of x]
    have "all_rows P d'" by simp
    with unlocked_flush ok show ?thesis by (auto simp: unlocked_rows_def dest: subs)
  next
    case (unlocked_persist x os ev fault now db_now eid vid d d' ts)
    then have "persist_unlocked (cx_scalars cx) (cx_settings cx) now db_now eid vid (ot_loaded x) ev d = (Inr (), d')"
      by (simp add: session_scope_returns)
    from rows_persist_unlocked [OF _ _ _ _ this] schema rows opens [of x] unlocked_persist
    have "all_rows P d'" by simp
    with unlocked_persist ok show ?thesis by (auto simp: unlocked_rows_def dest: subs)
  next
    case (unlocked_not_persisted x os ev fault now db_now eid vid d exc d' ts)
    from session_scope_raises [OF unlocked_not_persisted(5)] unlocked_not_persisted ok show ?thesis
      by (auto simp: unlocked_rows_def dest: subs)
  qed
qed

lemma unlocked_rows_reachable: "unlocked_reachable cx u \<Longrightarrow> unlocked_rows u"
proof (induction rule: unlocked_reachable.induct)
  case unlocked_initial
  show ?case by (simp add: unlocked_rows_def initial_system_def all_rows_def empty_db_def)
next
  case (unlocked_more u u')
  show ?case
    by (rule unlocked_rows_step [OF unlocked_more.hyps(2) unlocked_base_reachable [OF unlocked_more.hyps(1)]
          unlocked_more.IH])
qed

end

text \<open>What of the lifecycle holds whatever is loaded without a lock.\<close>

definition core_row :: "raw_event \<Rightarrow> bool" where
  "core_row r \<longleftrightarrow>
     status_link r \<and>
     (re_status r = Processed \<longrightarrow> re_processed_at r \<noteq> None) \<and>
     (re_status r = Failed \<longrightarrow> 1 \<le> re_attempts r) \<and>
     (re_status r = Duplicate \<longrightarrow> re_attempts r = 0 \<and> re_last_error r = None \<and>
        re_locked_at r = None \<and> re_processed_at r = None) \<and>
     0 \<le> re_attempts r \<and> varchar_opt 2000 (re_last_error r)"

lemma core_changes:
  assumes "core_row r"
  shows "re_status r = Pending \<Longrightarrow> core_row (mark_claimed t r)"
    and "is_primary r \<Longrightarrow> core_row (fail_row err m r)"
    and "re_status r = Processing \<Longrightarrow> core_row (release_row r)"
    and "is_primary r \<Longrightarrow> varchar_opt 2000 info \<Longrightarrow> core_row (mark_processed t info r)"
    and "re_status r \<noteq> Duplicate \<Longrightarrow> re_status r \<noteq> Processed \<Longrightarrow> core_row (acquire_row t r)"
    and "is_primary r \<Longrightarrow> core_row (retry_failed_row err r)"
  using assms unfolding core_row_def status_link_def is_primary_def
  by (simp_all del: append.simps)

lemma changed_column_either: "changed_column a b c = b \<or> changed_column a b c = c"
  by (simp add: changed_column_def)

lemma core_flush_status:
  assumes "core_row r" and "is_primary r" and "re_status q = re_status r \<or> re_status q = Pending \<or> re_status q = Failed"
    and "re_status r = Failed \<or> re_status q = Failed \<Longrightarrow> 1 \<le> re_attempts q" and "0 \<le> re_attempts q"
    and "re_last_error q = re_last_error r \<or> (\<exists>e. re_last_error q = Some (py_prefix 2000 e))"
    and "re_processed_at q = re_processed_at r" and "re_duplicate_of_id q = re_duplicate_of_id r"
  shows "core_row q"
proof -
  have "re_status r \<noteq> Duplicate" using assms(1,2) by (simp add: core_row_def status_link_def is_primary_def)
  moreover from this assms(3) have "re_status q \<noteq> Duplicate" by auto
  moreover have "varchar_opt 2000 (re_last_error q)" using assms(1,6) by (auto simp: core_row_def varchar_def)
  moreover have "re_status q = Processed \<longrightarrow> re_processed_at q \<noteq> None" using assms(1,3,7) by (auto simp: core_row_def)
  ultimately show ?thesis using assms(1,4,5,8) by (simp add: core_row_def status_link_def)
qed

lemma core_flushed:
  assumes r0: "core_row r0" and r: "core_row r" "is_primary r" and f: "recording cx t = Some f"
  shows "core_row (flush_row r0 (f r0) r)"
proof (rule core_flush_status [OF r])
  let ?q = "flush_row r0 (f r0) r"
  have att0: "0 \<le> re_attempts r0" and att: "0 \<le> re_attempts r" "re_status r = Failed \<longrightarrow> 1 \<le> re_attempts r"
    using r0 r by (simp_all add: core_row_def)
  from f consider err where "f = fail_row err (max_attempts cx)" | err where "f = retry_failed_row err"
    by (cases t) auto
  then have new: "re_status (f r0) = Pending \<or> re_status (f r0) = Failed \<and> re_attempts (f r0) = re_attempts r0 + 1"
    "re_attempts (f r0) = re_attempts r0 + 1 \<or> re_attempts (f r0) = re_attempts r0 \<and> re_status (f r0) = Pending"
    and err: "\<exists>e. re_last_error (f r0) = Some (py_prefix 2000 e)"
    by (cases; force)+
  then show "re_status ?q = re_status r \<or> re_status ?q = Pending \<or> re_status ?q = Failed"
    using changed_column_either [of "re_status r0" "re_status (f r0)" "re_status r"] by auto
  show "re_last_error ?q = re_last_error r \<or> (\<exists>e. re_last_error ?q = Some (py_prefix 2000 e))"
    using err changed_column_either [of "re_last_error r0" "re_last_error (f r0)" "re_last_error r"] by auto
  show "1 \<le> re_attempts ?q" if "re_status r = Failed \<or> re_status ?q = Failed"
    using that new(1,2) att att0 by (auto simp: changed_column_def split: if_splits)
  show "0 \<le> re_attempts ?q" using new(2) att att0 by (auto simp: changed_column_def)
qed simp_all

lemma core_written:
  assumes r0: "core_row r0" and r: "core_row r" "is_primary r" and origin: "same_origin r0 r"
    and info: "varchar_opt 2000 info"
  shows "core_row (written_back r0 r (mark_processed now info r))"
proof -
  let ?q = "written_back r0 r (mark_processed now info r)"
  have same: "re_attempts ?q = re_attempts r" "re_duplicate_of_id ?q = re_duplicate_of_id r"
    "re_last_error ?q = changed_column (re_last_error r0) info (re_last_error r)"
    by (simp_all add: written_back_def)
  have "re_status r \<noteq> Duplicate" using r by (simp add: core_row_def status_link_def is_primary_def)
  moreover have st: "re_status ?q = Processed \<or> re_status ?q = re_status r"
    using changed_column_either [of "re_status r0" Processed "re_status r"] by simp
  moreover have "re_processed_at ?q \<noteq> None" if "re_status ?q = Processed"
  proof (cases "re_processed_at r0 = Some now")
    case True
    with origin have "re_processed_at r \<noteq> None" by (simp add: same_origin_def)
    then show ?thesis by (simp add: changed_column_def)
  qed (simp add: changed_column_def)
  moreover have "varchar_opt 2000 (re_last_error ?q)"
    using info r(1) same(3) changed_column_either [of "re_last_error r0" info "re_last_error r"]
    by (auto simp: core_row_def)
  ultimately show ?thesis using r(1) same(1,2) unfolding core_row_def status_link_def by auto
qed

interpretation core: flush_contract core_row
proof
  show "core_row (new_raw_event i t v p h None Pending)" for i t v p h
    by (simp add: core_row_def status_link_def)
  show "core_row (new_raw_event i t v p h (Some j) Duplicate)" for i t v p h j
    by (simp add: core_row_def status_link_def)
  show "is_primary r" if "core_row r" "re_status r \<noteq> Duplicate" for r
    using that by (simp add: core_row_def status_link_def is_primary_def)
  show "core_row (flush_row r0 (f r0) r)"
    if "core_row r0" "core_row r" "is_primary r" "recording cx t = Some f" for r0 r cx t f
    using that by (rule core_flushed)
qed (fact core_changes core_written)+

lemma unlocked_core: "unlocked_reachable cx u \<Longrightarrow> all_rows core_row (us_db u)"
  using core.unlocked_rows_reachable by (simp add: core.unlocked_rows_def)

end
