(* ===== verification/Replay.thy ===== *)
theory Replay
  imports Concurrency
begin

text \<open>
  Entities as the replay of their histories, over runs of the whole system. \<open>replay_ok\<close> is not an
  invariant of every run: a raw event that is persisted a second time can move an entity without leaving
  an event in its history. It holds as long as no raw event is persisted that a history already has.
\<close>

subsection \<open>Changes that leave the entities alone\<close>

definition same_entities :: "db \<Rightarrow> db \<Rightarrow> bool" where
  "same_entities d d' \<longleftrightarrow> (\<forall>k. entities k d' = entities k d \<and> entity_events k d' = entity_events k d)"

lemma same_entities_refl: "same_entities d d"
  by (simp add: same_entities_def)

lemma same_entities_empty:
  "same_entities empty_db d \<Longrightarrow> entities k d = [] \<and> entity_events k d = []"
  by (cases k) (simp_all add: same_entities_def empty_db_def)

lemma same_entities_trans: "same_entities a b \<Longrightarrow> same_entities b c \<Longrightarrow> same_entities a c"
  by (simp add: same_entities_def)

lemma same_entities_rows: "only_rows d d' \<Longrightarrow> same_entities d d'"
  by (simp add: only_rows_def same_entities_def)

lemma same_entities_update: "same_entities d (snd (update_raw i f d))"
  by (simp add: same_entities_def update_raw_def)

lemma replay_same_entities: "same_entities d d' \<Longrightarrow> replay_ok d \<Longrightarrow> replay_ok d'"
  by (simp add: same_entities_def replay_ok_def replay_def history_def)

lemma same_entities_ingest:
  assumes "ingest_webhook dumps loads cfg env v body d = (out, d')"
  shows "same_entities d d'"
proof (cases out)
  case (Inl e)
  with assms have "d' = d" by (intro ingest_webhook_raises) simp
  then show ?thesis by (simp add: same_entities_refl)
next
  case (Inr ack)
  from assms [unfolded Inr] show ?thesis
    by (rule ingest_webhook_effect) (simp_all add: same_entities_def insert_keeps_tables)
qed

subsection \<open>Persisting once\<close>

text \<open>The raw events that are in a history.\<close>

definition logged_ids :: "db \<Rightarrow> uuid set" where
  "logged_ids d = (\<Union>k. ev_raw_event_id ` set (entity_events k d))"

lemma replay_persist_once:
  assumes d: "base_ok d" "projection_ok d" "replay_ok d" and held: "held (re_id raw) d"
    and run: "persist_normalized sc cfg now db_now eid vid raw e d = (Inr (), d')"
    and first: "re_id raw \<notin> logged_ids d"
  shows "replay_ok d'"
proof (cases "payload_kind (ne_payload e)")
  case None
  from same_entities_rows [OF persist_unclassified_only_rows [OF d(1) held None run]] d(3)
  show ?thesis by (rule replay_same_entities)
next
  case (Some k)
  with payload_kind_external_ref obtain ref where "external_ref e = Some ref"
    by (auto simp: external_ref_def)
  then show ?thesis
    using first by (intro replay_ok_persist [OF d(2,3) run Some]) (auto simp: logged_ids_def)
qed

text \<open>What is still to be done or to be committed.\<close>

definition pending_work :: "unlocked_system \<Rightarrow> task multiset" where
  "pending_work u = mset (sys_tasks (us_system u)) + image_mset ot_task (mset (us_open u))"

text \<open>A step that ends a persist and changes the database does so for a raw event that is in no history.\<close>

definition persists_once :: "unlocked_system \<Rightarrow> unlocked_system \<Rightarrow> bool" where
  "persists_once u u' \<longleftrightarrow> us_db u' = us_db u \<or>
     (\<forall>t. t \<in># pending_work u - pending_work u' \<longrightarrow> task_event t \<noteq> None \<longrightarrow> task_row t \<notin> logged_ids (us_db u))"

inductive once_reachable :: "context_params \<Rightarrow> unlocked_system \<Rightarrow> bool" for cx :: context_params where
  once_initial: "once_reachable cx \<lparr>us_system = initial_system, us_open = []\<rparr>"
| once_more: "once_reachable cx u \<Longrightarrow> unlocked_step cx u u' \<Longrightarrow> persists_once u u' \<Longrightarrow> once_reachable cx u'"

lemma once_unlocked: "once_reachable cx u \<Longrightarrow> unlocked_reachable cx u"
  by (induction rule: once_reachable.induct) (auto intro: unlocked_reachable.intros)

lemma once_serial:
  assumes "once_reachable cx \<lparr>us_system = s, us_open = os\<rparr>" and "sys_step cx s s'" and "logged_ids (sys_db s) = {}"
  shows "once_reachable cx \<lparr>us_system = s', us_open = os\<rparr>"
  by (rule once_more [OF assms(1) unlocked_serial [OF assms(2)]]) (simp add: persists_once_def assms(3))

lemma ended_in: "t \<in># A \<Longrightarrow> t \<in># A + B - (A - {#t#} + B)"
  by (drule multi_member_split) auto

lemma ended_task:
  assumes "t \<in> set ts"
  shows "t \<in># pending_work \<lparr>us_system = \<lparr>sys_db = d, sys_tasks = ts\<rparr>, us_open = os\<rparr> -
     pending_work \<lparr>us_system = \<lparr>sys_db = d', sys_tasks = remove1 t ts\<rparr>, us_open = os\<rparr>"
  using ended_in [of t "mset ts" "image_mset ot_task (mset os)"] assms by (simp add: pending_work_def)

lemma ended_open:
  assumes "x \<in> set os"
  shows "ot_task x \<in># pending_work \<lparr>us_system = \<lparr>sys_db = d, sys_tasks = ts\<rparr>, us_open = os\<rparr> -
     pending_work \<lparr>us_system = \<lparr>sys_db = d', sys_tasks = ts\<rparr>, us_open = remove1 x os\<rparr>"
  using ended_in [of "ot_task x" "image_mset ot_task (mset os)" "mset ts"] assms
  by (simp add: pending_work_def image_mset_Diff add.commute)

subsection \<open>The replay of the histories is kept\<close>

text \<open>A step of the serial system persists the event of a task it ends, or leaves the entities alone.\<close>

lemma step_persists:
  assumes step: "sys_step cx s s'" and base: "sys_base s"
  obtains (other) "same_entities (sys_db s) (sys_db s')"
  | (persist) t raw e now db_now eid vid where
      "t \<in># pending_work \<lparr>us_system = s, us_open = os\<rparr> - pending_work \<lparr>us_system = s', us_open = os\<rparr>"
      "task_event t \<noteq> None" "re_id raw = task_row t" "held (re_id raw) (sys_db s)"
      "persist_normalized (cx_scalars cx) (cx_settings cx) now db_now eid vid raw e (sys_db s) = (Inr (), sys_db s')"
proof -
  have b: "base_ok (sys_db s)" and tasks: "\<And>t. t \<in> set (sys_tasks s) \<Longrightarrow> held (task_row t) (sys_db s)"
    using base by (auto simp: sys_base_def)
  from step show ?thesis
  proof cases
    case (step_ingest env vendor body d out d' ts)
    then show ?thesis using same_entities_ingest by (intro other) simp
  next
    case (step_claim fault tie locked now d r d' ts)
    then show ?thesis using claim_effect(1) [of d] b by (intro other same_entities_rows) auto
  next
    case (step_persist i ev ts env d d')
    then have run: "persist_loaded (cx_scalars cx) (cx_settings cx) env i ev d = (Inr (), d')"
      by (simp add: session_scope_returns)
    show ?thesis
    proof (cases "row_lookup re_id (raw_events d) i")
      case None
      with run have "d' = d" by (simp add: persist_loaded_def tx_simps get_raw_def)
      with step_persist show ?thesis by (intro other) (simp add: same_entities_refl)
    next
      case (Some r)
      with run have "persist_normalized (cx_scalars cx) (cx_settings cx) (pe_now env) (pe_db_now env)
          (pe_entity_id env) (pe_event_id env) r ev d = (Inr (), d')"
        by (simp add: persist_loaded_def tx_simps get_raw_def)
      with row_lookup_Some [OF Some] step_persist tasks [of "WorkerPersist i ev"] ended_task [OF step_persist(3)]
      show ?thesis by (intro persist [of "WorkerPersist i ev" r]) simp_all
    qed
  next
    case (step_not_persisted i ev ts env d exc d')
    from session_scope_raises [OF step_not_persisted(4)] step_not_persisted show ?thesis
      by (intro other) (simp add: same_entities_refl)
  next
    case (step_mark_failed i err ts fault d out d')
    with mark_failed_effect [OF b, of i fault err "max_attempts cx"] tasks [of "WorkerFail i err"]
    show ?thesis by (intro other same_entities_rows) simp
  next
    case (step_reap fault now d out' d' ts)
    with reap_effect [of d fault "cx_settings cx" now] show ?thesis by (intro other same_entities_rows) simp
  next
    case (step_acquire fault i now d p d' ts)
    then show ?thesis using acquire_effect(1) [of d] b by (intro other same_entities_rows) auto
  next
    case (step_retry_persist i ev ts renv d d')
    then have run: "retry_persist (cx_scalars cx) (cx_settings cx) renv i ev d = (Inr (), d')"
      by (simp add: session_scope_returns)
    then obtain r where r: "row_lookup re_id (raw_events d) i = Some r"
      by (cases "row_lookup re_id (raw_events d) i") (simp_all add: retry_persist_def tx_simps get_raw_def)
    with run have "persist_normalized (cx_scalars cx) (cx_settings cx) (rt_now renv) (rt_db_now renv)
        (rt_entity_id renv) (rt_event_id renv) r ev d = (Inr (), d')"
      by (simp add: retry_persist_def tx_simps get_raw_def)
    with row_lookup_Some [OF r] step_retry_persist tasks [of "RetryPersist i ev"] ended_task [OF step_retry_persist(3)]
    show ?thesis by (intro persist [of "RetryPersist i ev" r]) simp_all
  next
    case (step_retry_not_persisted i ev ts renv d exc d')
    from session_scope_raises [OF step_retry_not_persisted(4)] step_retry_not_persisted show ?thesis
      by (intro other) (simp add: same_entities_refl)
  next
    case (step_record i exc ts fault d out'' d')
    with record_effect [OF b, of i fault "cx_repr cx exc"] tasks [of "RetryRecord i exc"]
    show ?thesis by (intro other same_entities_rows) simp
  qed (auto intro: other simp: same_entities_refl)
qed

lemma replay_step:
  assumes step: "unlocked_step cx u u'" and once: "persists_once u u'" and base: "unlocked_base u"
    and ok: "projection_ok (us_db u)" "replay_ok (us_db u)"
  shows "replay_ok (us_db u')"
proof (cases "us_db u' = us_db u")
  case True
  with ok show ?thesis by simp
next
  case False
  have b: "base_ok (us_db u)" using base by (simp add: unlocked_base_def sys_base_def)
  have first: "task_row t \<notin> logged_ids (us_db u)"
    if "t \<in># pending_work u - pending_work u'" "task_event t \<noteq> None" for t
    using once False that by (simp add: persists_once_def)
  from step show ?thesis
  proof cases
    case (unlocked_serial s s' os)
    have "sys_base s" using base unlocked_serial by (simp add: unlocked_base_def)
    from unlocked_serial(3) this show ?thesis
    proof (cases rule: step_persists [where os = os])
      case other
      with unlocked_serial ok show ?thesis using replay_same_entities by simp
    next
      case (persist t raw e now db_now eid vid)
      with first [of t] unlocked_serial have "re_id raw \<notin> logged_ids (sys_db s)" by simp
      with replay_persist_once [OF _ _ _ persist(4,5)] b ok unlocked_serial show ?thesis by simp
    qed
  next
    case (unlocked_load t ts d r os)
    with False show ?thesis by simp
  next
    case (unlocked_flush x os f fault d out d' ts)
    have "same_entities d (snd (session_scope fault
        (update_raw (ot_row x) (flush_row (ot_loaded x) (f (ot_loaded x)))) d))"
      by (rule session_scope_either [where Q = "same_entities d"]) (rule same_entities_refl same_entities_update)+
    with unlocked_flush ok show ?thesis using replay_same_entities by simp
  next
    case (unlocked_persist x os ev fault now db_now eid vid d d' ts)
    have ot: "re_id (ot_loaded x) = ot_row x" "held (ot_row x) d"
      using base unlocked_persist by (simp_all add: unlocked_base_def open_ok_def)
    have new: "re_id (ot_loaded x) \<notin> logged_ids d"
      using first [of "ot_task x"] ended_open [OF unlocked_persist(3)] unlocked_persist ot(1) by simp
    have "persist_unlocked (cx_scalars cx) (cx_settings cx) now db_now eid vid (ot_loaded x) ev d = (Inr (), d')"
      using unlocked_persist by (simp add: session_scope_returns)
    then show ?thesis
    proof (rule persist_unlocked_steps)
      fix r d1
      assume run: "persist_normalized (cx_scalars cx) (cx_settings cx) now db_now eid vid (ot_loaded x) ev d = (Inr (), d1)"
        and upd: "update_raw (re_id (ot_loaded x)) (written_back (ot_loaded x) r) d1 = (Inr (), d')"
      have "replay_ok d1"
        by (rule replay_persist_once [OF _ _ _ _ run new]) (use b ok unlocked_persist ot in simp_all)
      with upd same_entities_update [of d1 "re_id (ot_loaded x)" "written_back (ot_loaded x) r"]
      show ?thesis using replay_same_entities unlocked_persist by simp
    qed
  next
    case (unlocked_not_persisted x os ev fault now db_now eid vid d exc d' ts)
    from session_scope_raises [OF unlocked_not_persisted(5)] unlocked_not_persisted ok show ?thesis by simp
  qed
qed

lemma once_replay: "once_reachable cx u \<Longrightarrow> replay_ok (us_db u)"
proof (induction rule: once_reachable.induct)
  case once_initial
  show ?case by (simp add: initial_system_def replay_ok_empty)
next
  case (once_more u u')
  note reach = once_unlocked [OF once_more.hyps(1)]
  show ?case
    by (rule replay_step [OF once_more.hyps(2,3) unlocked_base_reachable [OF reach]
          entity_rows.unlocked_invariant [OF reach] once_more.IH])
qed

end
