(* ===== verification/Runs.thy ===== *)
theory Runs
  imports Samples Application Replay
begin

text \<open>
  Runs of the whole service from the empty database: one webhook is delivered and processed, and,
  continuing, a worker that was too slow puts the processed row back into the queue, where it is
  processed once more under another classification.
\<close>

definition sample_context :: context_params where
  "sample_context =
     \<lparr>cx_scalars = sample_scalars, cx_dumps = sample_dumps, cx_loads = sample_loads,
      cx_repr = sample_repr, cx_show = sample_show, cx_settings = default_settings\<rparr>"

lemma sample_context_simps [simp]:
  "cx_scalars sample_context = sample_scalars" "cx_dumps sample_context = sample_dumps"
  "cx_loads sample_context = sample_loads" "cx_settings sample_context = default_settings"
  "worker_max_attempts default_settings = 5" "api_request_max_bytes default_settings = 1048576"
  "worker_stale_lock_minutes default_settings = 5"
  by (simp_all add: sample_context_def default_settings_def)

subsection \<open>Steps on a database with one raw event\<close>

lemma claim_steps:
  assumes "schema_ok d" and row: "raw_events d = [r]" and "re_status r = Pending"
  shows "sys_step cx \<lparr>sys_db = d, sys_tasks = ts\<rparr>
    \<lparr>sys_db = claimed_db t r d, sys_tasks = WorkerClassify (re_id r) (re_payload r) # ts\<rparr>"
proof -
  have "next_pending (\<lambda>_. 0) [] d = Some r"
    using assms(3) by (simp add: next_pending_def row claimable_def)
  then have "claim_one (\<lambda>_. 0) [] t (max_attempts cx) d =
      (Inr (Some (mark_claimed t r)), claimed_db t r d)"
    by (simp add: claim_one_result [OF assms(1)])
  then have "session_scope None (claim_one (\<lambda>_. 0) [] t (max_attempts cx)) d =
      (Inr (Some (mark_claimed t r)), claimed_db t r d)"
    by (simp add: session_scope_None)
  from step_claim [OF this, of ts] show ?thesis by simp
qed

lemma run_claim:
  assumes "reachable cx \<lparr>sys_db = d, sys_tasks = ts\<rparr>" and row: "raw_events d = [r]"
    and "re_status r = Pending"
  obtains d' where "reachable cx \<lparr>sys_db = d', sys_tasks = WorkerClassify (re_id r) (re_payload r) # ts\<rparr>"
    "raw_events d' = [mark_claimed t r]" "same_entities d d'"
  using reachable_step [OF assms(1) claim_steps [OF reachable_schema [OF assms(1)] assms(2,3)]]
  by (intro that [of "claimed_db t r d"]) (simp_all add: row row_update_def same_entities_def)

lemma run_reap:
  assumes "reachable cx \<lparr>sys_db = d, sys_tasks = ts\<rparr>" and row: "raw_events d = [r]"
    and "minutes_before (worker_stale_lock_minutes (cx_settings cx)) now = Some th" and "is_stale th r"
  obtains d' where "reachable cx \<lparr>sys_db = d', sys_tasks = ts\<rparr>"
    "raw_events d' = [release_row r]" "same_entities d d'"
  using reachable_step [OF assms(1) step_reap [OF reap_stale_result [OF assms(3)]]] assms(4)
  by (intro that) (auto simp: row same_entities_def)

lemma persist_steps:
  assumes schema: "schema_ok d" and row: "raw_events d = [r]"
    and k: "payload_kind (ne_payload ev) = Some k" and ref: "external_ref ev = Some ref"
    and utc: "ensure_utc (ne_event_at ev) = Some u"
    and fits: "varchar 128 ref" "varchar_opt 512 (vendor_milestone ev)"
    and fresh: "eid \<notin> en_id ` set (entities k d)" "vid \<notin> ev_id ` set (entity_events k d)"
  obtains d' where
    "sys_step cx \<lparr>sys_db = d, sys_tasks = WorkerPersist (re_id r) ev # ts\<rparr> \<lparr>sys_db = d', sys_tasks = ts\<rparr>"
    "persist_normalized (cx_scalars cx) (cx_settings cx) now now eid vid r ev d = (Inr (), d')"
proof -
  have "fst (persist_normalized (cx_scalars cx) (cx_settings cx) now now eid vid r ev d) = Inr ()"
    by (rule persist_classified_succeeds [OF schema _ k ref utc fits fresh]) (simp add: row)
  then obtain d' where run: "persist_normalized (cx_scalars cx) (cx_settings cx) now now eid vid r ev d = (Inr (), d')"
    by (metis prod.collapse)
  let ?env = "\<lparr>pe_tie = \<lambda>_. 0, pe_locked = [], pe_claim_now = now, pe_now = now, pe_db_now = now,
    pe_entity_id = eid, pe_event_id = vid, pe_claim_fault = None, pe_persist_fault = None,
    pe_mark_fault = None\<rparr>"
  have "session_scope (pe_persist_fault ?env) (persist_loaded (cx_scalars cx) (cx_settings cx) ?env (re_id r) ev) d
      = (Inr (), d')"
    using run by (simp add: session_scope_None persist_loaded_def tx_simps get_raw_def row)
  from step_persist [OF _ this, of "WorkerPersist (re_id r) ev # ts"] run show ?thesis
    by (intro that) simp_all
qed

lemma run_persist:
  assumes reach: "reachable cx \<lparr>sys_db = d, sys_tasks = WorkerPersist (re_id r) ev # ts\<rparr>"
    and row: "raw_events d = [r]"
    and k: "payload_kind (ne_payload ev) = Some k" and ref: "external_ref ev = Some ref"
    and utc: "ensure_utc (ne_event_at ev) = Some u"
    and fits: "varchar 128 ref" "varchar_opt 512 (vendor_milestone ev)"
    and fresh: "eid \<notin> en_id ` set (entities k d)" "vid \<notin> ev_id ` set (entity_events k d)"
  obtains d' info where "reachable cx \<lparr>sys_db = d', sys_tasks = ts\<rparr>"
    "raw_events d' = [mark_processed now info r]"
    "persist_normalized (cx_scalars cx) (cx_settings cx) now now eid vid r ev d = (Inr (), d')"
proof (rule persist_steps [OF reachable_schema [OF reach, simplified] row k ref utc fits fresh])
  fix d'
  assume step: "sys_step cx \<lparr>sys_db = d, sys_tasks = WorkerPersist (re_id r) ev # ts\<rparr> \<lparr>sys_db = d', sys_tasks = ts\<rparr>"
    and run: "persist_normalized (cx_scalars cx) (cx_settings cx) now now eid vid r ev d = (Inr (), d')"
  from reachable_step [OF reach step] run show ?thesis
    by (rule_tac persist_raw_row [OF run]) (rule that, simp_all add: row row_update_def)
qed

lemma run_fail:
  assumes reach: "reachable cx \<lparr>sys_db = d, sys_tasks = WorkerFail (re_id r) err # ts\<rparr>"
    and row: "raw_events d = [r]" and att: "0 \<le> re_attempts r" "re_attempts r + 1 < 2 ^ 31"
  obtains d' where "sys_step cx \<lparr>sys_db = d, sys_tasks = WorkerFail (re_id r) err # ts\<rparr>
      \<lparr>sys_db = d', sys_tasks = ts\<rparr>"
    "raw_events d' = [fail_row err (max_attempts cx) r]" "same_entities d d'"
proof -
  have "mark_failed None (re_id r) err (max_attempts cx) d =
      (Inr (), set_raw_events (row_update re_id (re_id r) (fail_row err (max_attempts cx)) (raw_events d)) d)"
    by (rule mark_failed_applies [OF reachable_schema [OF reach] _ refl att]) (simp add: row)
  from step_mark_failed [OF _ this, of "WorkerFail (re_id r) err # ts"]
  show ?thesis
    by (intro that [of "set_raw_events [fail_row err (max_attempts cx) r] d"])
      (simp_all add: row row_update_def same_entities_def)
qed

subsection \<open>One webhook, delivered and processed\<close>

definition first_row :: raw_event where
  "first_row = new_raw_event 7 (Ts 10) ''maersk'' sample_payload sample_hash None Pending"

definition sample_request :: request_env where
  "sample_request = \<lparr>rq_id1 = 7, rq_id2 = 8, rq_now = Ts 10, rq_late = True, rq_fault = None\<rparr>"

lemma sample_ingest:
  "ingest_webhook sample_dumps sample_loads default_settings sample_request ''maersk'' [7] empty_db =
     (Inr \<lparr>ack_raw_event_id = 7, ack_duplicate = False, ack_duplicate_of = None\<rparr>,
      set_raw_events [first_row] empty_db)"
proof -
  have body: "read_json_body sample_loads 1048576 [7] = Inr sample_payload"
    by (simp add: read_json_body_Inr sample_loads_def sample_payload_def)
  have "insert_raw_event sample_dumps 7 8 (Ts 10) ''maersk'' sample_payload empty_db =
      (Inr \<lparr>ir_raw_event_id = 7, ir_duplicate = False, ir_duplicate_of = None\<rparr>,
       set_raw_events (raw_events empty_db @
         [new_raw_event 7 (Ts 10) ''maersk'' sample_payload sample_hash None Pending]) empty_db)"
    by (rule insert_raw_event_new [OF sample_canonical_hash])
       (simp_all add: varchar_def primaries_def empty_db_def)
  then have "insert_raw_event sample_dumps 7 8 (Ts 10) ''maersk'' sample_payload empty_db =
      (Inr \<lparr>ir_raw_event_id = 7, ir_duplicate = False, ir_duplicate_of = None\<rparr>,
       set_raw_events [first_row] empty_db)"
    by (simp add: first_row_def empty_db_def)
  then show ?thesis
    by (subst ingest_webhook_accepted [where p = sample_payload and d' = "set_raw_events [first_row] empty_db"
          and res = "\<lparr>ir_raw_event_id = 7, ir_duplicate = False, ir_duplicate_of = None\<rparr>"])
       (simp_all add: body sample_request_def, simp add: valid_vendor_def vendor_char_def)
qed

lemma ingest_steps:
  "sys_step sample_context initial_system \<lparr>sys_db = set_raw_events [first_row] empty_db, sys_tasks = []\<rparr>"
  using sample_ingest step_ingest [where cx = sample_context and env = sample_request and vendor = "''maersk''"
      and body = "[7]" and d = empty_db and ts = "[]"]
  by (simp add: initial_system_def)

lemma run_ingest:
  "reachable sample_context \<lparr>sys_db = set_raw_events [first_row] empty_db, sys_tasks = []\<rparr>"
  by (rule reachable_step [OF reachable_initial ingest_steps])

text \<open>The same webhook as a request to the application.\<close>

definition sample_web :: web_params where
  "sample_web =
     \<lparr>wp_parse_uuid = (\<lambda>s. None), wp_construct = (\<lambda>c. None), wp_invoke = (\<lambda>c ms. Inl OverflowError),
      wp_framework = (\<lambda>req. \<lparr>hs_status = 404, hs_body = DetailBody ''Not Found''\<rparr>)\<rparr>"

definition sample_serve_env :: serve_env where
  "sample_serve_env =
     \<lparr>se_request = sample_request, se_retry = sample_retry_env, se_read_fault = None, se_probe = None,
      se_tie = (\<lambda>i. i)\<rparr>"

lemma sample_serve:
  "serve sample_context sample_web sample_serve_env
     \<lparr>hr_method = ''POST'', hr_path = [''api'', ''v1'', ''webhooks'', ''maersk''], hr_body = [7]\<rparr>
     \<lparr>app_db = empty_db, app_classifier = None\<rparr> =
   (\<lparr>hs_status = 202, hs_body = AckBody \<lparr>ack_raw_event_id = 7, ack_duplicate = False, ack_duplicate_of = None\<rparr>\<rparr>,
    \<lparr>app_db = set_raw_events [first_row] empty_db, app_classifier = None\<rparr>)"
proof -
  let ?req = "\<lparr>hr_method = ''POST'', hr_path = [''api'', ''v1'', ''webhooks'', ''maersk''], hr_body = [7]\<rparr>"
  have "find_route create_app ?req = Some (IngestWebhook, ''maersk'')" by (simp add: find_route_app)
  then show ?thesis
    by (simp add: serve_def reply_def tx_bind_apply in_db_apply sample_ingest sample_serve_env_def)
qed

lemma first_row_simps [simp]:
  "re_id first_row = 7" "re_status first_row = Pending" "re_attempts first_row = 0"
  "re_payload first_row = sample_payload" "re_vendor_hint first_row = ''maersk''"
  by (simp_all add: first_row_def)

text \<open>A worker claims the row and persists it as picked up, the only persist of the run.\<close>

lemma run_once:
  obtains d where "once_reachable sample_context \<lparr>us_system = \<lparr>sys_db = d, sys_tasks = []\<rparr>, us_open = []\<rparr>"
    "entity_view ShipmentKind d (''maersk'', ''T1'') = Some (event_latest sample_scalars (picked_up ''T1'' 50))"
proof -
  let ?d0 = "set_raw_events [first_row] empty_db" and ?ev = "picked_up ''T1'' 50"
  let ?d1 = "claimed_db (Ts 20) first_row ?d0" and ?r1 = "mark_claimed (Ts 20) first_row"
  have e0: "same_entities empty_db ?d0" and e1: "same_entities empty_db ?d1" by (simp_all add: same_entities_def)
  have none: "logged_ids d = {}" if "same_entities empty_db d" for d
    using same_entities_empty [OF that] by (simp add: logged_ids_def)
  have start: "logged_ids (sys_db initial_system) = {}"
    using none [OF same_entities_refl] by (simp add: initial_system_def)
  have schema: "schema_ok ?d0" using reachable_schema [OF run_ingest] by simp
  have claim: "sys_step sample_context \<lparr>sys_db = ?d0, sys_tasks = []\<rparr>
      \<lparr>sys_db = ?d1, sys_tasks = [WorkerClassify 7 sample_payload]\<rparr>"
    using claim_steps [OF schema, of first_row sample_context "[]" "Ts 20"] by simp
  have answer: "sys_step sample_context \<lparr>sys_db = ?d1, sys_tasks = [WorkerClassify 7 sample_payload]\<rparr>
      \<lparr>sys_db = ?d1, sys_tasks = [WorkerPersist (re_id ?r1) ?ev]\<rparr>"
    using step_classified [of 7 sample_payload "[WorkerClassify 7 sample_payload]" sample_context ?d1 ?ev] by simp
  from once_serial [OF once_initial ingest_steps start]
  have "once_reachable sample_context \<lparr>us_system = \<lparr>sys_db = ?d0, sys_tasks = []\<rparr>, us_open = []\<rparr>" .
  from once_serial [OF this claim] none [OF e0]
  have "once_reachable sample_context
      \<lparr>us_system = \<lparr>sys_db = ?d1, sys_tasks = [WorkerClassify 7 sample_payload]\<rparr>, us_open = []\<rparr>" by simp
  from once_serial [OF this answer] none [OF e1]
  have reach: "once_reachable sample_context
      \<lparr>us_system = \<lparr>sys_db = ?d1, sys_tasks = [WorkerPersist (re_id ?r1) ?ev]\<rparr>, us_open = []\<rparr>" by simp
  have d1: "schema_ok ?d1" using unlocked_schema [OF once_unlocked [OF reach]] by simp
  have row: "raw_events ?d1 = [?r1]" by (simp add: row_update_def)
  have k: "payload_kind (ne_payload ?ev) = Some ShipmentKind" and ref: "external_ref ?ev = Some ''T1''"
    by simp_all
  have utc: "ensure_utc (ne_event_at ?ev) = Some (at_time 50)"
    by (simp add: datetime_in_range_def datetime_min_def datetime_max_def)
  have fits: "varchar 128 ''T1''" "varchar_opt 512 (vendor_milestone ?ev)" by (simp_all add: varchar_def)
  have empty: "entities j ?d1 = [] \<and> entity_events j ?d1 = []" for j by (rule same_entities_empty [OF e1])
  show ?thesis
  proof (rule persist_steps [OF d1 row k ref utc fits, of 10 20 sample_context "[]" "Ts 30"])
    fix d
    assume step: "sys_step sample_context \<lparr>sys_db = ?d1, sys_tasks = [WorkerPersist (re_id ?r1) ?ev]\<rparr>
        \<lparr>sys_db = d, sys_tasks = []\<rparr>"
      and run: "persist_normalized (cx_scalars sample_context) (cx_settings sample_context) (Ts 30) (Ts 30) 10 20
        ?r1 ?ev ?d1 = (Inr (), d)"
    have ok: "projection_ok ?d1" using entity_rows.unlocked_invariant [OF once_unlocked [OF reach]] by simp
    have "entity_view ShipmentKind d (''maersk'', ''T1'') = Some (event_latest sample_scalars ?ev)"
      using persist_view(1) [OF ok run, of ShipmentKind "''T1''" "(''maersk'', ''T1'')"] empty [of ShipmentKind]
      by (simp add: entity_view_def row_lookup_def jump_to_latest_def)
    with once_serial [OF reach step] none [OF e1] show ?thesis by (intro that [of d]) simp_all
  qed (use empty in simp_all)
qed

text \<open>
  Worker A claims the row and is slow; the reaper releases the row; worker B claims it, and persists
  it as picked up. A still holds its task.
\<close>

lemma run_two_workers:
  obtains d r where
    "reachable sample_context \<lparr>sys_db = d, sys_tasks = [WorkerClassify 7 sample_payload]\<rparr>"
    "raw_events d = [r]" "re_id r = 7" "re_status r = Processed" "re_attempts r = 0"
    "re_payload r = sample_payload" "re_vendor_hint r = ''maersk''"
    "entity_view ShipmentKind d (''maersk'', ''T1'') = Some (event_latest sample_scalars (picked_up ''T1'' 50))"
    "\<exists>v \<in> set (shipment_events d). ev_raw_event_id v = 7"
    "\<forall>v \<in> set (shipment_events d). ev_canonical_state v = ''PICKED_UP''"
    "invoices d = []" "invoice_events d = []"
proof -
  let ?d0 = "set_raw_events [first_row] empty_db"
  have e0: "same_entities empty_db ?d0" by (simp add: same_entities_def)
  from run_claim [OF run_ingest, of first_row "Ts 20"] obtain d1 where
    1: "reachable sample_context \<lparr>sys_db = d1, sys_tasks = [WorkerClassify 7 sample_payload]\<rparr>"
    and r1: "raw_events d1 = [mark_claimed (Ts 20) first_row]" and e1: "same_entities ?d0 d1"
    by auto
  have min: "minutes_before (worker_stale_lock_minutes (cx_settings sample_context)) (Ts 300000030) = Some (Ts 30)"
    by (simp add: minutes_before_def datetime_in_range_def datetime_min_def datetime_max_def)
  have "is_stale (Ts 30) (mark_claimed (Ts 20) first_row)" by (simp add: is_stale_def)
  from run_reap [OF 1 r1 min this] obtain d2 where
    2: "reachable sample_context \<lparr>sys_db = d2, sys_tasks = [WorkerClassify 7 sample_payload]\<rparr>"
    and r2: "raw_events d2 = [release_row (mark_claimed (Ts 20) first_row)]" and e2: "same_entities d1 d2"
    by blast
  let ?r2 = "release_row (mark_claimed (Ts 20) first_row)"
  from run_claim [OF 2 r2, of "Ts 400000000"] obtain d3 where
    3: "reachable sample_context
      \<lparr>sys_db = d3, sys_tasks = [WorkerClassify 7 sample_payload, WorkerClassify 7 sample_payload]\<rparr>"
    and r3: "raw_events d3 = [mark_claimed (Ts 400000000) ?r2]" and e3: "same_entities d2 d3"
    by auto
  let ?r3 = "mark_claimed (Ts 400000000) ?r2"
  let ?ev = "picked_up ''T1'' 50"
  have empty: "entities k d3 = [] \<and> entity_events k d3 = []" for k
    by (rule same_entities_empty [OF same_entities_trans [OF e0 same_entities_trans [OF e1
          same_entities_trans [OF e2 e3]]]])
  have 4: "reachable sample_context \<lparr>sys_db = d3,
      sys_tasks = [WorkerPersist (re_id ?r3) ?ev, WorkerClassify 7 sample_payload]\<rparr>"
    using run_classified(1) [OF 3] by simp
  have k: "payload_kind (ne_payload ?ev) = Some ShipmentKind" and ref: "external_ref ?ev = Some ''T1''"
    by simp_all
  have utc: "ensure_utc (ne_event_at ?ev) = Some (at_time 50)"
    by (simp add: datetime_in_range_def datetime_min_def datetime_max_def)
  have fits: "varchar 128 ''T1''" "varchar_opt 512 (vendor_milestone ?ev)" by (simp_all add: varchar_def)
  have fresh: "10 \<notin> en_id ` set (entities ShipmentKind d3)" "20 \<notin> ev_id ` set (entity_events ShipmentKind d3)"
    using empty [of ShipmentKind] by simp_all
  obtain d4 info where
    reach: "reachable sample_context \<lparr>sys_db = d4, sys_tasks = [WorkerClassify 7 sample_payload]\<rparr>"
    and r4: "raw_events d4 = [mark_processed (Ts 400000001) info ?r3]"
    and run: "persist_normalized sample_scalars default_settings (Ts 400000001) (Ts 400000001) 10 20 ?r3 ?ev d3
      = (Inr (), d4)"
  proof (rule run_persist [OF 4 r3 k ref utc fits fresh, where now = "Ts 400000001"])
    fix d' info
    assume "reachable sample_context \<lparr>sys_db = d', sys_tasks = [WorkerClassify 7 sample_payload]\<rparr>"
      and "raw_events d' = [mark_processed (Ts 400000001) info ?r3]"
      and "persist_normalized (cx_scalars sample_context) (cx_settings sample_context) (Ts 400000001)
        (Ts 400000001) 10 20 ?r3 ?ev d3 = (Inr (), d')"
    then show thesis by (intro that [of d' info]) simp_all
  qed
  have "stamped e" if "e \<in> set (entities k d3)" for e k using that empty by simp
  with reachable_schema [OF 3] have ok: "projection_ok d3" by (simp add: projection_ok_def)
  have view: "entity_view ShipmentKind d4 (''maersk'', ''T1'') = Some (event_latest sample_scalars ?ev)"
    using persist_view(1) [OF ok run, of ShipmentKind "''T1''" "(''maersk'', ''T1'')"] empty [of ShipmentKind]
    by (simp add: entity_view_def row_lookup_def jump_to_latest_def)
  have inv: "invoices d4 = [] \<and> invoice_events d4 = []"
  proof (rule persist_effect [OF _ run, of ShipmentKind "''T1''"])
    assume "\<And>k'. k' \<noteq> ShipmentKind \<Longrightarrow> entities k' d4 = entities k' d3"
    from this [of InvoiceKind] have "invoices d4 = []" using empty [of InvoiceKind] by simp
    then show ?thesis
      by (rule_tac persist_event_log [OF run, of ShipmentKind "''T1''"])
         (use empty [of InvoiceKind] in \<open>force+\<close>)
  qed (use reachable_schema [OF 3] in simp_all)
  have logged: "(\<exists>v \<in> set (shipment_events d4). ev_raw_event_id v = 7) \<and>
      (\<forall>v \<in> set (shipment_events d4). ev_canonical_state v = ''PICKED_UP'')"
    by (rule persist_event_log [OF run, of ShipmentKind "''T1''"])
       (use empty [of ShipmentKind] in \<open>auto simp: event_row_def\<close>)
  show ?thesis
    by (rule that [OF reach r4]) (use view inv logged in simp_all)
qed

subsection \<open>The slow worker\<close>

text \<open>Worker A's classification fails only now; its \<open>mark_failed\<close> puts the processed row back.\<close>

lemma run_slow_worker:
  obtains s s' r r' where
    "reachable sample_context s" "sys_step sample_context s s'"
    "raw_events (sys_db s) = [r]" "raw_events (sys_db s') = [r']"
    "re_id r = 7" "re_id r' = 7" "re_status r = Processed" "re_status r' = Pending"
    "sys_tasks s' = []" "re_payload r' = sample_payload" "re_vendor_hint r' = ''maersk''"
    "same_entities (sys_db s) (sys_db s')"
    "entity_view ShipmentKind (sys_db s) (''maersk'', ''T1'') =
       Some (event_latest sample_scalars (picked_up ''T1'' 50))"
    "\<exists>v \<in> set (shipment_events (sys_db s)). ev_raw_event_id v = 7"
    "\<forall>v \<in> set (shipment_events (sys_db s)). ev_canonical_state v = ''PICKED_UP''"
    "invoices (sys_db s) = []" "invoice_events (sys_db s) = []"
proof (rule run_two_workers)
  fix d r
  let ?err = "''classify: '' @ cx_repr sample_context OverflowError"
  assume reach: "reachable sample_context \<lparr>sys_db = d, sys_tasks = [WorkerClassify 7 sample_payload]\<rparr>"
    and r: "raw_events d = [r]" "re_id r = 7" "re_status r = Processed" "re_attempts r = 0"
      "re_payload r = sample_payload" "re_vendor_hint r = ''maersk''"
    and view: "entity_view ShipmentKind d (''maersk'', ''T1'') =
       Some (event_latest sample_scalars (picked_up ''T1'' 50))"
    and logged: "\<exists>v \<in> set (shipment_events d). ev_raw_event_id v = 7"
      "\<forall>v \<in> set (shipment_events d). ev_canonical_state v = ''PICKED_UP''"
    and inv: "invoices d = []" "invoice_events d = []"
  have reach': "reachable sample_context \<lparr>sys_db = d, sys_tasks = [WorkerFail (re_id r) ?err]\<rparr>"
    using run_classified(2) [OF reach, where exc = OverflowError] r(2) by simp
  have att: "0 \<le> re_attempts r" "re_attempts r + 1 < 2 ^ 31" using r(4) by simp_all
  show ?thesis
  proof (rule run_fail [OF reach' r(1) att])
    fix d'
    assume step: "sys_step sample_context \<lparr>sys_db = d, sys_tasks = [WorkerFail (re_id r) ?err]\<rparr>
        \<lparr>sys_db = d', sys_tasks = []\<rparr>"
      and r': "raw_events d' = [fail_row ?err (max_attempts sample_context) r]"
      and same: "same_entities d d'"
    show ?thesis
      by (rule that [where r = r and r' = "fail_row ?err 5 r", OF reach' step])
         (use r r' same view logged inv in \<open>simp_all del: append.simps\<close>)
  qed
qed

subsection \<open>The row is processed once more\<close>

lemma fresh_id: obtains i :: uuid where "i \<notin> f ` set xs"
  using ex_new_if_finite [OF infinite_UNIV_nat, of "f ` set xs"] by auto

lemma run_second_classification:
  assumes k: "payload_kind (ne_payload ev) = Some k" and ref: "external_ref ev = Some ref"
    and utc: "ensure_utc (ne_event_at ev) = Some u"
    and fits: "varchar 128 ref" "varchar_opt 512 (vendor_milestone ev)"
  obtains d d' r eid vid where
    "reachable sample_context \<lparr>sys_db = d', sys_tasks = []\<rparr>" "projection_ok d"
    "persist_normalized sample_scalars default_settings (Ts 500000000) (Ts 500000000) eid vid r ev d = (Inr (), d')"
    "re_id r = 7" "re_vendor_hint r = ''maersk''"
    "entity_view ShipmentKind d (''maersk'', ''T1'') =
       Some (event_latest sample_scalars (picked_up ''T1'' 50))"
    "\<exists>v \<in> set (shipment_events d). ev_raw_event_id v = 7"
    "\<forall>v \<in> set (shipment_events d). ev_canonical_state v = ''PICKED_UP''"
    "invoices d = []" "invoice_events d = []"
proof (rule run_slow_worker)
  fix s s' r r'
  assume reach: "reachable sample_context s" and step: "sys_step sample_context s s'"
    and r': "raw_events (sys_db s') = [r']" "re_id r' = 7" "re_status r' = Pending" "sys_tasks s' = []"
      "re_payload r' = sample_payload" "re_vendor_hint r' = ''maersk''"
    and same: "same_entities (sys_db s) (sys_db s')"
    and view: "entity_view ShipmentKind (sys_db s) (''maersk'', ''T1'') =
       Some (event_latest sample_scalars (picked_up ''T1'' 50))"
    and logged: "\<exists>v \<in> set (shipment_events (sys_db s)). ev_raw_event_id v = 7"
      "\<forall>v \<in> set (shipment_events (sys_db s)). ev_canonical_state v = ''PICKED_UP''"
    and inv: "invoices (sys_db s) = []" "invoice_events (sys_db s) = []"
  have "s' = \<lparr>sys_db = sys_db s', sys_tasks = []\<rparr>" using r'(4) by (cases s') simp
  with reachable_step [OF reach step]
  have 1: "reachable sample_context \<lparr>sys_db = sys_db s', sys_tasks = []\<rparr>" by simp
  from run_claim [OF 1 r'(1,3), of "Ts 450000000"] obtain d where
    2: "reachable sample_context \<lparr>sys_db = d, sys_tasks = [WorkerClassify 7 sample_payload]\<rparr>"
    and rd: "raw_events d = [mark_claimed (Ts 450000000) r']" and same': "same_entities (sys_db s') d"
    using r'(2,5) by auto
  let ?r = "mark_claimed (Ts 450000000) r'"
  have tables: "entities j d = entities j (sys_db s) \<and> entity_events j d = entity_events j (sys_db s)" for j
    using same same' by (simp add: same_entities_def)
  have 3: "reachable sample_context \<lparr>sys_db = d, sys_tasks = [WorkerPersist (re_id ?r) ev]\<rparr>"
    using run_classified(1) [OF 2] r'(2) by simp
  obtain eid where eid: "eid \<notin> en_id ` set (entities k d)" by (rule fresh_id)
  obtain vid where vid: "vid \<notin> ev_id ` set (entity_events k d)" by (rule fresh_id)
  show ?thesis
  proof (rule run_persist [OF 3 rd k ref utc fits eid vid, where now = "Ts 500000000"])
    fix d' info
    assume reach': "reachable sample_context \<lparr>sys_db = d', sys_tasks = []\<rparr>"
      and "persist_normalized (cx_scalars sample_context) (cx_settings sample_context) (Ts 500000000)
        (Ts 500000000) eid vid ?r ev d = (Inr (), d')"
    then have run: "persist_normalized sample_scalars default_settings (Ts 500000000) (Ts 500000000)
        eid vid ?r ev d = (Inr (), d')" by simp
    have ok: "projection_ok d" using entity_rows.reachable_invariant [OF 2] by simp
    have view': "entity_view ShipmentKind d (''maersk'', ''T1'') =
        Some (event_latest sample_scalars (picked_up ''T1'' 50))"
      using view tables [of ShipmentKind] by (simp add: entity_view_def)
    show ?thesis
      by (rule that [OF reach' ok run _ _ view'])
         (use r' logged inv tables [of ShipmentKind] tables [of InvoiceKind] in simp_all)
  qed
qed

lemma late_fits [simp]: "ensure_utc (at_time 90) = Some (at_time 90)"
  by simp

text \<open>Classified as paid: the raw event is in both histories.\<close>

lemma run_two_histories:
  obtains d v w where "reachable sample_context \<lparr>sys_db = d, sys_tasks = []\<rparr>"
    "v \<in> set (shipment_events d)" "w \<in> set (invoice_events d)"
    "ev_raw_event_id v = 7" "ev_raw_event_id w = 7"
proof (rule run_second_classification [of "paid ''I1'' 90" InvoiceKind "''I1''" "at_time 90"])
  fix d d' r eid vid
  assume reach: "reachable sample_context \<lparr>sys_db = d', sys_tasks = []\<rparr>"
    and run: "persist_normalized sample_scalars default_settings (Ts 500000000) (Ts 500000000)
      eid vid r (paid ''I1'' 90) d = (Inr (), d')"
    and r: "re_id r = 7" and logged: "\<exists>v \<in> set (shipment_events d). ev_raw_event_id v = 7"
    and inv: "invoice_events d = []"
  from logged obtain v where v: "v \<in> set (shipment_events d)" "ev_raw_event_id v = 7" by blast
  show ?thesis
  proof (rule persist_event_log [OF run, of InvoiceKind "''I1''"])
    fix i
    let ?w = "event_row sample_scalars (Ts 500000000) vid i (re_id r) (paid ''I1'' 90)"
    assume "entity_events InvoiceKind d' =
        (if re_id r \<in> ev_raw_event_id ` set (entity_events InvoiceKind d) then entity_events InvoiceKind d
         else entity_events InvoiceKind d @ [?w])"
      and "\<And>k'. k' \<noteq> InvoiceKind \<Longrightarrow> entity_events k' d' = entity_events k' d"
    from this(1) this(2) [of ShipmentKind] inv r v show ?thesis
      by (intro that [OF reach, of v ?w]) simp_all
  qed simp_all
qed (simp_all add: varchar_def)

text \<open>Classified as delivered: the state moves on without a row in the history.\<close>

lemma run_state_without_event:
  obtains d where "reachable sample_context \<lparr>sys_db = d, sys_tasks = []\<rparr>"
    "entity_view ShipmentKind d (''maersk'', ''T1'') =
       Some (event_latest sample_scalars (delivered ''T1'' 90))"
    "\<forall>v \<in> set (shipment_events d). ev_canonical_state v = ''PICKED_UP''"
proof (rule run_second_classification [of "delivered ''T1'' 90" ShipmentKind "''T1''" "at_time 90"])
  fix d d' r eid vid
  assume reach: "reachable sample_context \<lparr>sys_db = d', sys_tasks = []\<rparr>" and ok: "projection_ok d"
    and run: "persist_normalized sample_scalars default_settings (Ts 500000000) (Ts 500000000)
      eid vid r (delivered ''T1'' 90) d = (Inr (), d')"
    and r: "re_id r = 7" "re_vendor_hint r = ''maersk''"
    and view: "entity_view ShipmentKind d (''maersk'', ''T1'') =
       Some (event_latest sample_scalars (picked_up ''T1'' 50))"
    and logged: "\<exists>v \<in> set (shipment_events d). ev_raw_event_id v = 7"
      "\<forall>v \<in> set (shipment_events d). ev_canonical_state v = ''PICKED_UP''"
  have view': "entity_view ShipmentKind d' (''maersk'', ''T1'') =
      Some (event_latest sample_scalars (delivered ''T1'' 90))"
    using persist_view(1) [OF ok run, of ShipmentKind "''T1''" "(''maersk'', ''T1'')"] view r(2)
    by (simp add: jump_to_latest_def event_latest_def)
  have "7 \<in> ev_raw_event_id ` set (shipment_events d)" using logged(1) by force
  then have "shipment_events d' = shipment_events d"
    by (rule_tac persist_event_log [OF run, of ShipmentKind "''T1''"]) (simp_all add: r(1))
  with logged(2) show ?thesis by (intro that [OF reach view']) simp
qed (simp_all add: varchar_def)

end
