(* ===== verification/Undisturbed.thy ===== *)
theory Undisturbed
  imports Concurrency
begin

text \<open>
  When are unlocked updates serial? When no transaction is committed after its row has changed. A run in
  which that never happens is a run of the serial system: the transaction takes effect at its commit, and
  until then its task is still to be done. The serial system is therefore exactly the part of the other
  that an optimistic check of the row, such as a version column, would leave.
\<close>

subsection \<open>Runs without interference\<close>

text \<open>The row is what the transaction has loaded; and every transaction a step ends is such a one.\<close>

definition row_current :: "db \<Rightarrow> open_tx \<Rightarrow> bool" where
  "row_current d x \<longleftrightarrow> row_lookup re_id (raw_events d) (ot_row x) = Some (ot_loaded x)"

definition calm :: "unlocked_system \<Rightarrow> unlocked_system \<Rightarrow> bool" where
  "calm u u' \<longleftrightarrow> (\<forall>x. x \<in># mset (us_open u) - mset (us_open u') \<longrightarrow> row_current (us_db u) x)"

inductive calm_reachable :: "context_params \<Rightarrow> unlocked_system \<Rightarrow> bool" for cx :: context_params where
  calm_initial: "calm_reachable cx \<lparr>us_system = initial_system, us_open = []\<rparr>"
| calm_more: "calm_reachable cx u \<Longrightarrow> unlocked_step cx u u' \<Longrightarrow> calm u u' \<Longrightarrow> calm_reachable cx u'"

lemma calm_unlocked: "calm_reachable cx u \<Longrightarrow> unlocked_reachable cx u"
  by (induction rule: calm_reachable.induct) (auto intro: unlocked_reachable.intros)

lemma calm_serial:
  "calm_reachable cx \<lparr>us_system = s, us_open = os\<rparr> \<Longrightarrow> sys_step cx s s' \<Longrightarrow>
   calm_reachable cx \<lparr>us_system = s', us_open = os\<rparr>"
  by (rule calm_more [OF _ unlocked_serial]) (simp_all add: calm_def)

lemma reachable_calm: "reachable cx s \<Longrightarrow> calm_reachable cx \<lparr>us_system = s, us_open = []\<rparr>"
  by (induction rule: reachable.induct) (auto intro: calm_initial calm_serial)

lemma calm_end: "calm \<lparr>us_system = s, us_open = os\<rparr> \<lparr>us_system = s', us_open = remove1 x os\<rparr> \<Longrightarrow>
    x \<in> set os \<Longrightarrow> row_current (sys_db s) x"
  unfolding calm_def by (drule spec [of _ x]) (simp flip: count_greater_zero_iff)

subsection \<open>Their commits are steps of the serial system\<close>

text \<open>The work of other processes does not matter to a step.\<close>

lemma sys_step_frame:
  assumes "sys_step cx s s'"
  shows "sys_step cx \<lparr>sys_db = sys_db s, sys_tasks = sys_tasks s @ xs\<rparr>
    \<lparr>sys_db = sys_db s', sys_tasks = sys_tasks s' @ xs\<rparr>"
  using assms
proof cases
  case (step_ingest env vendor body d out d' ts)
  then show ?thesis by (simp add: sys_step.step_ingest)
next
  case (step_claim fault tie locked now d r d' ts)
  then show ?thesis by (simp add: sys_step.step_claim)
next
  case (step_classified i p ts d ev)
  with sys_step.step_classified [of i p "ts @ xs" cx d ev] show ?thesis by (simp add: remove1_append)
next
  case (step_not_classified i p ts d exc)
  with sys_step.step_not_classified [of i p "ts @ xs" cx d exc] show ?thesis
    by (simp add: remove1_append del: append.simps(2)) simp
next
  case (step_persist i ev ts env d d')
  with sys_step.step_persist [of i ev "ts @ xs" env cx d d'] show ?thesis by (simp add: remove1_append)
next
  case (step_not_persisted i ev ts env d exc d')
  with sys_step.step_not_persisted [of i ev "ts @ xs" env cx d exc d'] show ?thesis
    by (simp add: remove1_append)
next
  case (step_mark_failed i err ts fault d out d')
  with sys_step.step_mark_failed [of i err "ts @ xs" fault cx d out d'] show ?thesis by (simp add: remove1_append)
next
  case (step_reap fault now d out' d' ts)
  then show ?thesis by (simp add: sys_step.step_reap)
next
  case (step_acquire fault i now d p d' ts)
  then show ?thesis by (simp add: sys_step.step_acquire)
next
  case (step_retry_classified i p ts d ev)
  with sys_step.step_retry_classified [of i p "ts @ xs" cx d ev] show ?thesis by (simp add: remove1_append)
next
  case (step_retry_not_classified i p ts d exc)
  with sys_step.step_retry_not_classified [of i p "ts @ xs" cx d exc] show ?thesis by (simp add: remove1_append)
next
  case (step_retry_persist i ev ts renv d d')
  with sys_step.step_retry_persist [of i ev "ts @ xs" renv cx d d'] show ?thesis by (simp add: remove1_append)
next
  case (step_retry_not_persisted i ev ts renv d exc d')
  with sys_step.step_retry_not_persisted [of i ev "ts @ xs" renv cx d exc d'] show ?thesis
    by (simp add: remove1_append)
next
  case (step_record i exc ts fault d out'' d')
  with sys_step.step_record [of i exc "ts @ xs" fault cx d out'' d'] show ?thesis by (simp add: remove1_append)
next
  case (step_crash ts' ts d)
  then show ?thesis by (simp add: sys_step.step_crash)
qed

text \<open>The order of the tasks does not matter, and tasks can be dropped.\<close>

lemma reachable_tasks:
  "reachable cx \<lparr>sys_db = d, sys_tasks = ts\<rparr> \<Longrightarrow> mset ts' \<subseteq># mset ts \<Longrightarrow> reachable cx \<lparr>sys_db = d, sys_tasks = ts'\<rparr>"
  by (rule reachable_step [OF _ step_crash])

lemma session_scope_cong: "body d = body' d \<Longrightarrow> session_scope cf body d = session_scope cf body' d"
  by (simp add: session_scope_def)

lemma serial_flush:
  assumes d: "schema_ok d" and cur: "row_current d x" and f: "recording cx (ot_task x) = Some f"
    and run: "session_scope fault (update_raw (ot_row x) (flush_row (ot_loaded x) (f (ot_loaded x)))) d = (out, d')"
    and t: "ot_task x \<in> set ts"
  shows "sys_step cx \<lparr>sys_db = d, sys_tasks = ts\<rparr> \<lparr>sys_db = d', sys_tasks = remove1 (ot_task x) ts\<rparr>"
proof (cases "ot_task x")
  case (WorkerFail i err)
  with cur f run undisturbed_mark_failed [OF d, of i "ot_loaded x" fault err "max_attempts cx"]
  have "mark_failed fault i err (max_attempts cx) d = (out, d')" by (simp add: row_current_def)
  from step_mark_failed [OF _ this] t WorkerFail show ?thesis by simp
next
  case (RetryRecord i exc)
  with cur f run undisturbed_retry_record [OF d, of i "ot_loaded x" fault "cx_repr cx exc"]
  have "retry_record fault i (cx_repr cx exc) d = (out, d')" by (simp add: row_current_def)
  from step_record [OF _ this] t RetryRecord show ?thesis by simp
qed (use f in simp_all)

lemma current_persist:
  assumes "schema_ok d" and "row_current d x"
  shows "session_scope fault (persist_unlocked sc cfg now db_now eid vid (ot_loaded x) ev) d =
    session_scope fault (\<lambda>d. persist_normalized sc cfg now db_now eid vid (ot_loaded x) ev d) d"
proof (rule session_scope_cong, rule undisturbed_persist [OF assms(1)])
  from assms(2) row_lookup_Some [of re_id "raw_events d" "ot_row x" "ot_loaded x"]
  show "row_lookup re_id (raw_events d) (re_id (ot_loaded x)) = Some (ot_loaded x)" by (simp add: row_current_def)
qed

text \<open>One environment of a worker or a retry for the clocks and ids of a persist.\<close>

definition persist_env :: "timestamp \<Rightarrow> timestamp \<Rightarrow> uuid \<Rightarrow> uuid \<Rightarrow> exn option \<Rightarrow> process_env" where
  "persist_env now db_now eid vid fault =
     \<lparr>pe_tie = (\<lambda>i. 0), pe_locked = [], pe_claim_now = now, pe_now = now, pe_db_now = db_now, pe_entity_id = eid,
      pe_event_id = vid, pe_claim_fault = None, pe_persist_fault = fault, pe_mark_fault = None\<rparr>"

definition persist_retry_env :: "timestamp \<Rightarrow> timestamp \<Rightarrow> uuid \<Rightarrow> uuid \<Rightarrow> exn option \<Rightarrow> retry_env" where
  "persist_retry_env now db_now eid vid fault =
     \<lparr>rt_acquire_now = now, rt_now = now, rt_db_now = db_now, rt_entity_id = eid, rt_event_id = vid,
      rt_acquire_fault = None, rt_persist_fault = fault, rt_record_fault = None, rt_read_fault = None\<rparr>"

lemma current_persist_worker:
  assumes "schema_ok d" and "row_current d x" and "ot_row x = i"
  shows "session_scope (pe_persist_fault (persist_env now db_now eid vid fault))
      (persist_loaded sc cfg (persist_env now db_now eid vid fault) i ev) d =
    session_scope fault (persist_unlocked sc cfg now db_now eid vid (ot_loaded x) ev) d"
  unfolding current_persist [OF assms(1,2)] using assms(2,3)
  by (simp add: persist_env_def) (rule session_scope_cong, simp add: persist_loaded_def row_current_def tx_simps get_raw_def)

lemma current_persist_retry:
  assumes "schema_ok d" and "row_current d x" and "ot_row x = i"
  shows "session_scope (rt_persist_fault (persist_retry_env now db_now eid vid fault))
      (retry_persist sc cfg (persist_retry_env now db_now eid vid fault) i ev) d =
    session_scope fault (persist_unlocked sc cfg now db_now eid vid (ot_loaded x) ev) d"
  unfolding current_persist [OF assms(1,2)] using assms(2,3)
  by (simp add: persist_retry_env_def) (rule session_scope_cong, simp add: retry_persist_def row_current_def tx_simps get_raw_def)

lemma serial_persist:
  assumes d: "schema_ok d" and cur: "row_current d x" and ev: "task_event (ot_task x) = Some ev"
    and run: "session_scope fault
      (persist_unlocked (cx_scalars cx) (cx_settings cx) now db_now eid vid (ot_loaded x) ev) d = (out, d')"
    and t: "ot_task x \<in> set ts"
  shows "sys_step cx \<lparr>sys_db = d, sys_tasks = ts\<rparr>
    \<lparr>sys_db = d', sys_tasks = (case out of Inl exc \<Rightarrow> task_failed cx exc (ot_task x) | Inr u \<Rightarrow> []) @ remove1 (ot_task x) ts\<rparr>"
proof (cases "ot_task x")
  case (WorkerPersist i e)
  with ev have "e = ev" "ot_row x = i" by simp_all
  note same = current_persist_worker [OF d cur this(2), of now db_now eid vid fault "cx_scalars cx" "cx_settings cx" ev]
  show ?thesis
  proof (cases out)
    case (Inl exc)
    with step_not_persisted [OF _ same [unfolded run Inl], of ts] t WorkerPersist \<open>e = ev\<close> show ?thesis by simp
  next
    case (Inr u)
    then have ok: "out = Inr ()" by simp
    with step_persist [OF _ same [unfolded run ok], of ts] t WorkerPersist \<open>e = ev\<close> show ?thesis by simp
  qed
next
  case (RetryPersist i e)
  with ev have "e = ev" "ot_row x = i" by simp_all
  note same = current_persist_retry [OF d cur this(2), of now db_now eid vid fault "cx_scalars cx" "cx_settings cx" ev]
  show ?thesis
  proof (cases out)
    case (Inl exc)
    with step_retry_not_persisted [OF _ same [unfolded run Inl], of ts] t RetryPersist \<open>e = ev\<close> show ?thesis by simp
  next
    case (Inr u)
    then have ok: "out = Inr ()" by simp
    with step_retry_persist [OF _ same [unfolded run ok], of ts] t RetryPersist \<open>e = ev\<close> show ?thesis by simp
  qed
qed (use ev in simp_all)

subsection \<open>The simulation\<close>

text \<open>Serially, a task is to be done until the transaction that has loaded its row is committed.\<close>

definition serial_state :: "unlocked_system \<Rightarrow> system" where
  "serial_state u = \<lparr>sys_db = us_db u, sys_tasks = sys_tasks (us_system u) @ map ot_task (us_open u)\<rparr>"

lemma mset_ended: "x \<in> set os \<Longrightarrow> mset (remove1 (ot_task x) (ts @ map ot_task os)) = mset ts + mset (map ot_task (remove1 x os))"
  by (simp add: image_mset_Diff)

lemma serial_end:
  assumes "reachable cx \<lparr>sys_db = d, sys_tasks = ts @ map ot_task os\<rparr>" and "x \<in> set os"
    and "\<And>ts'. ot_task x \<in> set ts' \<Longrightarrow>
      sys_step cx \<lparr>sys_db = d, sys_tasks = ts'\<rparr> \<lparr>sys_db = d', sys_tasks = new @ remove1 (ot_task x) ts'\<rparr>"
  shows "reachable cx \<lparr>sys_db = d', sys_tasks = (new @ ts) @ map ot_task (remove1 x os)\<rparr>"
proof (rule reachable_tasks)
  show "reachable cx \<lparr>sys_db = d', sys_tasks = new @ remove1 (ot_task x) (ts @ map ot_task os)\<rparr>"
    by (rule reachable_step [OF assms(1,3)]) (use assms(2) in simp)
  show "mset ((new @ ts) @ map ot_task (remove1 x os)) \<subseteq># mset (new @ remove1 (ot_task x) (ts @ map ot_task os))"
    unfolding mset_append [of new] mset_ended [OF assms(2)] by (simp add: ac_simps)
qed

lemma calm_simulates:
  assumes step: "unlocked_step cx u u'" and calm: "calm u u'" and schema: "schema_ok (us_db u)"
    and reach: "reachable cx (serial_state u)"
  shows "reachable cx (serial_state u')"
  using step
proof cases
  case (unlocked_serial s s' os)
  with reachable_step [OF reach] sys_step_frame [OF unlocked_serial(3)] show ?thesis by (simp add: serial_state_def)
next
  case (unlocked_load t ts d r os)
  have "reachable cx \<lparr>sys_db = d, sys_tasks = ts @ map ot_task os\<rparr>"
    using reach unlocked_load by (simp add: serial_state_def)
  then have "reachable cx \<lparr>sys_db = d, sys_tasks = remove1 t ts @ t # map ot_task os\<rparr>"
    by (rule reachable_tasks) (use unlocked_load(3) in simp)
  with unlocked_load show ?thesis by (simp add: serial_state_def)
next
  case (unlocked_flush x os f fault d out d' ts)
  have cur: "row_current d x" using calm_end [of _ os _ x] calm unlocked_flush(1-3) by fastforce
  have "reachable cx \<lparr>sys_db = d', sys_tasks = ([] @ ts) @ map ot_task (remove1 x os)\<rparr>"
    by (rule serial_end [OF _ unlocked_flush(3)])
       (use reach schema unlocked_flush serial_flush [OF _ cur unlocked_flush(4,5)] in \<open>simp_all add: serial_state_def\<close>)
  with unlocked_flush show ?thesis by (simp add: serial_state_def)
next
  case (unlocked_persist x os ev fault now db_now eid vid d d' ts)
  have cur: "row_current d x" using calm_end [of _ os _ x] calm unlocked_persist(1-3) by fastforce
  have "reachable cx \<lparr>sys_db = d', sys_tasks = ([] @ ts) @ map ot_task (remove1 x os)\<rparr>"
    by (rule serial_end [OF _ unlocked_persist(3)])
       (use reach schema unlocked_persist serial_persist [OF _ cur unlocked_persist(4,5)] in \<open>simp_all add: serial_state_def\<close>)
  with unlocked_persist show ?thesis by (simp add: serial_state_def)
next
  case (unlocked_not_persisted x os ev fault now db_now eid vid d exc d' ts)
  have cur: "row_current d x" using calm_end [of _ os _ x] calm unlocked_not_persisted(1-3) by fastforce
  have "reachable cx \<lparr>sys_db = d', sys_tasks = (task_failed cx exc (ot_task x) @ ts) @ map ot_task (remove1 x os)\<rparr>"
    by (rule serial_end [OF _ unlocked_not_persisted(3)])
       (use reach schema unlocked_not_persisted serial_persist [OF _ cur unlocked_not_persisted(4,5)] in
         \<open>simp_all add: serial_state_def\<close>)
  with unlocked_not_persisted show ?thesis by (simp add: serial_state_def)
qed

lemma calm_is_serial: "calm_reachable cx u \<Longrightarrow> reachable cx (serial_state u)"
proof (induction rule: calm_reachable.induct)
  case calm_initial
  from reachable_initial show ?case by (simp add: serial_state_def initial_system_def)
next
  case (calm_more u u')
  from unlocked_schema [OF calm_unlocked [OF calm_more.hyps(1)]] show ?case
    by (rule calm_simulates [OF calm_more.hyps(2,3) _ calm_more.IH])
qed

end
