(* ===== verification/Process.thy ===== *)
theory Process
  imports Application
begin

text \<open>
  The worker as a process: \<open>run\<close> and \<open>main\<close> of \<^verbatim>\<open>app/workers/ingest_worker.py\<close> around the initial sweep and
  the loop of \<open>Worker\<close>. What precedes the loop can fail, and then nothing has been done; whatever happens in
  the loop, the engine is disposed of at the end.

  The host is a parameter: what configuring the log for a level raises, and installing a signal handler.
\<close>

record worker_host =
  wh_logging :: "string \<Rightarrow> exn option"
  wh_signal :: "string \<Rightarrow> exn option"

record worker_process =
  pr_db :: db
  pr_globals :: db_globals

type_synonym answers = "json \<Rightarrow> exn + normalized_event"

text \<open>A pass of the loop, and what the model answers during it to a client built from the settings.\<close>

type_synonym pass = "(llm_client \<Rightarrow> chat_message list \<Rightarrow> exn + llm_result) \<times> tick"

definition with_answers :: "answers \<Rightarrow> tick \<Rightarrow> tick" where
  "with_answers f tk = tk\<lparr>tk_classifier := f\<rparr>"

text \<open>The classifier given to \<open>run\<close>, or else one built on a new client; and the passes it answers in.\<close>

definition worker_passes :: "context_params \<Rightarrow> web_params \<Rightarrow> answers option \<Rightarrow> pass list \<Rightarrow> exn + tick list" where
  "worker_passes cx web given passes =
     (case given of
        Some f \<Rightarrow> Inr (map (\<lambda>(invoke, tk). with_answers f tk) passes)
      | None \<Rightarrow>
          (case build_classifier cx web of
             Inl e \<Rightarrow> Inl e
           | Inr c \<Rightarrow> Inr (map (\<lambda>(invoke, tk).
               with_answers (classify (cx_scalars cx) (cx_dumps cx) (invoke c)) tk) passes)))"

text \<open>\<open>contextlib.suppress(NotImplementedError)\<close> around each of the two handlers.\<close>

definition not_implemented :: exn where
  "not_implemented = OtherError ''NotImplementedError''"

fun add_signal_handlers :: "worker_host \<Rightarrow> string list \<Rightarrow> exn option" where
  "add_signal_handlers host [] = None"
| "add_signal_handlers host (sig # sigs) =
     (case wh_signal host sig of
        None \<Rightarrow> add_signal_handlers host sigs
      | Some e \<Rightarrow> if e = not_implemented then add_signal_handlers host sigs else Some e)"

text \<open>
  The sessions of a run: one for the initial sweep, unless its threshold cannot be computed, and at least
  one in each pass. How many there are makes no difference, since the first creates the engine and the
  factory for all.
\<close>

definition worker_sessions :: "context_params \<Rightarrow> timestamp \<Rightarrow> bool list \<Rightarrow> engine_op list" where
  "worker_sessions cx now outs =
     (if minutes_before (worker_stale_lock_minutes (cx_settings cx)) now = None then [] else [GetSessionFactory]) @
     map (\<lambda>out. GetSessionFactory) outs"

definition run_process ::
    "context_params \<Rightarrow> web_params \<Rightarrow> worker_host \<Rightarrow> answers option \<Rightarrow> exn option \<Rightarrow> timestamp \<Rightarrow> rat \<Rightarrow>
     pass list \<Rightarrow> (worker_process, bool list) tx" where
  "run_process cx web host given fault now start passes = (\<lambda>p.
     case wh_logging host (log_level (cx_settings cx)) of Some e \<Rightarrow> (Inl e, p)
   | None \<Rightarrow>
     (case worker_passes cx web given passes of Inl e \<Rightarrow> (Inl e, p)
      | Inr ticks \<Rightarrow>
        (case add_signal_handlers host [''SIGTERM'', ''SIGINT''] of Some e \<Rightarrow> (Inl e, p)
         | None \<Rightarrow>
           (let (outs, d) = run_worker (cx_scalars cx) (cx_repr cx) (cx_settings cx) fault now start ticks (pr_db p);
                g = foldl engine_step (pr_globals p) (worker_sessions cx now outs)
            in (Inr outs, \<lparr>pr_db = d, pr_globals = dispose_engine g\<rparr>)))))"

definition main_process ::
    "context_params \<Rightarrow> web_params \<Rightarrow> worker_host \<Rightarrow> exn option \<Rightarrow> timestamp \<Rightarrow> rat \<Rightarrow> pass list \<Rightarrow> db \<Rightarrow>
     (exn + bool list) \<times> worker_process" where
  "main_process cx web host fault now start passes d =
     run_process cx web host None fault now start passes \<lparr>pr_db = d, pr_globals = initial_globals\<rparr>"

subsection \<open>A session more makes no difference to the engine\<close>

lemma session_factory_again:
  "session_factory (snd (get_session_factory g)) \<noteq> None"
  "session_factory g \<noteq> None \<Longrightarrow> snd (get_session_factory g) = g"
  by (auto simp: get_session_factory_def split: option.split prod.split)

lemma sessions_idle:
  "session_factory g \<noteq> None \<Longrightarrow> set ops \<subseteq> {GetSessionFactory} \<Longrightarrow> foldl engine_step g ops = g"
  by (induction ops arbitrary: g) (auto simp: session_factory_again)

lemma sessions_once:
  "set ops \<subseteq> {GetSessionFactory} \<Longrightarrow> ops \<noteq> [] \<Longrightarrow> foldl engine_step g ops = snd (get_session_factory g)"
  by (cases ops) (simp_all add: sessions_idle [OF session_factory_again(1)])

subsection \<open>The process and its database\<close>

lemma run_process_cases:
  obtains (failed) e where "run_process cx web host given fault now start passes p = (Inl e, p)"
  | (finished) ticks outs d where "worker_passes cx web given passes = Inr ticks"
    "run_worker (cx_scalars cx) (cx_repr cx) (cx_settings cx) fault now start ticks (pr_db p) = (outs, d)"
    "run_process cx web host given fault now start passes p =
       (Inr outs, \<lparr>pr_db = d, pr_globals = dispose_engine
          (foldl engine_step (pr_globals p) (worker_sessions cx now outs))\<rparr>)"
proof (cases "wh_logging host (log_level (cx_settings cx))")
  case (Some e)
  then show ?thesis by (intro failed [of e]) (simp add: run_process_def)
next
  case log: None
  show ?thesis
  proof (cases "worker_passes cx web given passes")
    case (Inl e)
    with log show ?thesis by (intro failed [of e]) (simp add: run_process_def)
  next
    case (Inr ticks)
    obtain outs d where run: "run_worker (cx_scalars cx) (cx_repr cx) (cx_settings cx) fault now start ticks (pr_db p)
        = (outs, d)" by fastforce
    show ?thesis
    proof (cases "add_signal_handlers host [''SIGTERM'', ''SIGINT'']")
      case None
      with log Inr run show ?thesis by (intro finished) (simp_all add: run_process_def del: add_signal_handlers.simps)
    next
      case (Some e)
      with log Inr show ?thesis by (intro failed [of e]) (simp add: run_process_def del: add_signal_handlers.simps)
    qed
  qed
qed

text \<open>A process that starts with no engine ends with none, and has disposed of those it created.\<close>

lemma main_process_closed:
  assumes "main_process cx web host fault now start passes d = (out, p)"
  shows "engine (pr_globals p) = None \<and> {..<engines_created (pr_globals p)} = set (disposed (pr_globals p))"
proof (cases rule: run_process_cases [of cx web host None fault now start passes
      "\<lparr>pr_db = d, pr_globals = initial_globals\<rparr>"])
  case (failed e)
  with assms show ?thesis by (auto simp: main_process_def initial_globals_def)
next
  case (finished ticks outs d')
  with assms have "pr_globals p = lifespan (worker_sessions cx now outs)"
    by (simp add: main_process_def lifespan_def split_pairs)
  with lifespan_closed show ?thesis by simp
qed

lemma run_run_process:
  assumes "reachable cx \<lparr>sys_db = pr_db p, sys_tasks = ts\<rparr>"
  shows "reachable cx \<lparr>sys_db = pr_db (snd (run_process cx web host given fault now start passes p)), sys_tasks = ts\<rparr>"
proof (cases rule: run_process_cases [of cx web host given fault now start passes p])
  case (failed e)
  with assms show ?thesis by simp
next
  case (finished ticks outs d)
  with run_run_worker [OF assms, of fault now start ticks] show ?thesis by simp
qed

end
