(* ===== verification/Stranded.thy ===== *)
theory Stranded
  imports Concurrency
begin

text \<open>
  Rows nobody will take up again: in processing without a lock time, which is what the reaper looks for,
  and without a task or an open transaction that works on them. Of all the steps of the system with
  unlocked updates, only the takeover by an operator's retry changes such a row.
\<close>

subsection \<open>Operations on other rows\<close>

definition has_row :: "raw_event \<Rightarrow> db \<Rightarrow> bool" where
  "has_row r d \<longleftrightarrow> r \<in> set (raw_events d)"

lemma has_row_updated: "re_id r \<noteq> i \<Longrightarrow> r \<in> set rs \<Longrightarrow> r \<in> set (row_update re_id i f rs)"
  by (force simp: row_update_def)

lemma has_row_update: "re_id r \<noteq> i \<Longrightarrow> keeps (has_row r) (update_raw i f)"
  by (rule keepsI) (auto simp: has_row_def update_raw_def has_row_updated)

lemma has_row_persist:
  assumes "re_id raw = i" and "re_id r \<noteq> i"
  shows "keeps (has_row r) (persist_normalized sc cfg now db_now eid vid raw e)"
proof (rule keepsI)
  fix d assume "has_row r d"
  then show "has_row r (snd (persist_normalized sc cfg now db_now eid vid raw e d))"
    using assms unfolding has_row_def
    by (cases rule: persist_normalized_raw [of sc cfg now db_now eid vid raw e d]) (simp_all add: has_row_updated)
qed

lemma has_row_run: "keeps (has_row r) m \<Longrightarrow> m d = (out, d') \<Longrightarrow> has_row r d \<Longrightarrow> has_row r d'"
  using keepsD [of "has_row r" m d] by simp

text \<open>The transactions that work on the row of a task.\<close>

lemma has_row_transactions:
  assumes "re_id r \<noteq> i"
  shows "keeps (has_row r) (session_scope fault (persist_loaded sc cfg env i ev))"
    and "keeps (has_row r) (session_scope fault (retry_persist sc cfg renv i ev))"
    and "keeps (has_row r) (mark_failed fault i err m)"
    and "keeps (has_row r) (retry_record fault i err)"
proof -
  show "keeps (has_row r) (session_scope fault (persist_loaded sc cfg env i ev))"
    unfolding persist_loaded_def by (intro keeps_intros keeps_load has_row_persist [OF _ assms])
  show "keeps (has_row r) (session_scope fault (retry_persist sc cfg renv i ev))"
    unfolding retry_persist_def by (intro keeps_intros keeps_load has_row_persist [OF _ assms])
  show "keeps (has_row r) (mark_failed fault i err m)"
    unfolding mark_failed_def by (intro keeps_intros keeps_load has_row_update [OF assms])
  show "keeps (has_row r) (retry_record fault i err)"
    unfolding retry_record_def by (intro keeps_intros keeps_load has_row_update [OF assms])
qed

lemma has_row_persist_unlocked:
  assumes "re_id r0 = i" and "re_id r \<noteq> i"
  shows "keeps (has_row r) (session_scope fault (persist_unlocked sc cfg now db_now eid vid r0 ev))"
  unfolding persist_unlocked_def assms(1)
  by (intro keeps_intros keeps_load has_row_persist [OF assms] has_row_update [OF assms(2)])

lemma has_row_ingest: "keeps (has_row r) (ingest_webhook dumps loads cfg env v body)"
proof (rule keepsI)
  fix d assume r: "has_row r d"
  obtain out d' where run: "ingest_webhook dumps loads cfg env v body d = (out, d')" by fastforce
  show "has_row r (snd (ingest_webhook dumps loads cfg env v body d))"
  proof (cases out)
    case (Inl e)
    with run ingest_webhook_raises r show ?thesis by fastforce
  next
    case (Inr ack)
    with run have "ingest_webhook dumps loads cfg env v body d = (Inr ack, d')" by simp
    then show ?thesis
    proof (cases rule: ingest_webhook_effect)
      case lost
      with run r show ?thesis by simp
    next
      case (stored p res)
      from insert_keeps_tables(3) [OF stored(2)] run r show ?thesis by (auto simp: has_row_def)
    qed
  qed
qed

lemma has_row_reap:
  assumes "re_locked_at r = None"
  shows "keeps (has_row r) (reap_stale fault cfg now)"
proof -
  have "\<not> is_stale th r" for th using assms by (simp add: is_stale_def)
  then have "keeps (has_row r) (release_stale th)" for th
    by (intro keepsI) (force simp: has_row_def release_stale_def)
  then show ?thesis unfolding reap_stale_def by (intro keeps_intros)
qed

lemma has_row_claim:
  assumes "schema_ok d" and "has_row r d" and "re_status r \<noteq> Pending"
    and "session_scope fault (claim_one tie locked t m) d = (Inr (Some q), d')"
  shows "has_row r d'" and "re_id q \<noteq> re_id r"
proof -
  from assms(4) have "claim_one tie locked t m d = (Inr (Some q), d')" by (simp add: session_scope_returns)
  then obtain p where p: "next_pending tie locked d = Some p" "q = mark_claimed t p" "d' = claimed_db t p d"
    by (auto simp: claim_one_result [OF assms(1)] split: option.splits)
  note pin = next_pending_Some(1,2) [OF p(1)]
  have "re_id p \<noteq> re_id r"
    using schema_same_id [OF assms(1) pin(1), of r] assms(2,3) pin(2) by (auto simp: has_row_def)
  then show "re_id q \<noteq> re_id r" and "has_row r d'"
    using assms(2) by (auto simp: p has_row_def has_row_updated)
qed

lemma has_row_acquire:
  assumes "schema_ok d" and "has_row r d"
    and "session_scope fault (retry_acquire sh i t) d = (Inr p, d')"
  shows "if i = re_id r then acquire_row t r \<in> set (raw_events d') else has_row r d'"
proof -
  from assms(3) have "retry_acquire sh i t d = (Inr p, d')" by (simp add: session_scope_returns)
  then have "d' = set_raw_events (row_update re_id i (acquire_row t) (raw_events d)) d"
    by (rule retry_acquire_returns)
  then show ?thesis using assms(2) by (auto simp: has_row_def has_row_updated row_update_def)
qed

subsection \<open>Stranded rows\<close>

definition stranded :: "raw_event \<Rightarrow> unlocked_system \<Rightarrow> bool" where
  "stranded r u \<longleftrightarrow>
     r \<in> set (raw_events (us_db u)) \<and> re_status r = Processing \<and> re_locked_at r = None \<and>
     re_id r \<notin> task_row ` set (sys_tasks (us_system u)) \<and> re_id r \<notin> ot_row ` set (us_open u)"

text \<open>An operator has taken the row over.\<close>

definition taken_over :: "raw_event \<Rightarrow> unlocked_system \<Rightarrow> bool" where
  "taken_over r u \<longleftrightarrow>
     (\<exists>t. acquire_row t r \<in> set (raw_events (us_db u))) \<and>
     (\<exists>p. RetryClassify (re_id r) p \<in> set (sys_tasks (us_system u)))"

lemma stranded_serial_step:
  assumes step: "sys_step cx s s'" and d: "schema_ok (sys_db s)"
    and r: "stranded r \<lparr>us_system = s, us_open = os\<rparr>"
  shows "stranded r \<lparr>us_system = s', us_open = os\<rparr> \<or> taken_over r \<lparr>us_system = s', us_open = os\<rparr>"
proof -
  note r' = r [unfolded stranded_def, simplified]
  have row: "has_row r (sys_db s)" using r' by (simp add: has_row_def)
  have other: "task_row t \<noteq> re_id r" if "t \<in> set (sys_tasks s)" for t using r' that by force
  have keep: "stranded r \<lparr>us_system = s', us_open = os\<rparr>"
    if "has_row r (sys_db s')" "\<forall>t \<in> set (sys_tasks s'). task_row t \<in> task_row ` set (sys_tasks s)"
    using that r' by (auto simp: stranded_def has_row_def)
  note subs = set_remove1_subset [THEN subsetD]
  from step show ?thesis
  proof cases
    case (step_ingest env vendor body d out d' ts)
    with row have "has_row r d'" using has_row_run [OF has_row_ingest step_ingest(3)] by simp
    with step_ingest show ?thesis by (intro disjI1 keep) simp_all
  next
    case (step_claim fault tie locked now d q d' ts)
    with has_row_claim [OF _ _ _ step_claim(3), of r] d row r' show ?thesis
      by (auto simp: stranded_def has_row_def)
  next
    case (step_classified i p ts d ev)
    with row show ?thesis by (intro disjI1 keep) (auto dest: subs intro: rev_image_eqI)
  next
    case (step_not_classified i p ts d exc)
    with row show ?thesis by (intro disjI1 keep) (auto dest: subs intro: rev_image_eqI)
  next
    case (step_persist i ev ts env d d')
    then have "re_id r \<noteq> i" "has_row r d" using row other [of "WorkerPersist i ev"] by simp_all
    from has_row_run [OF has_row_transactions(1) [OF this(1)] step_persist(4) this(2)] step_persist
    show ?thesis by (intro disjI1 keep) (auto dest: subs intro: rev_image_eqI)
  next
    case (step_not_persisted i ev ts env d exc d')
    then have "re_id r \<noteq> i" "has_row r d" using row other [of "WorkerPersist i ev"] by simp_all
    from has_row_run [OF has_row_transactions(1) [OF this(1)] step_not_persisted(4) this(2)] step_not_persisted
    show ?thesis by (intro disjI1 keep) (auto dest: subs intro: rev_image_eqI)
  next
    case (step_mark_failed i err ts fault d out d')
    then have "re_id r \<noteq> i" "has_row r d" using row other [of "WorkerFail i err"] by simp_all
    from has_row_run [OF has_row_transactions(3) [OF this(1)] step_mark_failed(4) this(2)] step_mark_failed
    show ?thesis by (intro disjI1 keep) (auto dest: subs intro: rev_image_eqI)
  next
    case (step_reap fault now d out' d' ts)
    with row r' have "has_row r d'" using has_row_run [OF has_row_reap step_reap(3)] by simp
    with step_reap show ?thesis by (intro disjI1 keep) simp_all
  next
    case (step_acquire fault i now d p d' ts)
    with has_row_acquire [OF _ _ step_acquire(3), of r] d row r' show ?thesis
      by (cases "i = re_id r") (auto simp: stranded_def taken_over_def has_row_def)
  next
    case (step_retry_classified i p ts d ev)
    with row show ?thesis by (intro disjI1 keep) (auto dest: subs intro: rev_image_eqI)
  next
    case (step_retry_not_classified i p ts d exc)
    with row show ?thesis by (intro disjI1 keep) (auto dest: subs intro: rev_image_eqI)
  next
    case (step_retry_persist i ev ts renv d d')
    then have "re_id r \<noteq> i" "has_row r d" using row other [of "RetryPersist i ev"] by simp_all
    from has_row_run [OF has_row_transactions(2) [OF this(1)] step_retry_persist(4) this(2)] step_retry_persist
    show ?thesis by (intro disjI1 keep) (auto dest: subs intro: rev_image_eqI)
  next
    case (step_retry_not_persisted i ev ts renv d exc d')
    then have "re_id r \<noteq> i" "has_row r d" using row other [of "RetryPersist i ev"] by simp_all
    from has_row_run [OF has_row_transactions(2) [OF this(1)] step_retry_not_persisted(4) this(2)] step_retry_not_persisted
    show ?thesis by (intro disjI1 keep) (auto dest: subs intro: rev_image_eqI)
  next
    case (step_record i exc ts fault d out'' d')
    then have "re_id r \<noteq> i" "has_row r d" using row other [of "RetryRecord i exc"] by simp_all
    from has_row_run [OF has_row_transactions(4) [OF this(1)] step_record(4) this(2)] step_record
    show ?thesis by (intro disjI1 keep) (auto dest: subs intro: rev_image_eqI)
  next
    case (step_crash ts' ts d)
    with row show ?thesis by (intro disjI1 keep) (auto dest: mset_subset_eqD)
  qed
qed

lemma stranded_step:
  assumes step: "unlocked_step cx u u'" and base: "unlocked_base u" and r: "stranded r u"
  shows "stranded r u' \<or> taken_over r u'"
proof -
  have d: "schema_ok (us_db u)" using base by (simp add: unlocked_base_def sys_base_def base_ok_def)
  have row: "has_row r (us_db u)" using r by (simp add: stranded_def has_row_def)
  have "re_id r \<notin> ot_row ` set (us_open u)" using r by (simp add: stranded_def)
  then have other: "ot_row x \<noteq> re_id r \<and> re_id (ot_loaded x) = ot_row x" if "x \<in> set (us_open u)" for x
    using base that by (force simp: unlocked_base_def open_ok_def)
  note subs = set_remove1_subset [THEN subsetD]
  from step show ?thesis
  proof cases
    case (unlocked_serial s s' os)
    with stranded_serial_step [of cx s s' r os] d r show ?thesis by simp
  next
    case (unlocked_load t ts d q os)
    with r show ?thesis by (auto simp: stranded_def dest: subs)
  next
    case (unlocked_flush x os f fault d out d' ts)
    then have "re_id r \<noteq> ot_row x" "has_row r d" using row other [of x] by simp_all
    from has_row_run [OF keeps_session_scope [OF has_row_update [OF this(1)]] unlocked_flush(5) this(2)]
    unlocked_flush r show ?thesis by (auto simp: stranded_def has_row_def dest: subs)
  next
    case (unlocked_persist x os ev fault now db_now eid vid d d' ts)
    then have "re_id (ot_loaded x) = ot_row x" "re_id r \<noteq> ot_row x" "has_row r d" using row other [of x] by simp_all
    from has_row_run [OF has_row_persist_unlocked [OF this(1,2)] unlocked_persist(5) this(3)]
    unlocked_persist r show ?thesis by (auto simp: stranded_def has_row_def dest: subs)
  next
    case (unlocked_not_persisted x os ev fault now db_now eid vid d exc d' ts)
    from session_scope_raises [OF unlocked_not_persisted(5)] unlocked_not_persisted r show ?thesis
      by (auto simp: stranded_def task_failed_row dest: subs)
  qed
qed

end
