(* ===== verification/Races.thy ===== *)
theory Races
  imports Runs Undisturbed Process Stranded
begin

text \<open>
  A run of the system with unlocked updates after which a row is stranded (\<open>Stranded\<close>): it is being
  processed without a lock time, and nobody works on it.

  Worker A claims the row and is slow. An operator retries the row, which is allowed while it is being
  processed; the retry fails and puts the row back, leaving its lock time. Worker A fails in its turn and
  loads the row to record that. Worker B claims the row. Worker A's commit clears the lock time, but the
  status, which it found pending and leaves pending, is not among the columns it writes. Worker B dies.
\<close>

lemma unlocked_run:
  "unlocked_reachable cx \<lparr>us_system = s, us_open = os\<rparr> \<Longrightarrow> sys_step cx s s' \<Longrightarrow>
   unlocked_reachable cx \<lparr>us_system = s', us_open = os\<rparr>"
  using unlocked_more unlocked_serial by blast

subsection \<open>A failure recorded without interference\<close>

lemma calm_failure:
  assumes reach: "reachable cx \<lparr>sys_db = d, sys_tasks = [WorkerFail (re_id r) err]\<rparr>"
    and row: "raw_events d = [r]" and att: "0 \<le> re_attempts r" "re_attempts r + 1 < 2 ^ 31"
  obtains d' where "calm_reachable cx \<lparr>us_system = \<lparr>sys_db = d', sys_tasks = []\<rparr>, us_open = []\<rparr>"
    "raw_events d' = [fail_row err (max_attempts cx) r]"
proof -
  let ?t = "WorkerFail (re_id r) err" and ?f = "fail_row err (max_attempts cx)"
  let ?x = "\<lparr>ot_task = ?t, ot_loaded = r\<rparr>"
  have d: "schema_ok d" by (rule reachable_schema [OF reach])
  have look: "row_lookup re_id (raw_events d) (task_row ?t) = Some r" by (simp add: row)
  have "unlocked_step cx \<lparr>us_system = \<lparr>sys_db = d, sys_tasks = [?t]\<rparr>, us_open = []\<rparr>
      \<lparr>us_system = \<lparr>sys_db = d, sys_tasks = []\<rparr>, us_open = [?x]\<rparr>"
    using unlocked_load [OF _ _ look, of "[?t]" cx "[]"] by simp
  from calm_more [OF reachable_calm [OF reach] this]
  have loaded: "calm_reachable cx \<lparr>us_system = \<lparr>sys_db = d, sys_tasks = []\<rparr>, us_open = [?x]\<rparr>"
    by (simp add: calm_def)
  let ?d = "set_raw_events (row_update re_id (re_id r) ?f (raw_events d)) d"
  have "mark_failed None (re_id r) err (max_attempts cx) d = (Inr (), ?d)"
    using row att by (intro mark_failed_applies [OF d]) simp_all
  then have "session_scope None (update_raw (re_id r) (flush_row r (?f r))) d = (Inr (), ?d)"
    using undisturbed_mark_failed [OF d, of "re_id r" r None err "max_attempts cx"] look by simp
  from calm_more [OF loaded flush_failure [OF this]]
  have "calm_reachable cx \<lparr>us_system = \<lparr>sys_db = ?d, sys_tasks = []\<rparr>, us_open = []\<rparr>"
    using look by (simp add: calm_def row_current_def)
  moreover have "raw_events ?d = [?f r]" by (simp add: row row_update_def)
  ultimately show ?thesis by (rule that)
qed

lemma run_calm_failure:
  obtains d r where "calm_reachable sample_context \<lparr>us_system = \<lparr>sys_db = d, sys_tasks = []\<rparr>, us_open = []\<rparr>"
    "raw_events d = [r]" "re_attempts r = 1"
proof -
  from run_claim [OF run_ingest, of first_row "Ts 20"] obtain d where
    1: "reachable sample_context \<lparr>sys_db = d, sys_tasks = [WorkerClassify 7 sample_payload]\<rparr>"
    and r: "raw_events d = [mark_claimed (Ts 20) first_row]" by auto
  let ?r = "mark_claimed (Ts 20) first_row"
  have "reachable sample_context \<lparr>sys_db = d,
      sys_tasks = [WorkerFail (re_id ?r) (''classify: '' @ cx_repr sample_context OverflowError)]\<rparr>"
    using run_classified(2) [OF 1, of OverflowError] by (simp del: append.simps)
  then show ?thesis by (rule calm_failure [OF _ r]) (simp_all add: first_row_def that del: append.simps)
qed

subsection \<open>A retry that fails while the row is being processed\<close>

lemma run_failing_retry:
  assumes reach: "reachable cx \<lparr>sys_db = d, sys_tasks = ts\<rparr>" and row: "raw_events d = [r]"
    and st: "re_status r \<noteq> Duplicate" "re_status r \<noteq> Processed"
    and att: "0 \<le> re_attempts r" "re_attempts r + 1 < 2 ^ 31"
  obtains d' where "reachable cx \<lparr>sys_db = d', sys_tasks = ts\<rparr>"
    "raw_events d' = [retry_failed_row (cx_repr cx exc) (acquire_row t r)]"
proof -
  let ?i = "re_id r" and ?d1 = "acquired_db t (re_id r) d"
  have d: "schema_ok d" by (rule reachable_schema [OF reach])
  have "r \<in> set (raw_events d)" by (simp add: row)
  note acq = acquire_applies [OF d this refl st att, where t = t]
  have "session_scope None (retry_acquire (cx_show cx) ?i t) d = (Inr (re_payload r), ?d1)"
    using acq(1) [of "cx_show cx"] by (simp add: session_scope_None)
  from reachable_step [OF reach step_acquire [OF this]]
  have "reachable cx \<lparr>sys_db = ?d1, sys_tasks = RetryClassify ?i (re_payload r) # ts\<rparr>" .
  from reachable_step [OF this step_retry_not_classified [of ?i "re_payload r", where exc = exc]]
  have recording: "reachable cx \<lparr>sys_db = ?d1, sys_tasks = RetryRecord ?i exc # ts\<rparr>" by simp
  have rows: "raw_events ?d1 = [acquire_row t r]" by (simp add: row row_update_def)
  have "retry_record None ?i (cx_repr cx exc) ?d1 =
      (Inr (), set_raw_events (row_update re_id ?i (retry_failed_row (cx_repr cx exc)) (raw_events ?d1)) ?d1)"
    by (rule record_applies [OF acq(2,3)]) simp
  from reachable_step [OF recording step_record [OF _ this]]
  have "reachable cx \<lparr>sys_db = set_raw_events
      (row_update re_id ?i (retry_failed_row (cx_repr cx exc)) (raw_events ?d1)) ?d1, sys_tasks = ts\<rparr>"
    by simp
  then show ?thesis
    by (rule that) (unfold raw_events_set_raw_events rows [unfolded raw_events_set_raw_events],
      simp add: row_update_def)
qed

lemma error_fits: "length (py_prefix 2000 err) \<le> 2048"
  by (rule order_trans [OF length_py_prefix]) simp

subsection \<open>The stranded row\<close>

text \<open>
  A failure is recorded for a row that was found pending with a lock time and is claimed before the
  commit: the claim's lock time is lost, its status is not.
\<close>

lemma run_lost_lock:
  assumes reach: "reachable cx \<lparr>sys_db = d, sys_tasks = [WorkerFail (re_id r) err]\<rparr>"
    and row: "raw_events d = [r]" and st: "re_status r = Pending" and locked: "re_locked_at r \<noteq> None"
    and att: "0 \<le> re_attempts r" "re_attempts r + 1 < 2 ^ 31" "re_attempts r + 1 < max_attempts cx"
  obtains x s2 s3 s4 d' r' where
    "unlocked_step cx \<lparr>us_system = \<lparr>sys_db = d, sys_tasks = [WorkerFail (re_id r) err]\<rparr>, us_open = []\<rparr>
       \<lparr>us_system = s2, us_open = [x]\<rparr>"
    "ot_task x = WorkerFail (re_id r) err" "sys_step cx s2 s3"
    "unlocked_step cx \<lparr>us_system = s3, us_open = [x]\<rparr> \<lparr>us_system = s4, us_open = []\<rparr>"
    "sys_step cx s4 \<lparr>sys_db = d', sys_tasks = []\<rparr>"
    "raw_events d' = [r']" "re_id r' = re_id r" "re_status r' = Processing" "re_locked_at r' = None"
    "re_attempts r' = re_attempts r + 1"
proof -
  let ?new = "fail_row err (max_attempts cx) r"
  let ?x = "\<lparr>ot_task = WorkerFail (re_id r) err, ot_loaded = r\<rparr>"
  let ?task = "WorkerClassify (re_id r) (re_payload r)"
  have "row_lookup re_id (raw_events d) (task_row (WorkerFail (re_id r) err)) = Some r" by (simp add: row)
  from unlocked_load [OF _ _ this, of "[WorkerFail (re_id r) err]" cx "[]"]
  have load: "unlocked_step cx \<lparr>us_system = \<lparr>sys_db = d, sys_tasks = [WorkerFail (re_id r) err]\<rparr>, us_open = []\<rparr>
      \<lparr>us_system = \<lparr>sys_db = d, sys_tasks = []\<rparr>, us_open = [?x]\<rparr>" by simp
  let ?d1 = "claimed_db (Ts 40) r d" and ?r1 = "mark_claimed (Ts 40) r"
  have d: "schema_ok d" by (rule reachable_schema [OF reach])
  have claim: "sys_step cx \<lparr>sys_db = d, sys_tasks = []\<rparr> \<lparr>sys_db = ?d1, sys_tasks = [?task]\<rparr>"
    by (rule claim_steps [OF d row st])
  have claimed: "unlocked_reachable cx \<lparr>us_system = \<lparr>sys_db = ?d1, sys_tasks = [?task]\<rparr>, us_open = [?x]\<rparr>"
    by (rule unlocked_run [OF unlocked_more [OF reachable_unlocked [OF reach] load] claim])
  have r1: "raw_events ?d1 = [?r1]" by (simp add: row row_update_def)
  let ?f = "flush_row r ?new"
  have "raw_fits ?r1" using unlocked_schema [OF claimed] r1 by (simp add: schema_ok_def raw_schema_ok_def)
  then have fits: "raw_fits (?f ?r1)"
    using att error_fits by (simp add: raw_fits_def changed_column_def int4_def varchar_def)
  let ?d2 = "set_raw_events (row_update re_id (re_id r) ?f (raw_events ?d1)) ?d1"
  have "update_raw (re_id r) ?f ?d1 = (Inr (), ?d2)" by (rule update_raw_fits) (use fits r1 in simp)
  then have "session_scope None (update_raw (re_id r) ?f) ?d1 = (Inr (), ?d2)"
    unfolding session_scope_None by simp
  from flush_failure [OF this]
  have flush: "unlocked_step cx \<lparr>us_system = \<lparr>sys_db = ?d1, sys_tasks = [?task]\<rparr>, us_open = [?x]\<rparr>
      \<lparr>us_system = \<lparr>sys_db = ?d2, sys_tasks = [?task]\<rparr>, us_open = []\<rparr>" .
  have crash: "sys_step cx \<lparr>sys_db = ?d2, sys_tasks = [?task]\<rparr> \<lparr>sys_db = ?d2, sys_tasks = []\<rparr>"
    by (rule step_crash) simp
  have rows: "raw_events ?d2 = [?f ?r1]" by (simp add: row row_update_def)
  show ?thesis
    by (rule that [OF load _ claim flush crash rows])
       (use st locked att in \<open>auto simp: changed_column_def\<close>)
qed

lemma run_strands:
  obtains s1 x err s2 s3 s4 d r where "reachable sample_context s1"
    "unlocked_step sample_context \<lparr>us_system = s1, us_open = []\<rparr> \<lparr>us_system = s2, us_open = [x]\<rparr>"
    "ot_task x = WorkerFail 7 err" "sys_step sample_context s2 s3"
    "unlocked_step sample_context \<lparr>us_system = s3, us_open = [x]\<rparr> \<lparr>us_system = s4, us_open = []\<rparr>"
    "sys_step sample_context s4 \<lparr>sys_db = d, sys_tasks = []\<rparr>"
    "raw_events d = [r]" "re_id r = 7" "re_status r = Processing" "re_locked_at r = None" "re_attempts r = 2"
proof -
  let ?cx = sample_context and ?exc = OverflowError
  from run_claim [OF run_ingest, of first_row "Ts 20"] obtain d1 where
    1: "reachable ?cx \<lparr>sys_db = d1, sys_tasks = [WorkerClassify 7 sample_payload]\<rparr>"
    and r1: "raw_events d1 = [mark_claimed (Ts 20) first_row]" by auto
  let ?r2 = "retry_failed_row (cx_repr ?cx ?exc) (acquire_row (Ts 30) (mark_claimed (Ts 20) first_row))"
  from run_failing_retry [OF 1 r1, where t = "Ts 30" and exc = ?exc] obtain d2 where
    2: "reachable ?cx \<lparr>sys_db = d2, sys_tasks = [WorkerClassify 7 sample_payload]\<rparr>"
    and r2: "raw_events d2 = [?r2]" by auto
  have 3: "reachable ?cx \<lparr>sys_db = d2, sys_tasks = [WorkerFail (re_id ?r2) (''classify: '' @ cx_repr ?cx ?exc)]\<rparr>"
    using run_classified(2) [OF 2, of ?exc] by (simp del: append.simps)
  have id: "re_id ?r2 = 7" by (simp del: append.simps)
  show ?thesis
    by (rule run_lost_lock [OF 3 r2])
       (simp_all del: append.simps, rule that [OF 3 [unfolded id]], simp_all del: append.simps)
qed

lemma run_stranded:
  obtains d r where "unlocked_reachable sample_context
      \<lparr>us_system = \<lparr>sys_db = d, sys_tasks = []\<rparr>, us_open = []\<rparr>"
    "raw_events d = [r]" "re_id r = 7" "re_status r = Processing" "re_locked_at r = None"
proof (rule run_strands)
  fix s1 x err s2 s3 s4 d r
  assume s1: "reachable sample_context s1"
    and load: "unlocked_step sample_context \<lparr>us_system = s1, us_open = []\<rparr> \<lparr>us_system = s2, us_open = [x]\<rparr>"
    and claim: "sys_step sample_context s2 s3"
    and flush: "unlocked_step sample_context \<lparr>us_system = s3, us_open = [x]\<rparr> \<lparr>us_system = s4, us_open = []\<rparr>"
    and crash: "sys_step sample_context s4 \<lparr>sys_db = d, sys_tasks = []\<rparr>"
    and r: "raw_events d = [r]" "re_id r = 7" "re_status r = Processing" "re_locked_at r = None"
  from unlocked_run [OF unlocked_more [OF reachable_unlocked [OF s1] load] claim]
  have "unlocked_reachable sample_context \<lparr>us_system = s3, us_open = [x]\<rparr>" .
  from that [OF unlocked_run [OF unlocked_more [OF this flush] crash] r] show ?thesis .
qed

text \<open>A retry whose classifier answers that there is no event gets such a row out.\<close>

lemma retry_frees:
  assumes d: "schema_ok d" and r: "r \<in> set (raw_events d)" "re_status r = Processing"
    and att: "0 \<le> re_attempts r" "re_attempts r + 1 < 2 ^ 31"
  shows "\<exists>r'. fst (retry_raw_event sample_scalars sample_repr sample_show default_settings (\<lambda>p. Inr advisory)
    sample_retry_env (re_id r) d) = Inr r' \<and> re_id r' = re_id r \<and> re_status r' = Processed"
proof -
  let ?t = "rt_acquire_now sample_retry_env"
  have st: "re_status r \<noteq> Duplicate" "re_status r \<noteq> Processed" using r(2) by simp_all
  have "schema_ok (acquired_db ?t (re_id r) d)" by (rule acquire_applies(2) [OF d r(1) refl st att])
  moreover have "re_id r \<in> re_id ` set (raw_events (acquired_db ?t (re_id r) d))"
    using imageI [OF acquire_applies(3) [OF d r(1) refl st att, of ?t], of re_id] by simp
  ultimately have ok: "Inr () = fst (retry_process sample_scalars default_settings sample_retry_env (re_id r)
      (Inr advisory) (acquired_db ?t (re_id r) d))"
    by (subst retry_process_unclassified [OF _ _ _ advisory_payload]) (simp_all add: sample_retry_env_def)
  show ?thesis
    by (rule retry_cases [OF d r(1) refl st att prod.collapse [symmetric] ok, where repr = sample_repr and sh = sample_show])
       (simp_all add: sample_retry_env_def)
qed

text \<open>Neither the reaper nor a worker changes a database whose only row is stranded.\<close>

lemma stranded_row:
  assumes d: "schema_ok d" and row: "raw_events d = [r]"
    and r: "re_status r = Processing" "re_locked_at r = None"
  shows "snd (reap_stale None cfg now d) = d" and "claim_one tie locked t m d = (Inr None, d)"
proof -
  have "\<not> is_stale th r" for th using r(2) by (simp add: is_stale_def)
  then have "set_raw_events (map (\<lambda>r. if is_stale th r then release_row r else r) (raw_events d)) d = d" for th
    by (simp add: row)
  then show "snd (reap_stale None cfg now d) = d"
    by (cases "minutes_before (worker_stale_lock_minutes cfg) now")
       (simp add: reap_stale_def, simp add: reap_stale_result)
  show "claim_one tie locked t m d = (Inr None, d)"
    by (simp add: claim_one_result [OF d] next_pending_def row claimable_def r)
qed

end
