(* ===== verification/Spec2Isabelle.thy ===== *)
theory Spec2Isabelle
  imports Races
begin

text \<open>
  Glacis receives vendor webhooks, keeps each one as a row of an inbox, has a language model turn the
  payload into a typed shipment or invoice event, and maintains from these events one row per shipment
  or invoice with its history. This development models the service under \<^verbatim>\<open>src/app\<close> and its database
  migrations, and proves what keeps the inbox, the queue and the entity tables correct.

  \<^bold>\<open>The program.\<close> \<^verbatim>\<open>POST /webhooks/{vendor}\<close> (\<^verbatim>\<open>api/webhooks.py\<close>) checks the body and calls
  \<^verbatim>\<open>insert_raw_event\<close> (\<^verbatim>\<open>services/ingestion.py\<close>), which inserts a primary row of \<^verbatim>\<open>raw_events\<close> or, when the
  partial unique index has one with the same vendor and content hash (\<^verbatim>\<open>utils/hashing.py\<close>), a duplicate.
  A worker (\<^verbatim>\<open>workers/ingest_worker.py\<close>) claims the oldest pending row, classifies its payload
  (\<^verbatim>\<open>llm/classifier.py\<close>, validated by \<^verbatim>\<open>core/events.py\<close>) and persists the event
  (\<^verbatim>\<open>services/normalization.py\<close>) into \<^verbatim>\<open>shipments\<close>, \<^verbatim>\<open>shipment_events\<close>, \<^verbatim>\<open>invoices\<close> and \<^verbatim>\<open>invoice_events\<close>; a
  failure returns the row to the queue until its attempts are used up. A reaper releases rows whose
  claim is too old. An operator can run a row again (\<^verbatim>\<open>services/retry.py\<close>, \<^verbatim>\<open>api/raw_events.py\<close>), and
  the read endpoints (\<^verbatim>\<open>api/shipments.py\<close>, \<^verbatim>\<open>api/invoices.py\<close>) show an entity with its history.

  \<^bold>\<open>The theories.\<close>
  \<^item> \<open>Prelude\<close>: collections of rules, tables as lists of rows, runs of a step relation.
  \<^item> \<open>Json\<close>, \<open>Clock\<close>: JSON values, and values equal up to the order of keys; instants, Python datetimes
    and \<^verbatim>\<open>_ensure_utc\<close>.
  \<^item> \<open>Effects\<close>: exceptions as values; a transaction body is a function from a state to a result and the
    state it leaves, and \<^verbatim>\<open>session_scope\<close> (\<^verbatim>\<open>core/db.py\<close>) commits or rolls back. \<open>keeps I m\<close> and
    \<open>raises_only Q m\<close> reduce invariants and possible exceptions of a body to its statements. The engine and
    session factory of \<^verbatim>\<open>core/db.py\<close> are a small state machine.
  \<^item> \<open>Store\<close>: the tables of \<^verbatim>\<open>core/models.py\<close> as records in lists, their constraints (\<open>schema_ok\<close>), and one
    definition for each SQL statement of the services, failing as Postgres does.
  \<^item> \<open>Events\<close>, \<open>Validation\<close>: \<^verbatim>\<open>core/events.py\<close>, the classes as extensible records, the discriminated union as
    a datatype; validation from JSON with all failures collected; \<^verbatim>\<open>model_dump\<close> and the round trip.
  \<^item> \<open>Config\<close>, \<open>Hashing\<close>, \<open>Prompt\<close>, \<open>Classifier\<close>: the settings, the SHA-256 content hash on 32-bit words, the
    system prompt compared with the schema, the call of the model and the validation of what it returns.
  \<^item> \<open>Ingestion\<close>, \<open>Normalization\<close>, \<open>Worker\<close>, \<open>Retry\<close>, \<open>ReadSide\<close>, \<open>Api\<close>: the services and the routes, function by
    function under the code's names, branch by branch, with every exception and early return.
  \<^item> \<open>Migrations\<close>, \<open>Alembic\<close>: the Alembic revisions as operations on a schema with rows, the path from one
    version to another, run in one transaction or written as a script (\<^verbatim>\<open>alembic/env.py\<close>), and the metadata
    of the models.
  \<^item> \<open>Projection\<close>, \<open>History\<close>: the specification of the entity tables, a map from natural keys to the latest
    event. The locale \<open>latest_store\<close> is its contract; \<open>persist_normalized\<close> is an interpretation.
  \<^item> \<open>Lifecycle\<close>: the locale \<open>row_contract\<close>, a property of single inbox rows that all row functions keep, in
    which every operation of every service is shown to keep it; interpreted for what each status implies.
  \<^item> \<open>Outcome\<close>, \<open>Queue\<close>, \<open>Dispatch\<close>, \<open>Schedule\<close>, \<open>Operator\<close>: when a persist succeeds and what repeating it
    does; the worker as the consumer of a queue; the order and exclusivity of claims, and the reaper; how
    often the loop runs it, and how old a claim can get; the retry.
  \<^item> \<open>System\<close>, \<open>Guarantees\<close>: all processes together. \<open>sys_step\<close> interleaves the transactions of webhooks, any
    number of workers and operators and the reaper, with faults and crashes between any two of them;
    \<open>reachable\<close> is the set of states from the empty database. The locale \<open>db_invariant\<close> reduces an
    invariant of this system to three kinds of change; four invariants interpret it.
  \<^item> \<open>Flush\<close>, \<open>Concurrency\<close>, \<open>Undisturbed\<close>, \<open>Stranded\<close>, \<open>Races\<close>: the system without the assumption that the
    transactions which load their row without a lock are serial: those that record a failure, and those that
    persist an event. They load the row and write back the columns they have changed; \<open>unlocked_step\<close> lets
    every other step happen in between. The invariants of \<open>db_invariant\<close> survive, and the properties of rows
    that satisfy \<open>flush_contract\<close>, an extension of \<open>row_contract\<close>; the lock times do not. A run in which no
    row changes between load and commit is simulated by the serial system (\<open>calm_is_serial\<close>). A row that is
    stranded in processing stays so until an operator takes it over (\<open>stranded_step\<close>).
  \<^item> \<open>Replay\<close>: the runs in which no raw event that a history already has is persisted again
    (\<open>once_reachable\<close>); in them every entity is the replay of its history.
  \<^item> \<open>Simulation\<close>: the loop of the worker and the retry, as the code runs them, are runs of \<open>sys_step\<close>.
  \<^item> \<open>Application\<close>: \<^verbatim>\<open>api/__init__.py\<close> and \<^verbatim>\<open>api/dependencies.py\<close>, the table of routes, the dispatch of a
    request to its handler and its response (\<open>serve\<close>), the cached classifier, the end of the process. The
    locale \<open>router\<close> shows that routes no two of which take the same request can be included in any order.
  \<^item> \<open>Process\<close>: \<^verbatim>\<open>run\<close> and \<^verbatim>\<open>main\<close> of the worker around its loop: what can fail before it, the classifier it
    builds, and the end of its engine.
  \<^item> \<open>Hash_Example\<close>: a known answer of SHA-256, computed from the model by rewriting.
  \<^item> \<open>Samples\<close>, \<open>Runs\<close>: a database in which every status occurs and runs of the system on concrete data, on
    which the properties below are instantiated.

  \<^bold>\<open>The properties.\<close> C1 to C6 are about deduplication and invariants of the whole system, C7 says that
  requests and worker runs are runs of this system; C8 to C10 about entity state being the latest event in
  whatever order events arrive, as a refinement of the map above; C11 to C17 about the queue: it drains,
  a row that always fails ends as failed after a known number of passes, claims are first in first out
  and exclusive, crashed claims come back, and none grows older than a bound; C18 and C32 about the retry,
  whichever of its commits fail; C19 to C22 about persisting; C23 to C26 about the webhook endpoint and its
  hash; C27 to C30 about classification, the prompt and the schema; C31 about reading, in all runs and in
  those of \<open>Replay\<close>; C33 about the routes; C34 to C36 about the migrations; C37 about when transactions
  without a lock are serial. C38 to C40, with C22, C25, C29 and C35, state behaviour that the repository's
  documents do not.

  \<^bold>\<open>Parameters.\<close> Code that is not in the repository is an argument of the definitions that use it:
  \<open>dumps\<close> and \<open>loads\<close> (orjson; \<open>sorts_keys\<close> is what the documentation of \<^verbatim>\<open>OPT_SORT_KEYS\<close> says), \<open>scalars\<close>
  (how pydantic reads and writes datetimes, decimals and floats; \<open>scalars_roundtrip\<close> where reading back
  matters), \<open>structured\<close> (the model client: an arbitrary answer or exception), \<open>repr\<close> and \<open>sh\<close>
  (texts of exceptions and ids), the ids \<^verbatim>\<open>gen_random_uuid()\<close> picks, clocks, the order of equal timestamps
  (\<open>tie\<close>), the rows other transactions hold locked, exceptions at commit, and whether the web framework
  ends a request's session before or after it sends the response (\<open>rq_late\<close>). The framework's own answers
  and its reading of ids in paths are the fields of \<open>web_params\<close>. Nothing is assumed of these parameters
  that a property does not state.

  \<^bold>\<open>Bounds.\<close> No definition needs fuel: the worker's loop is a recursion over the ticks its clock delivers until
  shutdown. \<open>budget\<close> counts, for every pending row, the attempts it has left (at least one); a pass of
  the loop that does work takes at least one from it, so \<open>budget\<close> many passes drain the queue (C11).
  Attempts are bounded by the INTEGER column (\<open>int4\<close>); properties that count an attempt ask for room.

  \<^bold>\<open>Not modelled.\<close> In \<open>sys_step\<close> transactions are atomic and serial: a step sees no half-committed state.
  \<open>Concurrency\<close> gives this up for the transactions that load their row without a lock. The statements of
  \<open>persist_normalized\<close> on the entity tables stay one step, at the time of the commit: the upsert locks the
  entity's row until then. The delays of READ COMMITTED are left out. Strings have code points below 256,
  and Postgres' refusal of NUL in text and JSONB is left out. Reading the environment, what is logged and
  sleeping are glue around the functions modelled; that configuring the log or installing a signal handler
  can raise is not (\<open>worker_host\<close>). What no definition translates under \<^verbatim>\<open>src/app\<close> and \<^verbatim>\<open>src/alembic\<close> is
  imports, docstrings and comments, the creation of loggers and empty routers, and the configuration of
  Alembic's own context; tests, samples and deployment files are left aside.
\<close>

section \<open>Deduplication of deliveries\<close>

text \<open>
  C1. Of a series of deliveries of one vendor with the same content up to the order of keys, new for the
  vendor, each in its own transaction and with fresh ids, the first becomes the only primary and every
  other one a duplicate row that points at it.
\<close>

theorem deliveries_share_one_primary:
  assumes "schema_ok d" and "sorts_keys dumps" and "canonical_hash dumps (dl_payload q) = Inr h"
    and "\<forall>x \<in> set qs. dl_vendor x = dl_vendor q \<and> key_permuted (dl_payload q) (dl_payload x)"
    and "wf_json (dl_payload q)" and "varchar 64 (dl_vendor q)" and "(dl_vendor q, h) \<notin> dedup_key ` set (primaries d)"
    and "distinct (delivery_ids (q # qs))"
    and "set (delivery_ids (q # qs)) \<inter> re_id ` set (raw_events d) = {}"
  shows "fst (ingest_all dumps (q # qs) d) =
      Inr \<lparr>ir_raw_event_id = dl_id1 q, ir_duplicate = False, ir_duplicate_of = None\<rparr> #
      map (\<lambda>x. Inr \<lparr>ir_raw_event_id = dl_id2 x, ir_duplicate = True,
                     ir_duplicate_of = Some (dl_id1 q)\<rparr>) qs \<and>
    primaries (snd (ingest_all dumps (q # qs) d)) =
      primaries d @ [new_raw_event (dl_id1 q) (dl_now q) (dl_vendor q) (dl_payload q) h None Pending]"
proof -
  let ?r = "new_raw_event (dl_id1 q) (dl_now q) (dl_vendor q) (dl_payload q) h None Pending"
  let ?d = "set_raw_events (raw_events d @ [?r]) d"
  have one: "ingest_one dumps q d =
      (Inr \<lparr>ir_raw_event_id = dl_id1 q, ir_duplicate = False, ir_duplicate_of = None\<rparr>, ?d)"
    using assms(3,6-9)
    by (intro ingest_one_apply insert_raw_event_new) (auto simp: delivery_ids_def)
  have schema: "schema_ok ?d" using keepsD [OF keeps_ingest_one(1) assms(1), of dumps q] one by simp
  have same: "\<forall>x \<in> set qs. dl_vendor x = dl_vendor q \<and> canonical_hash dumps (dl_payload x) = Inr h"
    using assms(3,4) canonical_hash_permuted [OF assms(2,5)] by metis
  have rest: "fst (ingest_all dumps qs ?d) =
        map (\<lambda>x. Inr \<lparr>ir_raw_event_id = dl_id2 x, ir_duplicate = True,
                       ir_duplicate_of = Some (re_id ?r)\<rparr>) qs \<and>
      primaries (snd (ingest_all dumps qs ?d)) = primaries ?d"
    by (rule ingest_all_duplicates [OF same assms(6) schema])
       (use assms(8,9) in \<open>auto simp: delivery_ids_def\<close>)
  show ?thesis using one rest by simp
qed

definition sample_delivery :: "uuid \<Rightarrow> (string \<times> json) list \<Rightarrow> delivery" where
  "sample_delivery i kvs = \<lparr>dl_id1 = i, dl_id2 = i + 1, dl_now = Ts 5, dl_vendor = ''maersk'', dl_payload = JObj kvs\<rparr>"

theorem deliveries_share_one_primary_witness:
  "fst (ingest_all sample_dumps
     [sample_delivery 10 [(''a'', JInt 1), (''b'', JInt 2)],
      sample_delivery 20 [(''b'', JInt 2), (''a'', JInt 1)]] sample_db) =
   [Inr \<lparr>ir_raw_event_id = 10, ir_duplicate = False, ir_duplicate_of = None\<rparr>,
    Inr \<lparr>ir_raw_event_id = 21, ir_duplicate = True, ir_duplicate_of = Some 10\<rparr>]"
proof -
  let ?q = "sample_delivery 10 [(''a'', JInt 1), (''b'', JInt 2)]"
  let ?x = "sample_delivery 20 [(''b'', JInt 2), (''a'', JInt 1)]"
  have "key_permuted (dl_payload ?q) (dl_payload ?x)"
    by (simp add: sample_delivery_def key_permuted_obj)
  moreover have "(''maersk'', hash_of (dl_payload ?q)) \<notin> dedup_key ` set (primaries sample_db)"
    by (simp add: primaries_def)
  ultimately show ?thesis
    using deliveries_share_one_primary [OF sample_schema sample_sorts_keys canonical_hash_of,
        where q = ?q and qs = "[?x]"]
    by (simp add: sample_delivery_def varchar_def delivery_ids_def)
qed

section \<open>Invariants of the whole service\<close>

text \<open>
  C2. In every reachable state, whatever the interleaving and the crashes, also of updates that load and
  write a row without a lock, no two primaries share vendor and content hash, a row is a duplicate exactly
  when it has a parent, and the parent is a primary with the same vendor and hash.
\<close>

theorem reachable_deduplicated:
  assumes "unlocked_reachable cx u"
  shows "distinct (map dedup_key (primaries (us_db u))) \<and>
    (\<forall>r \<in> set (raw_events (us_db u)).
       (re_status r = Duplicate \<longleftrightarrow> re_duplicate_of_id r \<noteq> None) \<and>
       (\<forall>i. re_duplicate_of_id r = Some i \<longrightarrow>
          (\<exists>p \<in> set (primaries (us_db u)). re_id p = i \<and> dedup_key p = dedup_key r)))"
proof -
  have "raw_schema_ok (us_db u)" using unlocked_schema [OF assms] by (simp add: schema_ok_def)
  with dedup.unlocked_invariant [OF assms] show ?thesis
    unfolding dedup_ok_def raw_schema_ok_def by blast
qed

theorem reachable_deduplicated_witness:
  "\<exists>u. unlocked_reachable sample_context u \<and> raw_events (us_db u) \<noteq> [] \<and>
     distinct (map dedup_key (primaries (us_db u)))"
proof (rule run_stranded)
  fix d r
  let ?u = "\<lparr>us_system = \<lparr>sys_db = d, sys_tasks = []\<rparr>, us_open = []\<rparr>"
  assume reach: "unlocked_reachable sample_context ?u" and "raw_events d = [r]"
  with reachable_deduplicated [OF reach] show ?thesis by (intro exI [of _ ?u]) simp
qed

text \<open>
  C3. Every row in every reachable state satisfies what its status implies. Whatever is loaded without a
  lock and written back, a processed row has a completion time, a failed one an attempt, a duplicate was
  never touched, attempts are not negative and errors at most 2000 characters long. If no row is changed
  between a transaction's load and its commit, and so in every state of the serial system, a row being
  processed also has a lock time, and a failed one an error.
\<close>

theorem reachable_lifecycle:
  assumes "unlocked_reachable cx u" and "r \<in> set (raw_events (us_db u))"
  shows "(re_status r = Processed \<longrightarrow> re_processed_at r \<noteq> None) \<and>
    (re_status r = Failed \<longrightarrow> 1 \<le> re_attempts r) \<and>
    (re_status r = Duplicate \<longrightarrow> re_attempts r = 0 \<and> re_last_error r = None \<and>
       re_locked_at r = None \<and> re_processed_at r = None) \<and>
    0 \<le> re_attempts r \<and> varchar_opt 2000 (re_last_error r) \<and>
    (calm_reachable cx u \<longrightarrow>
       (re_status r = Processing \<longrightarrow> re_locked_at r \<noteq> None) \<and>
       (re_status r = Failed \<longrightarrow> re_last_error r \<noteq> None))"
proof -
  have "core_row r" using unlocked_core [OF assms(1)] assms(2) by (simp add: all_rows_def)
  moreover have "lifecycle_row r" if "calm_reachable cx u"
    using life.reachable_rows [OF calm_is_serial [OF that]] assms(2) by (simp add: all_rows_def serial_state_def)
  ultimately show ?thesis by (auto simp: core_row_def lifecycle_row_def)
qed

theorem reachable_lifecycle_witness:
  "\<exists>u r. unlocked_reachable sample_context u \<and> r \<in> set (raw_events (us_db u)) \<and>
     re_status r = Processed \<and> re_processed_at r \<noteq> None"
proof (rule run_two_workers)
  fix d r
  let ?s = "\<lparr>sys_db = d, sys_tasks = [WorkerClassify 7 sample_payload]\<rparr>"
  let ?u = "\<lparr>us_system = ?s, us_open = []\<rparr>"
  assume "reachable sample_context ?s" and r: "raw_events d = [r]" "re_status r = Processed"
  then have reach: "unlocked_reachable sample_context ?u" by (simp add: reachable_unlocked)
  have "r \<in> set (raw_events (us_db ?u))" using r(1) by simp
  with reachable_lifecycle [OF reach this] reach r(2) show ?thesis by (intro exI [of _ ?u] exI [of _ r]) simp
qed

text \<open>
  C4. The inbox is append-only: no step of any component, locked or not, loses a stored raw event or
  alters its id, vendor, payload, hash, time of receipt or parent, turns it into or from a duplicate, or
  clears the time it was processed.
\<close>

theorem step_keeps_inbox:
  assumes "unlocked_reachable cx u" and "unlocked_step cx u u'" and "r \<in> set (raw_events (us_db u))"
  shows "\<exists>r' \<in> set (raw_events (us_db u')).
    re_id r' = re_id r \<and> re_vendor_hint r' = re_vendor_hint r \<and> re_payload r' = re_payload r \<and>
    re_hash_exact r' = re_hash_exact r \<and> re_received_at r' = re_received_at r \<and>
    re_duplicate_of_id r' = re_duplicate_of_id r \<and>
    (re_status r' = Duplicate \<longleftrightarrow> re_status r = Duplicate) \<and>
    (re_processed_at r \<noteq> None \<longrightarrow> re_processed_at r' \<noteq> None)"
proof -
  note base = unlocked_base_reachable [OF assms(1)]
  from change_twice_inbox [OF unlocked_change [OF assms(2) base] _ assms(3)] base
  show ?thesis unfolding same_origin_def unlocked_base_def sys_base_def by blast
qed

theorem step_keeps_inbox_witness:
  "\<exists>u u' r r'. unlocked_reachable sample_context u \<and> unlocked_step sample_context u u' \<and>
     r \<in> set (raw_events (us_db u)) \<and> r' \<in> set (raw_events (us_db u')) \<and>
     re_status r \<noteq> re_status r' \<and> re_payload r' = re_payload r"
proof (rule run_slow_worker)
  fix s s' r r'
  let ?u = "\<lparr>us_system = s, us_open = []\<rparr>" and ?u' = "\<lparr>us_system = s', us_open = []\<rparr>"
  assume "reachable sample_context s" and "sys_step sample_context s s'"
    and r: "raw_events (sys_db s) = [r]" "raw_events (sys_db s') = [r']"
    and st: "re_status r = Processed" "re_status r' = Pending"
  then have reach: "unlocked_reachable sample_context ?u" and step: "unlocked_step sample_context ?u ?u'"
    by (simp_all add: reachable_unlocked unlocked_serial)
  have "r \<in> set (raw_events (us_db ?u))" by (simp add: r)
  from step_keeps_inbox [OF reach step this] r(2) have "re_payload r' = re_payload r" by simp
  with reach step r st show ?thesis
    by (intro exI [of _ ?u] exI [of _ ?u'] exI [of _ r] exI [of _ r']) simp
qed

text \<open>
  C5. In every reachable state, unlocked updates included, the time of an entity's last event bounds
  the times of its history, and an entity has a state exactly when it has a last event.
\<close>

theorem reachable_last_event:
  assumes "unlocked_reachable cx u" and "e \<in> set (entities k (us_db u))"
  shows "(en_last_event_at e = None \<longleftrightarrow> en_current_state e = None) \<and>
    (\<forall>v \<in> set (entity_events k (us_db u)). ev_entity_id v = en_id e \<longrightarrow>
       (\<exists>t. en_last_event_at e = Some t \<and> ev_event_at v \<le> t))"
  using last_event.unlocked_invariant [OF assms(1)] entity_rows.unlocked_invariant [OF assms(1)] assms(2)
  unfolding history_bound_def projection_ok_def stamped_def by fastforce

theorem reachable_last_event_witness:
  "\<exists>u e. unlocked_reachable sample_context u \<and> e \<in> set (entities ShipmentKind (us_db u)) \<and>
     (en_last_event_at e = None \<longleftrightarrow> en_current_state e = None)"
proof (rule run_two_workers)
  fix d r
  let ?s = "\<lparr>sys_db = d, sys_tasks = [WorkerClassify 7 sample_payload]\<rparr>"
  let ?u = "\<lparr>us_system = ?s, us_open = []\<rparr>"
  assume "reachable sample_context ?s"
    and view: "entity_view ShipmentKind d (''maersk'', ''T1'') =
       Some (event_latest sample_scalars (picked_up ''T1'' 50))"
  note reach = reachable_unlocked [OF \<open>reachable sample_context ?s\<close>]
  from view obtain e where "row_lookup natural_key (entities ShipmentKind d) (''maersk'', ''T1'') = Some e"
    by (auto simp: entity_view_def bind_eq_Some_conv)
  then have "e \<in> set (entities ShipmentKind (us_db ?u))" using row_lookup_Some by fastforce
  with reachable_last_event [OF reach this] reach show ?thesis
    by (intro exI [of _ ?u] exI [of _ e]) simp
qed

text \<open>
  C6. In every reachable state, unlocked updates included, a row of a history belongs to a raw event
  that is not a duplicate and has been processed; each history has at most one row per raw event.
\<close>

theorem reachable_history_sources:
  assumes "unlocked_reachable cx u"
  shows "distinct (map ev_raw_event_id (entity_events k (us_db u))) \<and>
    (\<forall>v \<in> set (entity_events k (us_db u)). \<exists>r \<in> set (raw_events (us_db u)).
       re_id r = ev_raw_event_id v \<and> re_duplicate_of_id r = None \<and> re_status r \<noteq> Duplicate \<and>
       re_processed_at r \<noteq> None)"
proof -
  have base: "base_ok (us_db u)" using unlocked_base_reachable [OF assms] by (simp add: unlocked_base_def sys_base_def)
  then have "re_status r \<noteq> Duplicate" if "r \<in> set (raw_events (us_db u))" "is_primary r" for r
    using that by (auto simp: base_ok_def all_rows_def status_link_def is_primary_def)
  moreover have "distinct (map ev_raw_event_id (entity_events k (us_db u)))"
    using base by (simp add: base_ok_def schema_ok_def kind_schema_ok_def)
  ultimately show ?thesis
    using log.unlocked_invariant [OF assms] unfolding logged_ok_def by (fastforce simp: is_primary_def)
qed

theorem reachable_history_sources_witness:
  "\<exists>u. unlocked_reachable sample_context u \<and> entity_events ShipmentKind (us_db u) \<noteq> [] \<and>
     distinct (map ev_raw_event_id (entity_events ShipmentKind (us_db u)))"
proof (rule run_two_workers)
  fix d r
  let ?s = "\<lparr>sys_db = d, sys_tasks = [WorkerClassify 7 sample_payload]\<rparr>"
  let ?u = "\<lparr>us_system = ?s, us_open = []\<rparr>"
  assume "reachable sample_context ?s"
    and ev: "\<exists>v \<in> set (shipment_events d). ev_raw_event_id v = 7"
  note reach = reachable_unlocked [OF \<open>reachable sample_context ?s\<close>]
  from reachable_history_sources [OF reach, of ShipmentKind] ev reach show ?thesis
    by (intro exI [of _ ?u]) auto
qed

text \<open>
  C7. The functions of the code are runs of the system: an HTTP request to the application, whatever its
  route, and the whole process of a worker with its reaper, from its start to the disposal of its engine,
  whatever the ticks, the faults and the answers of the model, lead from a reachable state to a reachable
  one and leave the pending work of all other processes as it is. What holds in every reachable state
  (C2 to C6) therefore holds after any sequence of requests and worker processes.
\<close>

theorem functions_are_runs:
  assumes "reachable cx \<lparr>sys_db = app_db app, sys_tasks = ts\<rparr>"
  shows "reachable cx \<lparr>sys_db = app_db (snd (serve cx web env req app)), sys_tasks = ts\<rparr> \<and>
    reachable cx \<lparr>sys_db = pr_db (snd (run_process cx web host given fault now start passes
      \<lparr>pr_db = app_db app, pr_globals = g\<rparr>)), sys_tasks = ts\<rparr>"
  using run_serve [OF assms] run_run_process [of cx "\<lparr>pr_db = app_db app, pr_globals = g\<rparr>"] assms by simp

theorem functions_are_runs_witness:
  "reachable sample_context \<lparr>sys_db = app_db (snd (serve sample_context sample_web sample_serve_env
       \<lparr>hr_method = ''POST'', hr_path = [''api'', ''v1'', ''webhooks'', ''maersk''], hr_body = [7]\<rparr>
       \<lparr>app_db = empty_db, app_classifier = None\<rparr>)), sys_tasks = []\<rparr>"
proof -
  have "reachable sample_context
      \<lparr>sys_db = app_db \<lparr>app_db = empty_db, app_classifier = None\<rparr>, sys_tasks = []\<rparr>"
    using reachable_initial [of sample_context] by (simp add: initial_system_def)
  from functions_are_runs [OF this] show ?thesis by blast
qed

section \<open>Out-of-order events\<close>

text \<open>
  C8. The order in which events are persisted does not matter: two runs over the same events, in any
  two orders, leave the same state, time and attributes for an entity whose events have different
  times.
\<close>

theorem arrival_order_irrelevant:
  assumes "projection_ok d" and "run_steps (persist_step k) xs d d1" and "run_steps (persist_step k) ys d d2"
    and "mset xs = mset ys" and "distinct (map lt_at (map snd (filter (\<lambda>y. fst y = n) xs)))"
  shows "entity_view k d1 n = entity_view k d2 n"
  by (rule persisted.view_order_independent [OF assms])

theorem arrival_order_irrelevant_witness:
  "\<exists>d1 d2. run_steps (persist_step ShipmentKind) [first_event, second_event] sample_db d1 \<and>
     run_steps (persist_step ShipmentKind) [second_event, first_event] sample_db d2 \<and>
     entity_view ShipmentKind d1 (''maersk'', ''T9'') = entity_view ShipmentKind d2 (''maersk'', ''T9'')"
proof -
  obtain d1 where d1: "run_steps (persist_step ShipmentKind) [first_event, second_event] sample_db d1"
    using persist_pair [of "picked_up ''T9'' 60" "delivered ''T9'' 70"]
    unfolding first_event_def second_event_def by blast
  obtain d2 where d2: "run_steps (persist_step ShipmentKind) [second_event, first_event] sample_db d2"
    using persist_pair [of "delivered ''T9'' 70" "picked_up ''T9'' 60"]
    unfolding first_event_def second_event_def by blast
  have "distinct (map lt_at (map snd (filter (\<lambda>y. fst y = (''maersk'', ''T9'')) [first_event, second_event])))"
    by (simp add: first_event_def second_event_def event_latest_def)
  with d1 d2 arrival_order_irrelevant [OF sample_projection d1 d2] show ?thesis by auto
qed

text \<open>
  C9. The latest event wins: after any run of persists, an entity that had no event before shows one
  of its events, and none of them is later.
\<close>

theorem latest_event_wins:
  assumes "projection_ok d" and "run_steps (persist_step k) xs d d'" and "entity_view k d n = None"
    and "\<exists>x. (n, x) \<in> set xs"
  shows "\<exists>x. (n, x) \<in> set xs \<and> entity_view k d' n = Some x \<and>
    (\<forall>y. (n, y) \<in> set xs \<longrightarrow> lt_at y \<le> lt_at x)"
proof -
  have "filter (\<lambda>y. fst y = n) xs \<noteq> []" using assms(4) by (force simp: filter_empty_conv)
  from persisted.view_latest [OF assms(1-3) this] show ?thesis .
qed

theorem latest_event_wins_witness:
  "\<exists>d. run_steps (persist_step ShipmentKind) [second_event, first_event] sample_db d \<and>
     entity_view ShipmentKind d (''maersk'', ''T9'') = Some (snd second_event)"
proof -
  obtain d where d: "run_steps (persist_step ShipmentKind) [second_event, first_event] sample_db d"
    using persist_pair [of "delivered ''T9'' 70" "picked_up ''T9'' 60"]
    unfolding first_event_def second_event_def by blast
  have none: "entity_view ShipmentKind sample_db (''maersk'', ''T9'') = None"
    by (simp add: entity_view_def row_lookup_def sample_entity_def natural_key_def)
  have "\<exists>x. ((''maersk'', ''T9''), x) \<in> set [second_event, first_event]"
    by (auto simp: first_event_def second_event_def)
  from latest_event_wins [OF sample_projection d none this] obtain x where
    x: "((''maersk'', ''T9''), x) \<in> set [second_event, first_event]"
      "entity_view ShipmentKind d (''maersk'', ''T9'') = Some x"
      "\<forall>y. ((''maersk'', ''T9''), y) \<in> set [second_event, first_event] \<longrightarrow> lt_at y \<le> lt_at x"
    by blast
  from x(3) have "lt_at (snd second_event) \<le> lt_at x" by (simp add: second_event_def)
  with x(1) have "x = snd second_event"
    by (auto simp: first_event_def second_event_def event_latest_def)
  with x(2) d show ?thesis by blast
qed

text \<open>
  C10. Refinement of an event-sourced specification: while each raw event is persisted once, every
  entity row equals the replay of its history.
\<close>

theorem persist_refines_replay:
  assumes "projection_ok d" and "replay_ok d"
    and "persist_normalized sc cfg now db_now eid vid raw e d = (Inr (), d')"
    and "payload_kind (ne_payload e) = Some k" and "external_ref e = Some ref"
    and "re_id raw \<notin> ev_raw_event_id ` set (entity_events k d)"
  shows "\<forall>j. \<forall>x \<in> set (entities j d').
    projection x = fold jump_to_latest (map event_as_latest (history j (en_id x) d')) None"
  using replay_ok_persist [OF assms] unfolding replay_ok_def replay_def .

theorem persist_refines_replay_witness:
  "\<exists>d'. persist_normalized sample_scalars default_settings (Ts 80) (Ts 80) 11 21
       (sample_row 1 30 ''a'' Pending) (delivered ''T1'' 70) sample_db = (Inr (), d') \<and>
     map projection (entities ShipmentKind d') =
       map (\<lambda>x. fold jump_to_latest (map event_as_latest (history ShipmentKind (en_id x) d')) None)
         (entities ShipmentKind d')"
proof -
  obtain d' where run: "persist_normalized sample_scalars default_settings (Ts 80) (Ts 80) 11 21
      (sample_row 1 30 ''a'' Pending) (delivered ''T1'' 70) sample_db = (Inr (), d')"
    by (rule persist_exists [OF sample_schema, of "sample_row 1 30 ''a'' Pending" "delivered ''T1'' 70"
          ShipmentKind "''T1''" "at_time 70" 11 21 sample_scalars default_settings "Ts 80" "Ts 80"])
       (simp_all add: varchar_def sample_entity_def sample_event_def)
  have "re_id (sample_row 1 30 ''a'' Pending) \<notin> ev_raw_event_id ` set (entity_events ShipmentKind sample_db)"
    by (simp add: sample_event_def)
  from persist_refines_replay [OF sample_projection sample_replay run _ _ this] run show ?thesis by simp
qed

section \<open>The worker\<close>

text \<open>
  C11. The queue drains: between two runs of the reaper, as many fault-free passes of the loop as the
  budget of the pending rows leave every one of them processed or failed, and no other row changed.
\<close>

theorem queue_drains:
  assumes "schema_ok d" and "has_room d" and "worker_max_attempts cfg < 2 ^ 31"
    and "\<forall>tk \<in> set tks. quiet_pass cfg last_reap tk" and "budget cfg d \<le> length tks"
  shows "list_all2 (\<lambda>r r'. re_id r' = re_id r \<and>
      (if re_status r = Pending then re_status r' = Processed \<or> re_status r' = Failed else r' = r))
    (raw_events d) (raw_events (snd (snd (run_loop sc repr cfg tks (last_reap, d)))))"
proof -
  let ?d = "snd (snd (run_loop sc repr cfg tks (last_reap, d)))"
  note drained = quiet_loop_drains [OF assms, of sc repr]
  then have "\<forall>r \<in> set (raw_events ?d). re_status r \<noteq> Pending" by (simp add: budget_zero)
  with drained show ?thesis
    unfolding settles_def settled_row_def by (auto elim!: list.rel_mono_strong)
qed

theorem queue_drains_witness:
  "budget default_settings sample_db = 10 \<and>
   filter (\<lambda>r. re_status r = Pending) (raw_events (snd (snd (run_loop sample_scalars sample_repr
     default_settings (replicate 10 (sample_tick (\<lambda>p. Inr (delivered ''T1'' 90)))) (0, sample_db))))) = []"
proof -
  let ?tks = "replicate 10 (sample_tick (\<lambda>p. Inr (delivered ''T1'' 90)))"
  let ?d = "snd (snd (run_loop sample_scalars sample_repr default_settings ?tks (0, sample_db)))"
  have "list_all2 (\<lambda>r r'. re_id r' = re_id r \<and>
      (if re_status r = Pending then re_status r' = Processed \<or> re_status r' = Failed else r' = r))
    (raw_events sample_db) (raw_events ?d)"
    by (rule queue_drains [OF sample_schema sample_has_room])
       (simp_all add: default_settings_def [THEN arg_cong, of worker_max_attempts] sample_budget
         sample_tick_quiet del: sample_db_tables)
  from list_all2_second [OF this] sample_budget show ?thesis
    unfolding filter_empty_conv by (fastforce split: if_splits)
qed

text \<open>
  C12. A payload the classifier cannot handle does not block the queue forever: after the budgeted
  passes its row is failed with exactly \<open>max_attempts\<close> attempts (one more than it had, when it had
  used them up already) and the truncated error.
\<close>

theorem poison_message_fails:
  assumes "schema_ok d" and "has_room d" and "worker_max_attempts cfg < 2 ^ 31"
    and "\<forall>tk \<in> set tks. quiet_pass cfg last_reap tk \<and> tk_classifier tk (re_payload r) = Inl exc"
    and "budget cfg d \<le> length tks" and "r \<in> set (raw_events d)" and "re_status r = Pending"
  shows "\<exists>r' \<in> set (raw_events (snd (snd (run_loop sc repr cfg tks (last_reap, d))))).
    re_id r' = re_id r \<and> re_status r' = Failed \<and>
    re_attempts r' = max (re_attempts r + 1) (worker_max_attempts cfg) \<and>
    re_last_error r' = Some (py_prefix 2000 (''classify: '' @ repr exc))"
proof -
  have quiet: "\<forall>tk \<in> set tks. quiet_pass cfg last_reap tk" using assms(4) by blast
  have "poison_state cfg (re_attempts r) r" using assms(7) by (simp add: poison_state_def)
  from poison_run [OF assms(1-4,6) refl this, of repr sc] assms(7)
  obtain r' where r': "r' \<in> set (raw_events (snd (snd (run_loop sc repr cfg tks (last_reap, d)))))"
    "re_id r' = re_id r" "poison_state cfg (re_attempts r) r'"
    "re_status r' = Failed \<longrightarrow> re_last_error r' = Some (py_prefix 2000 (''classify: '' @ repr exc))"
    by auto
  have "re_status r' \<noteq> Pending"
    using quiet_loop_drains [OF assms(1-3) quiet assms(5), of sc repr] r'(1) by (simp add: budget_zero)
  with r' show ?thesis by (intro bexI [of _ r']) (auto simp: poison_state_def)
qed

theorem poison_message_fails_witness:
  "\<exists>r' \<in> set (raw_events (snd (snd (run_loop sample_scalars sample_repr default_settings
       (replicate 10 (sample_tick (\<lambda>p. Inl JSONEncodeError))) (0, sample_db))))).
     re_id r' = 2 \<and> re_status r' = Failed \<and> re_attempts r' = 5"
proof -
  let ?tks = "replicate 10 (sample_tick (\<lambda>p. Inl JSONEncodeError))"
  let ?r = "sample_row 2 20 ''b'' Pending"
  have m: "worker_max_attempts default_settings = 5" by (simp add: default_settings_def)
  have "\<exists>r' \<in> set (raw_events (snd (snd (run_loop sample_scalars sample_repr default_settings ?tks (0, sample_db))))).
    re_id r' = re_id ?r \<and> re_status r' = Failed \<and>
    re_attempts r' = max (re_attempts ?r + 1) (worker_max_attempts default_settings) \<and>
    re_last_error r' = Some (py_prefix 2000 (''classify: '' @ sample_repr JSONEncodeError))"
    by (rule poison_message_fails [OF sample_schema sample_has_room])
       (auto simp: m sample_budget sample_tick_quiet, simp add: sample_tick_def)
  then show ?thesis by (auto simp: m)
qed

text \<open>
  C13. Claims, by any number of workers one after the other, take different rows, oldest first, mark
  them as being processed, and leave no pending row out once there are enough of them.
\<close>

theorem claims_are_fifo:
  assumes "schema_ok d"
  shows "distinct (map re_id (fst (claim_series tie m ts d))) \<and>
    sorted (map re_received_at (fst (claim_series tie m ts d))) \<and>
    (\<forall>r \<in> set (fst (claim_series tie m ts d)). re_status r = Processing) \<and>
    (length (filter (\<lambda>r. re_status r = Pending) (raw_events d)) \<le> length ts \<longrightarrow>
       re_id ` set (fst (claim_series tie m ts d)) =
       re_id ` set (filter (\<lambda>r. re_status r = Pending) (raw_events d)))"
proof -
  have rows: "pending_rows [] d = filter (\<lambda>r. re_status r = Pending) (raw_events d)"
    unfolding pending_rows_def by (rule filter_cong) (auto simp: claimable_def)
  show ?thesis using claim_series_in_order [OF assms, of tie m ts] unfolding rows by blast
qed

theorem claims_are_fifo_witness:
  "re_id ` set (fst (claim_series (\<lambda>i. i) 5 [Ts 100, Ts 101] sample_db)) = {1, 2} \<and>
   sorted (map re_received_at (fst (claim_series (\<lambda>i. i) 5 [Ts 100, Ts 101] sample_db)))"
proof -
  have "length (filter (\<lambda>r. re_status r = Pending) (raw_events sample_db)) \<le> length [Ts 100, Ts 101]" by simp
  moreover have "re_id ` set (filter (\<lambda>r. re_status r = Pending) (raw_events sample_db)) = {1, 2}"
    by simp
  ultimately show ?thesis
    using claims_are_fifo [OF sample_schema, of "\<lambda>i. i" 5 "[Ts 100, Ts 101]"] by metis
qed

text \<open>
  C14. \<open>SKIP LOCKED\<close> is serialisable: a worker that skips the row another worker has locked but not
  yet committed claims what it would claim after that commit.
\<close>

theorem skip_locked_is_serial:
  assumes "schema_ok d" and "a \<in> set (raw_events d)"
  shows "fst (claim_one tie (re_id a # locked) t m d) = fst (claim_one tie locked t m (claimed_db u a d))"
  unfolding claim_one_result [OF assms(1)] claim_one_result [OF schema_claimed_db [OF assms(1)]]
    skip_locked_serial [of tie a locked d u] by (simp split: option.split)

theorem skip_locked_is_serial_witness:
  "fst (claim_one (\<lambda>i. i) [2] (Ts 100) 5 sample_db) =
   fst (claim_one (\<lambda>i. i) [] (Ts 100) 5 (claimed_db (Ts 99) (sample_row 2 20 ''b'' Pending) sample_db))"
proof -
  have "sample_row 2 20 ''b'' Pending \<in> set (raw_events sample_db)" by simp
  from skip_locked_is_serial [OF sample_schema this, of "\<lambda>i. i" "[]" "Ts 100" 5 "Ts 99"] show ?thesis by simp
qed

text \<open>
  C15. The reaper, when its transaction commits, releases exactly the rows that have been processing since
  before the threshold, reports their number, and finds nothing when run again.
\<close>

theorem reaper_is_exact:
  assumes "minutes_before (worker_stale_lock_minutes cfg) now = Some th"
  shows "fst (reap_stale None cfg now d) =
      Inr (length (filter (\<lambda>r. re_status r = Processing \<and> (\<exists>l < th. re_locked_at r = Some l)) (raw_events d))) \<and>
    raw_events (snd (reap_stale None cfg now d)) =
      map (\<lambda>r. if re_status r = Processing \<and> (\<exists>l < th. re_locked_at r = Some l)
               then r\<lparr>re_status := Pending, re_locked_at := None\<rparr> else r) (raw_events d) \<and>
    fst (reap_stale None cfg now (snd (reap_stale None cfg now d))) = Inr 0"
proof -
  have stale: "is_stale th r \<longleftrightarrow> re_status r = Processing \<and> (\<exists>l < th. re_locked_at r = Some l)" for r
    by (auto simp: is_stale_def split: option.split)
  show ?thesis
    unfolding reap_stale_result [OF assms] fst_conv snd_conv raw_events_set_raw_events reap_again
      stale [symmetric] by (simp add: release_row_def)
qed

theorem reaper_is_exact_witness:
  "fst (reap_stale None default_settings (Ts 300000011) sample_db) = Inr 1 \<and>
   fst (reap_stale None default_settings (Ts 300000010) sample_db) = Inr 0"
proof -
  have th: "minutes_before (worker_stale_lock_minutes default_settings) (Ts 300000011) = Some (Ts 11)"
    "minutes_before (worker_stale_lock_minutes default_settings) (Ts 300000010) = Some (Ts 10)"
    by (simp_all add: minutes_before_def default_settings_def datetime_in_range_def datetime_min_def datetime_max_def)
  from reaper_is_exact [OF th(1), of sample_db] reaper_is_exact [OF th(2), of sample_db] show ?thesis
    by simp
qed

text \<open>
  C16. Crash recovery: a row whose worker died after the claim is not touched by the reaper until the
  threshold has passed its claim time; then it is claimable again with its attempts unchanged.
\<close>

theorem crashed_claim_recovers:
  assumes "next_pending tie [] d = Some r" and "minutes_before (worker_stale_lock_minutes cfg) now = Some th"
  shows "\<exists>r' \<in> set (raw_events (snd (reap_stale None cfg now (claimed_db t r d)))).
    re_id r' = re_id r \<and> re_attempts r' = re_attempts r \<and> re_payload r' = re_payload r \<and>
    (if t < th then claimable [] r' \<and> re_locked_at r' = None
     else re_status r' = Processing \<and> re_locked_at r' = Some t)"
proof -
  let ?r = "mark_claimed t r"
  have "?r \<in> set (raw_events (claimed_db t r d))"
    using next_pending_Some(1) [OF assms(1)] by (auto simp: row_update_def)
  moreover have "is_stale th ?r \<longleftrightarrow> t < th" by (simp add: is_stale_def)
  ultimately show ?thesis
    unfolding reap_stale_result [OF assms(2)]
    by (intro bexI [of _ "if t < th then release_row ?r else ?r"]) (auto simp: claimable_def)
qed

theorem crashed_claim_recovers_witness:
  "\<exists>r' \<in> set (raw_events (snd (reap_stale None default_settings (Ts 300000101)
       (claimed_db (Ts 100) (sample_row 2 20 ''b'' Pending) sample_db)))).
     re_id r' = 2 \<and> re_status r' = Pending \<and> re_attempts r' = 0"
proof -
  have th: "minutes_before (worker_stale_lock_minutes default_settings) (Ts 300000101) = Some (Ts 101)"
    by (simp add: minutes_before_def default_settings_def datetime_in_range_def datetime_min_def datetime_max_def)
  from crashed_claim_recovers [OF sample_next th, where t = "Ts 100"] show ?thesis
    by (auto simp: claimable_def)
qed



section \<open>The operator's retry\<close>

text \<open>
  C18. What becomes of a row that a retry does not refuse and whose attempts have room for one more,
  whichever commits fail. If taking the row over fails, nothing has changed and that exception is raised.
  Otherwise one attempt is counted. When classifying and persisting succeed, the row is processed, and it is
  returned unless reading it back fails. When they raise (with the classifier's exception, if it was the
  classifier), the row is pending again with the error recorded, and the exception is re-raised; but
  when recording the error fails, that failure is raised and the row stays in processing, with the lock time
  of the takeover.
\<close>

theorem retry_decides_row:
  assumes "schema_ok d" and "r \<in> set (raw_events d)" and "re_id r = i"
    and "re_status r \<noteq> Duplicate" and "re_status r \<noteq> Processed"
    and "0 \<le> re_attempts r" and "re_attempts r + 1 < 2 ^ 31"
    and "retry_raw_event sc repr sh cfg cl env i d = (out, d')"
  shows "case rt_acquire_fault env of
      Some e \<Rightarrow> out = Inl e \<and> d' = d
    | None \<Rightarrow> \<exists>r' \<in> set (raw_events d'). re_id r' = i \<and> re_attempts r' = re_attempts r + 1 \<and>
        (case retry_process sc cfg env i (cl (re_payload r)) (acquired_db (rt_acquire_now env) i d) of
           (Inr _, _) \<Rightarrow> re_status r' = Processed \<and>
             out = (case rt_read_fault env of None \<Rightarrow> Inr r' | Some e \<Rightarrow> Inl e)
         | (Inl exc, _) \<Rightarrow> (\<forall>exc'. cl (re_payload r) = Inl exc' \<longrightarrow> exc = exc') \<and>
             (case rt_record_fault env of
                None \<Rightarrow> out = Inl exc \<and> re_status r' = Pending \<and>
                  re_last_error r' = Some (py_prefix 2000 (''manual retry: '' @ repr exc))
              | Some e \<Rightarrow> out = Inl e \<and> re_status r' = Processing \<and>
                  re_locked_at r' = Some (rt_acquire_now env)))"
proof -
  obtain proc d2 where proc: "retry_process sc cfg env i (cl (re_payload r))
      (acquired_db (rt_acquire_now env) i d) = (proc, d2)" by fastforce
  then have raised: "exc = exc'" if "proc = Inl exc" "cl (re_payload r) = Inl exc'" for exc exc'
    using that by (simp add: retry_process_def)
  show ?thesis
  proof (rule retry_cases [OF assms, of proc])
    show "proc = fst (retry_process sc cfg env i (cl (re_payload r)) (acquired_db (rt_acquire_now env) i d))"
      by (simp add: proc)
  qed (use proc raised in \<open>auto simp del: append.simps intro!: bexI\<close>)
qed

theorem retry_decides_row_witness:
  "fst (retry_raw_event sample_scalars sample_repr sample_show default_settings (\<lambda>p. Inl OverflowError)
     sample_retry_env 6 sample_db) = Inl OverflowError \<and>
   (\<exists>r'. fst (retry_raw_event sample_scalars sample_repr sample_show default_settings (\<lambda>p. Inr advisory)
     sample_retry_env 6 sample_db) = Inr r' \<and> re_status r' = Processed \<and> re_attempts r' = 6)"
proof -
  let ?r = "sample_row 6 4 ''e'' Failed"
  let ?d = "acquired_db (rt_acquire_now sample_retry_env) 6 sample_db"
  have r: "?r \<in> set (raw_events sample_db)" by simp
  note at = retry_decides_row [OF sample_schema r _ _ _ _ _ prod.collapse [symmetric],
      of 6 sample_scalars sample_repr sample_show default_settings _ sample_retry_env]
  have faults: "rt_acquire_fault sample_retry_env = None" "rt_persist_fault sample_retry_env = None"
    "rt_record_fault sample_retry_env = None" "rt_read_fault sample_retry_env = None"
    by (simp_all add: sample_retry_env_def)
  have "schema_ok ?d" by (rule acquire_applies(2) [OF sample_schema r]) simp_all
  moreover have "6 \<in> re_id ` set (raw_events ?d)" by (simp add: row_update_def)
  ultimately have "fst (retry_process sample_scalars default_settings sample_retry_env 6 (Inr advisory) ?d) = Inr ()"
    by (rule retry_process_unclassified [OF _ _ faults(2) advisory_payload])
  then obtain d2 where ok: "retry_process sample_scalars default_settings sample_retry_env 6 (Inr advisory) ?d =
      (Inr (), d2)" by (metis prod.collapse)
  have "retry_process sample_scalars default_settings sample_retry_env 6 (Inl OverflowError) ?d = (Inl OverflowError, ?d)"
    by (simp add: retry_process_def tx_raise_def)
  with at [of "\<lambda>p. Inl OverflowError"] faults
  have "fst (retry_raw_event sample_scalars sample_repr sample_show default_settings (\<lambda>p. Inl OverflowError)
      sample_retry_env 6 sample_db) = Inl OverflowError" by (auto simp del: sample_db_tables)
  moreover from at [of "\<lambda>p. Inr advisory"] faults ok
  have "\<exists>r'. fst (retry_raw_event sample_scalars sample_repr sample_show default_settings (\<lambda>p. Inr advisory)
      sample_retry_env 6 sample_db) = Inr r' \<and> re_status r' = Processed \<and> re_attempts r' = 6"
    by (auto simp del: sample_db_tables)
  ultimately show ?thesis by blast
qed

section \<open>Persisting an event\<close>



text \<open>
  C20. A persist that fails is rolled back as a whole: when the transaction that records the failure
  commits, the only change is that of the raw event's own row, with one more attempt and the error.
\<close>

theorem failed_persist_rolls_back:
  assumes "schema_ok d" and "r \<in> set (raw_events d)"
    and "0 \<le> re_attempts r" and "re_attempts r + 1 < 2 ^ 31" and "pe_mark_fault env = None"
    and "fst (session_scope (pe_persist_fault env) (persist_loaded sc cfg env (re_id r) ev) d) = Inl exc"
  shows "process_claimed sc repr cfg env (re_id r) (Inr ev) d =
    (Inr (), set_raw_events (row_update re_id (re_id r)
       (fail_row (''persist: '' @ repr exc) (worker_max_attempts cfg)) (raw_events d)) d)"
proof -
  let ?scope = "session_scope (pe_persist_fault env) (persist_loaded sc cfg env (re_id r) ev)"
  obtain d1 where run: "?scope d = (Inl exc, d1)" using assms(6) by (metis prod.collapse)
  from session_scope_raises [OF run] have "d1 = d" .
  with run mark_failed_applies [OF assms(1,2) refl assms(3,4)] assms(5) show ?thesis
    by (simp add: process_claimed_def tx_try_apply del: append.simps)
qed

theorem failed_persist_rolls_back_witness:
  "shipments (snd (process_claimed sample_scalars sample_repr default_settings
     (sample_env\<lparr>pe_persist_fault := Some (OtherError ''connection lost'')\<rparr>) 3 (Inr (delivered ''T1'' 70))
     sample_db)) = [sample_entity]"
proof -
  let ?env = "sample_env\<lparr>pe_persist_fault := Some (OtherError ''connection lost'')\<rparr>"
  let ?r = "sample_row 3 10 ''c'' Processing"
  have r: "?r \<in> set (raw_events sample_db)" by simp
  obtain exc where exc: "fst (session_scope (pe_persist_fault ?env) (persist_loaded sample_scalars
      default_settings ?env (re_id ?r) (delivered ''T1'' 70)) sample_db) = Inl exc"
    by (cases "fst (session_scope (pe_persist_fault ?env) (persist_loaded sample_scalars
      default_settings ?env (re_id ?r) (delivered ''T1'' 70)) sample_db)")
       (auto simp: session_scope_def split: prod.splits sum.splits)
  from failed_persist_rolls_back [OF sample_schema r _ _ _ exc, of sample_repr]
  show ?thesis
    by (simp add: sample_env_def del: append.simps)
qed

text \<open>
  C21. Persisting the same event for the same raw event again changes neither a history nor what an
  entity shows.
\<close>

theorem persist_is_idempotent:
  assumes "projection_ok d"
    and "persist_normalized sc cfg now db_now eid vid raw e d = (Inr (), d1)"
    and "persist_normalized sc cfg now' db_now' eid' vid' raw e d1 = (Inr (), d2)"
    and "payload_kind (ne_payload e) = Some k" and "external_ref e = Some ref"
  shows "entity_events j d2 = entity_events j d1 \<and> entity_view j d2 n = entity_view j d1 n"
  using persist_twice [OF assms] by blast

theorem persist_is_idempotent_witness:
  "\<exists>d1 d2. persist_normalized sample_scalars default_settings (Ts 80) (Ts 80) 11 21
       (sample_row 1 30 ''a'' Pending) (paid ''I1'' 70) sample_db = (Inr (), d1) \<and>
     persist_normalized sample_scalars default_settings (Ts 90) (Ts 90) 12 22
       (sample_row 1 30 ''a'' Pending) (paid ''I1'' 70) d1 = (Inr (), d2) \<and>
     invoice_events d2 = invoice_events d1"
proof -
  let ?raw = "sample_row 1 30 ''a'' Pending"
  obtain d1 where d1: "persist_normalized sample_scalars default_settings (Ts 80) (Ts 80) 11 21 ?raw
      (paid ''I1'' 70) sample_db = (Inr (), d1)"
    by (rule persist_exists [OF sample_schema, of ?raw "paid ''I1'' 70" InvoiceKind "''I1''" "at_time 70"
          11 21 sample_scalars default_settings "Ts 80" "Ts 80"]) (simp_all add: varchar_def)
  have s1: "schema_ok d1" by (rule schema_after_persist [OF sample_schema d1])
  have k: "payload_kind (ne_payload (paid ''I1'' 70)) = Some InvoiceKind"
    "external_ref (paid ''I1'' 70) = Some ''I1''" by simp_all
  note ids = persist_new_ids [OF sample_schema d1 k]
  have "2 \<in> re_id ` set (raw_events d1)" unfolding ids(3) by simp
  then obtain q where q: "q \<in> set (raw_events d1)" by auto
  have eid: "12 \<notin> en_id ` set (entities InvoiceKind d1)" "22 \<notin> ev_id ` set (entity_events InvoiceKind d1)"
    using ids(1,2) by auto
  have utc: "ensure_utc (ne_event_at (paid ''I1'' 70)) = Some (at_time 70)" by simp
  have fits: "varchar_opt 512 (vendor_milestone (paid ''I1'' 70))" by (simp add: varchar_def)
  have q1: "\<exists>q \<in> set (raw_events d1). re_id q = 1 \<and> re_vendor_hint q = ''maersk''"
    by (rule persist_raw_row [OF d1]) (simp add: row_update_def)
  then obtain d2 where d2: "persist_normalized sample_scalars default_settings (Ts 90) (Ts 90) 12 22 ?raw
      (paid ''I1'' 70) d1 = (Inr (), d2)"
  proof -
    from q1 obtain q where q: "q \<in> set (raw_events d1)" "re_id q = 1" "re_vendor_hint q = ''maersk''" by blast
    obtain d2 where "persist_normalized sample_scalars default_settings (Ts 90) (Ts 90) 12 22 q
        (paid ''I1'' 70) d1 = (Inr (), d2)"
      by (rule persist_exists [OF s1 q(1) k utc _ fits eid, of sample_scalars default_settings "Ts 90" "Ts 90"])
         simp_all
    then have "persist_normalized sample_scalars default_settings (Ts 90) (Ts 90) 12 22 ?raw
        (paid ''I1'' 70) d1 = (Inr (), d2)"
      using q(2,3) by (simp add: persist_normalized_classified [OF k(1)] persist_classified_def)
    then show ?thesis by (rule that)
  qed
  from persist_is_idempotent [OF sample_projection d1 d2 k, of InvoiceKind] d1 d2 show ?thesis by auto
qed

text \<open>
  C22. An unclassified payload never reaches an entity: its row is marked processed, with a note that
  it was dropped when the settings say so, and nothing else changes.
\<close>

theorem unclassified_only_marks_row:
  assumes "schema_ok d" and "ne_payload e = UnclassifiedPayload p"
  shows "persist_normalized sc cfg now db_now eid vid raw e d =
    (Inr (), set_raw_events (row_update re_id (re_id raw)
       (\<lambda>r. r\<lparr>re_status := Processed, re_processed_at := Some now,
              re_last_error := if worker_keep_unclassified_events cfg then None
                else Some (py_prefix 2000 (''dropped: unclassified payload ('' @ unclassified_reason p @ '')''))\<rparr>)
       (raw_events d)) d)"
proof -
  have "mark_processed now (if worker_keep_unclassified_events cfg then None
        else Some (dropped_note (unclassified_reason p))) =
      (\<lambda>r. r\<lparr>re_status := Processed, re_processed_at := Some now,
            re_last_error := if worker_keep_unclassified_events cfg then None
              else Some (py_prefix 2000 (''dropped: unclassified payload ('' @ unclassified_reason p @ '')''))\<rparr>)"
    by (simp only: fun_eq_iff mark_processed_def dropped_note_def) simp
  with persist_unclassified_succeeds [OF assms] show ?thesis by simp
qed

theorem unclassified_only_marks_row_witness:
  "shipments (snd (persist_normalized sample_scalars default_settings (Ts 80) (Ts 80) 11 21
     (sample_row 1 30 ''a'' Pending) advisory sample_db)) = [sample_entity]"
proof -
  from unclassified_only_marks_row [OF sample_schema advisory_payload]
  show ?thesis by simp
qed

section \<open>The webhook endpoint\<close>

text \<open>
  C23. A webhook with a valid vendor and a JSON object within the size limit, when the ids chosen for it are
  fresh. If the payload cannot be serialised for its hash (nested too deeply, say), that exception is
  raised and nothing is stored. Otherwise, when the commit succeeds, it is stored as a primary if its vendor
  and content are new and as a duplicate of the one primary with them if not, and nothing else changes;
  the acknowledgement names the row and, for a duplicate, its primary. When the commit fails nothing is
  stored, and the client gets the failure or, if the session ends after the response, the
  acknowledgement (C25). Strings with NUL characters, which Postgres refuses, the model leaves out.
\<close>

theorem webhook_accepts:
  assumes "schema_ok d" and "valid_vendor v"
    and "body \<noteq> []" and "int (length body) \<le> api_request_max_bytes cfg"
    and "loads body = Inr p" and "is_dict p"
    and "{rq_id1 env, rq_id2 env} \<inter> re_id ` set (raw_events d) = {}"
  shows "ingest_webhook dumps loads cfg env v body d =
    (case canonical_hash dumps p of
       Inl e \<Rightarrow> (Inl e, d)
     | Inr h \<Rightarrow>
         let (ack, r) =
           (case row_lookup dedup_key (primaries d) (v, h) of
              None \<Rightarrow>
                (\<lparr>ack_raw_event_id = rq_id1 env, ack_duplicate = False, ack_duplicate_of = None\<rparr>,
                 new_raw_event (rq_id1 env) (rq_now env) v p h None Pending)
            | Some q \<Rightarrow>
                (\<lparr>ack_raw_event_id = rq_id2 env, ack_duplicate = True, ack_duplicate_of = Some (re_id q)\<rparr>,
                 new_raw_event (rq_id2 env) (rq_now env) v p h (Some (re_id q)) Duplicate))
         in case rq_fault env of
              None \<Rightarrow> (Inr ack, set_raw_events (raw_events d @ [r]) d)
            | Some e \<Rightarrow> (if rq_late env then Inr ack else Inl e, d))"
proof (cases "canonical_hash dumps p")
  case (Inl e)
  have body: "read_json_body loads (api_request_max_bytes cfg) body = Inr p"
    using assms(3-6) by (simp add: read_json_body_Inr)
  from ingest_webhook_body [OF assms(2) body insert_raw_event_unhashed [OF Inl]] Inl show ?thesis by simp
next
  case (Inr h)
  have body: "read_json_body loads (api_request_max_bytes cfg) body = Inr p"
    using assms(3-6) by (simp add: read_json_body_Inr)
  note fits = valid_vendor_fits [OF assms(2)]
  have raw: "raw_schema_ok d" using assms(1) by (simp add: schema_ok_def)
  show ?thesis
  proof (cases "row_lookup dedup_key (primaries d) (v, h)")
    case None
    then have "(v, h) \<notin> dedup_key ` set (primaries d)" by (simp only: row_lookup_None simp_thms)
    with assms(7) have "insert_raw_event dumps (rq_id1 env) (rq_id2 env) (rq_now env) v p d =
        (Inr \<lparr>ir_raw_event_id = rq_id1 env, ir_duplicate = False, ir_duplicate_of = None\<rparr>,
         set_raw_events (raw_events d @ [new_raw_event (rq_id1 env) (rq_now env) v p h None Pending]) d)"
      by (intro insert_raw_event_new [OF Inr fits]) simp_all
    from ingest_webhook_body [OF assms(2) body this] Inr None show ?thesis by (simp add: Let_def)
  next
    case (Some q)
    have "insert_raw_event dumps (rq_id1 env) (rq_id2 env) (rq_now env) v p d =
        (Inr \<lparr>ir_raw_event_id = rq_id2 env, ir_duplicate = True, ir_duplicate_of = Some (re_id q)\<rparr>,
         set_raw_events (raw_events d @
           [new_raw_event (rq_id2 env) (rq_now env) v p h (Some (re_id q)) Duplicate]) d)"
      using assms(7) row_lookup_Some [OF Some] by (intro insert_raw_event_duplicate [OF Inr fits raw]) simp_all
    from ingest_webhook_body [OF assms(2) body this] Inr Some show ?thesis by (simp add: Let_def)
  qed
qed

theorem webhook_accepts_witness:
  "fst (ingest_webhook sample_dumps sample_loads default_settings sample_request ''maersk'' [7] sample_db) =
   Inr \<lparr>ack_raw_event_id = 7, ack_duplicate = False, ack_duplicate_of = None\<rparr> \<and>
   ingest_webhook sample_dumps sample_loads default_settings
     (sample_request\<lparr>rq_late := False, rq_fault := Some (OtherError ''disk full'')\<rparr>) ''maersk'' [7] sample_db =
   (Inl (OtherError ''disk full''), sample_db)"
proof -
  have new: "row_lookup dedup_key (primaries sample_db) (''maersk'', sample_hash) = None"
    by (simp add: row_lookup_None primaries_def)
  have accepted: "is_dict sample_payload" "valid_vendor ''maersk''" "sample_loads [7] = Inr sample_payload"
    by (simp_all add: sample_payload_def sample_loads_def valid_vendor_def vendor_char_def)
  let ?late = "sample_request\<lparr>rq_late := False, rq_fault := Some (OtherError ''disk full'')\<rparr>"
  have env: "rq_id1 sample_request = 7" "rq_id2 sample_request = 8" "rq_fault sample_request = None"
    by (simp_all add: sample_request_def)
  note at = webhook_accepts [where body = "[7]" and loads = sample_loads and p = sample_payload
      and cfg = default_settings and dumps = sample_dumps, OF sample_schema accepted(2) _ _ accepted(3,1), unfolded sample_canonical_hash sum.case new option.case prod.case Let_def]
  have "fst (ingest_webhook sample_dumps sample_loads default_settings sample_request ''maersk'' [7] sample_db) =
      Inr \<lparr>ack_raw_event_id = 7, ack_duplicate = False, ack_duplicate_of = None\<rparr>"
    by (subst at [where env = sample_request]) (simp_all add: env)
  moreover have "ingest_webhook sample_dumps sample_loads default_settings ?late ''maersk'' [7] sample_db =
      (Inl (OtherError ''disk full''), sample_db)"
    by (subst at [where env = ?late]) (simp_all add: env)
  ultimately show ?thesis by blast
qed

text \<open>
  C24. Any other request is refused before the database is touched: 422 for the vendor, 413 for a body
  that is too long, 400 for one that is empty, not JSON or not an object.
\<close>

theorem webhook_refuses:
  assumes "\<not> (valid_vendor v \<and> body \<noteq> [] \<and> int (length body) \<le> api_request_max_bytes cfg \<and>
    (\<exists>p. loads body = Inr p \<and> is_dict p))"
  shows "\<exists>detail. ingest_webhook dumps loads cfg env v body d =
    (Inl (HTTPException (if \<not> valid_vendor v then 422
        else if api_request_max_bytes cfg < int (length body) then 413 else 400) detail), d)"
proof (cases "valid_vendor v")
  case True
  with assms obtain e where e: "read_json_body loads (api_request_max_bytes cfg) body = Inl e"
    by (cases "read_json_body loads (api_request_max_bytes cfg) body") (auto simp: read_json_body_Inr)
  have "\<exists>detail. e = HTTPException (if api_request_max_bytes cfg < int (length body) then 413 else 400) detail"
    by (rule read_json_body_Inl [OF e]) auto
  with True ingest_webhook_body_error [OF True e] show ?thesis by auto
qed (simp add: ingest_webhook_def)

theorem webhook_refuses_witness:
  "\<exists>detail. ingest_webhook sample_dumps sample_loads default_settings sample_request ''maersk'' [] sample_db =
     (Inl (HTTPException 400 detail), sample_db)"
  using webhook_refuses [of "''maersk''" "[]" default_settings sample_loads sample_dumps sample_request sample_db]
  by (simp add: valid_vendor_def vendor_char_def)

text \<open>
  C25. With the framework of the lock file, which ends the session of a request after the response is
  sent, a commit that fails loses a webhook that has been acknowledged.
\<close>

theorem acknowledged_webhook_lost:
  assumes "rq_late env" and "rq_fault env = Some e"
    and "ingest_webhook dumps loads cfg (env\<lparr>rq_fault := None\<rparr>) v body d = (Inr ack, d')"
  shows "ingest_webhook dumps loads cfg env v body d = (Inr ack, d)"
  using assms by (auto simp: ingest_webhook_def get_session_def session_scope_def split: if_splits prod.splits sum.splits)

theorem acknowledged_webhook_lost_witness:
  "ingest_webhook sample_dumps sample_loads default_settings
     (sample_request\<lparr>rq_fault := Some (OtherError ''connection lost'')\<rparr>) ''maersk'' [7] sample_db =
   (Inr \<lparr>ack_raw_event_id = 7, ack_duplicate = False, ack_duplicate_of = None\<rparr>, sample_db)"
proof -
  let ?env = "sample_request\<lparr>rq_fault := Some (OtherError ''connection lost'')\<rparr>"
  have env: "?env\<lparr>rq_fault := None\<rparr> = sample_request" by (simp add: sample_request_def)
  have body: "read_json_body sample_loads (api_request_max_bytes default_settings) [7] = Inr sample_payload"
    by (simp add: read_json_body_Inr sample_loads_def sample_payload_def)
  have ins: "insert_raw_event sample_dumps (rq_id1 sample_request) (rq_id2 sample_request)
      (rq_now sample_request) ''maersk'' sample_payload sample_db =
      (Inr \<lparr>ir_raw_event_id = 7, ir_duplicate = False, ir_duplicate_of = None\<rparr>,
       set_raw_events (raw_events sample_db @
         [new_raw_event 7 (Ts 10) ''maersk'' sample_payload sample_hash None Pending]) sample_db)"
    by (subst insert_raw_event_new [OF sample_canonical_hash])
       (simp_all add: varchar_def primaries_def sample_request_def)
  from ingest_webhook_accepted [OF _ _ body ins] have "ingest_webhook sample_dumps sample_loads default_settings
      (?env\<lparr>rq_fault := None\<rparr>) ''maersk'' [7] sample_db =
      (Inr \<lparr>ack_raw_event_id = 7, ack_duplicate = False, ack_duplicate_of = None\<rparr>,
       set_raw_events (raw_events sample_db @
         [new_raw_event 7 (Ts 10) ''maersk'' sample_payload sample_hash None Pending]) sample_db)"
    unfolding env by (simp add: valid_vendor_def vendor_char_def sample_request_def)
  from acknowledged_webhook_lost [OF _ _ this] show ?thesis by (simp add: sample_request_def)
qed

text \<open>
  C26. The content hash is 64 lower-case hexadecimal digits and does not depend on the order of the keys,
  at any depth.
\<close>

theorem hash_ignores_key_order:
  assumes "sorts_keys dumps" and "wf_json p" and "key_permuted p q" and "canonical_hash dumps p = Inr h"
  shows "canonical_hash dumps q = Inr h \<and> length h = 64 \<and> set h \<subseteq> set hex_digits"
  using canonical_hash_permuted [OF assms(1-3)] canonical_hash_format [OF assms(4)] assms(4) by simp

theorem hash_ignores_key_order_witness:
  "canonical_hash sample_dumps (JObj [(''b'', JInt 2), (''a'', JInt 1)]) =
     Inr ''43258cff783fe7036d8a43033f830adfc60ec037382473548ac742b888292777''"
proof -
  have "key_permuted (JObj [(''a'', JInt 1), (''b'', JInt 2)]) (JObj [(''b'', JInt 2), (''a'', JInt 1)])"
    by (simp add: key_permuted_obj)
  from hash_ignores_key_order [OF sample_sorts_keys _ this canonical_hash_of]
  show ?thesis by (simp add: hash_of_example)
qed

section \<open>Classification\<close>

text \<open>
  C27. Whatever the model returns, an event that leaves \<open>classify\<close> satisfies the constraints of the schema,
  given that the instances of the event class the structured output returns were validated when built.
\<close>

theorem classify_returns_valid:
  assumes "\<forall>ms ev. structured ms = Inr (EventInstance ev) \<longrightarrow> wf_event ev"
    and "classify sc dumps structured p = Inr ev"
  shows "wf_event ev"
  using assms classify_wf [of structured] by blast

definition sample_answer :: json where
  "sample_answer = JObj
     [(''vendor'', JStr ''MAEU''), (''event_at'', JInt 50),
      (''payload'', JObj
        [(''canonical_state'', JStr ''OUT_FOR_DELIVERY''), (''vendor_milestone'', JStr ''on truck''),
         (''transport_doc_number'', JStr ''T1''), (''reason'', JNull)])]"

theorem classify_returns_valid_witness:
  "\<exists>ev. classify sample_scalars sample_dumps (\<lambda>_. Inr (OtherResult sample_answer)) sample_payload = Inr ev \<and>
     wf_event ev \<and> external_ref ev = Some ''T1'' \<and> ne_confidence ev = 1"
proof -
  let ?ev = "\<lparr>ne_vendor = ''MAEU'', ne_event_at = at_time 50, ne_confidence = 1,
     ne_payload = ShipmentOutForDeliveryPayload
       \<lparr>extras = [], s_vendor_milestone = ''on truck'', transport_doc_number = ''T1'', container_id = None,
        destination_port_code = None, destination_port_name = None\<rparr>\<rparr>"
  have valid: "model_validate sample_scalars sample_answer = Inr ?ev"
    by (simp add: sample_answer_def required_def defaulted_def v_str_def v_datetime_def sample_scalars_def
        at_time_def union_tags_def ALL_CANONICAL_STATES_def SHIPMENT_STATES_def INVOICE_STATES_def
        v_member_def v_out_for_delivery_def v_shipment_base_def v_literal_def
        shipment_payload_base.defs shipment_out_for_delivery.defs)
  then have run: "classify sample_scalars sample_dumps (\<lambda>_. Inr (OtherResult sample_answer))
      sample_payload = Inr ?ev"
    by (simp add: classify_def sample_dumps_def)
  from classify_returns_valid [OF _ run] have "wf_event ?ev" by simp
  with run show ?thesis by (intro exI [of _ ?ev]) (simp add: external_ref_def)
qed

text \<open>
  C28. A field the state requires and the payload lacks is reported as missing, by state and field name.
\<close>

theorem missing_field_reported:
  assumes "map_of d ''payload'' = Some (JObj p)" and "map_of p ''canonical_state'' = Some (JStr tag)"
    and "tag \<in> set union_tags" and "k \<in> set (required_fields tag)" and "map_of p k = None"
  shows "\<exists>es. model_validate sc (JObj d) = Inl es \<and>
    VError [LKey ''payload'', LKey tag, LKey k] ''missing'' \<in> set es"
proof -
  have "VError [LKey ''payload'', LKey tag, LKey k] ''missing'' \<in>
      set (errors (required d ''payload'' (validate_payload sc)))"
    using validate_payload_missing [OF assms(2-5), of sc] assms(1)
    by (auto simp: required_def image_iff intro!: bexI [rotated])
  then show ?thesis by (rule payload_error_reported)
qed

theorem missing_field_reported_witness:
  "\<exists>es. model_validate sample_scalars (JObj [(''payload'', JObj [(''canonical_state'', JStr ''PAID'')])]) = Inl es \<and>
     VError [LKey ''payload'', LKey ''PAID'', LKey ''settled_at''] ''missing'' \<in> set es"
  by (rule missing_field_reported [where p = "[(''canonical_state'', JStr ''PAID'')]"])
     (simp_all add: union_tags_def ALL_CANONICAL_STATES_def SHIPMENT_STATES_def INVOICE_STATES_def
       required_fields_simps)

text \<open>
  C29. The prompt and the schema disagree on the shape of the answer: the prompt asks for a single flat
  object, but an object without the nested payload is always rejected.
\<close>

theorem flat_answer_rejected:
  assumes "map_of d ''payload'' = None"
  shows "prompt_output \<in> set prompt_lines \<and> sublist ''a single flat JSON object'' prompt_output \<and>
    (\<exists>es. model_validate sc (JObj d) = Inl es \<and> VError [LKey ''payload''] ''missing'' \<in> set es)"
proof (intro conjI)
  show "prompt_output \<in> set prompt_lines" and "sublist ''a single flat JSON object'' prompt_output"
    by (rule prompt_output_listed)+
  show "\<exists>es. model_validate sc (JObj d) = Inl es \<and> VError [LKey ''payload''] ''missing'' \<in> set es"
    by (rule payload_error_reported) (simp add: errors_required_missing [OF assms])
qed

theorem flat_answer_rejected_witness:
  "\<exists>es. model_validate sample_scalars (JObj
       [(''canonical_state'', JStr ''DELIVERED''), (''vendor'', JStr ''MAEU''), (''event_at'', JInt 50),
        (''vendor_milestone'', JStr ''gate-out''), (''transport_doc_number'', JStr ''T1'')]) = Inl es \<and>
     VError [LKey ''payload''] ''missing'' \<in> set es"
  using flat_answer_rejected [of "[(''canonical_state'', JStr ''DELIVERED''), (''vendor'', JStr ''MAEU''),
      (''event_at'', JInt 50), (''vendor_milestone'', JStr ''gate-out''), (''transport_doc_number'', JStr ''T1'')]"
      sample_scalars]
  by simp

text \<open>
  C30. The attributes stored for an event determine it: validating them gives the payload back.
\<close>

theorem attributes_roundtrip:
  assumes "wf_event e" and "scalars_roundtrip sc (ne_payload e)"
  shows "validate_payload sc (event_attributes sc e) = Inr (ne_payload e)"
  using validate_payload_dump assms by (simp add: wf_event_def event_attributes_def)

theorem attributes_roundtrip_witness:
  "validate_payload sample_scalars (event_attributes sample_scalars (paid ''I1'' 70)) =
     Inr (ne_payload (paid ''I1'' 70))"
proof -
  have "scalars_roundtrip sample_scalars (ne_payload (paid ''I1'' 70))"
    by (simp add: scalars_roundtrip_def paid_def sample_scalars_def at_time_def)
  from attributes_roundtrip [OF _ this] show ?thesis by (simp add: event_wf)
qed

section \<open>Reading\<close>

text \<open>
  C31. In every reachable state, unlocked updates included, the shipment endpoint answers 404 for an unknown
  id; otherwise it lists the shipment's whole history in chronological order, and the time it shows as
  the last event's is not before any event of it. As long as no raw event that is already in a history
  has been persisted again (C39 shows that it can be, and what follows), the state, time and attributes
  it shows are those of a latest event of the history, and a shipment without events has no state.
\<close>

theorem shipment_shows_latest:
  assumes "unlocked_reachable cx u"
  shows "case row_lookup en_id (shipments (us_db u)) i of
      None \<Rightarrow> get_shipment_route tie i (us_db u) = (Inl (HTTPException 404 ''shipment not found''), us_db u)
    | Some e \<Rightarrow> \<exists>vs. get_shipment_route tie i (us_db u) = (Inr (shipment_out e vs), us_db u) \<and>
        mset vs = mset (history ShipmentKind i (us_db u)) \<and> sorted (map ev_event_at vs) \<and>
        (\<forall>v \<in> set vs. \<exists>t. en_last_event_at e = Some t \<and> ev_event_at v \<le> t) \<and>
        (once_reachable cx u \<longrightarrow>
           (if vs = [] then en_current_state e = None \<and> en_last_event_at e = None
            else en_last_event_at e = Some (ev_event_at (last vs)) \<and>
              (\<exists>v \<in> set vs. ev_event_at v = ev_event_at (last vs) \<and>
                 en_current_state e = Some (ev_canonical_state v) \<and> en_attributes e = ev_attributes v)))"
proof (cases "row_lookup en_id (shipments (us_db u)) i")
  case None
  then show ?thesis by (simp add: get_shipment_route_result)
next
  case (Some e)
  let ?d = "us_db u"
  have e: "e \<in> set (entities ShipmentKind ?d)" "en_id e = i" using row_lookup_Some [OF Some] by simp_all
  let ?vs = "chronological tie (history ShipmentKind i ?d)"
  have "get_shipment_route tie i ?d = (Inr (shipment_out e ?vs), ?d)"
    using Some by (simp add: get_shipment_route_result)
  moreover have "mset ?vs = mset (history ShipmentKind i ?d)" by (rule mset_chronological)
  moreover have "sorted (map ev_event_at ?vs)" by (rule sorted_chronological)
  moreover have "\<forall>v \<in> set ?vs. \<exists>t. en_last_event_at e = Some t \<and> ev_event_at v \<le> t"
    using last_event.unlocked_invariant [OF assms, unfolded history_bound_def, THEN spec, of ShipmentKind] e
    unfolding set_chronological by (auto simp: history_def)
  moreover have "shows_latest e ?vs" if "once_reachable cx u"
    using replay_shows_latest [OF entity_rows.unlocked_invariant [OF assms] once_replay [OF that] e(1), of tie]
    unfolding e(2) .
  ultimately show ?thesis unfolding Some option.case shows_latest_def by blast
qed

theorem shipment_shows_latest_witness:
  "\<exists>u i e vs. unlocked_reachable sample_context u \<and>
     get_shipment_route (\<lambda>_. 0) i (us_db u) = (Inr (shipment_out e vs), us_db u) \<and>
     en_current_state e = Some ''PICKED_UP'' \<and> (\<exists>v \<in> set vs. ev_canonical_state v = ''PICKED_UP'')"
proof (rule run_once)
  fix d
  let ?u = "\<lparr>us_system = \<lparr>sys_db = d, sys_tasks = []\<rparr>, us_open = []\<rparr>"
  assume once: "once_reachable sample_context ?u"
    and "entity_view ShipmentKind d (''maersk'', ''T1'') = Some (event_latest sample_scalars (picked_up ''T1'' 50))"
  note reach = once_unlocked [OF once]
  then obtain e where e: "row_lookup natural_key (shipments d) (''maersk'', ''T1'') = Some e"
    and view: "projection e = Some (event_latest sample_scalars (picked_up ''T1'' 50))"
    using \<open>entity_view ShipmentKind d _ = _\<close> by (auto simp: entity_view_def bind_eq_Some_conv)
  have "kind_schema_ok ShipmentKind d" using unlocked_schema [OF reach] by (simp add: schema_ok_def)
  then have "distinct (map en_id (shipments d))" by (simp add: kind_schema_ok_def)
  from row_lookup_in [OF this, of e] row_lookup_Some [OF e]
  have "row_lookup en_id (shipments (us_db ?u)) (en_id e) = Some e" by simp
  with shipment_shows_latest [OF reach, where i = "en_id e" and tie = "\<lambda>_. 0"] once projection_Some [OF view]
  obtain vs where "get_shipment_route (\<lambda>_. 0) (en_id e) (us_db ?u) = (Inr (shipment_out e vs), us_db ?u)"
    and "\<exists>v \<in> set vs. en_current_state e = Some (ev_canonical_state v)"
    by (auto split: if_splits)
  with projection_Some [OF view] reach show ?thesis
    by (intro exI [of _ ?u] exI [of _ "en_id e"] exI [of _ e] exI [of _ vs]) (auto simp: event_latest_def)
qed

section \<open>The operator's endpoint\<close>

text \<open>
  C32. The retry endpoint answers 404 for an unknown id and 409 for a duplicate or processed row, without
  changing anything. For any other row whose attempts have room for one more, the answer is 502 with the
  exception when a phase of the retry raises: the takeover (then nothing has changed), the classifier or
  the persist (the row is pending with the error recorded), the recording of their error (the row stays in
  processing, with its lock time), or the reading back of a row that has been processed. Otherwise the row
  is processed, its attempt counted, and the endpoint reports it, with the state of an event logged for it
  if it names one, or raises what its last query does. The classifier and the commits do not raise
  the two exceptions of the retry that have answers of their own.
\<close>

theorem retry_endpoint_answers:
  assumes "schema_ok d" and "plain_faults env"
    and "\<forall>r \<in> set (raw_events d). re_id r = i \<longrightarrow> 0 \<le> re_attempts r \<and> re_attempts r + 1 < 2 ^ 31"
    and "\<forall>p exc. cl p = Inl exc \<longrightarrow> \<not> retry_signal exc"
    and "retry_endpoint sc repr sh cfg cl env fault i d = (out, d')"
  shows "case row_lookup re_id (raw_events d) i of
      None \<Rightarrow> out = Inl (HTTPException 404 (''raw_event '' @ sh (Some i) @ '' not found'')) \<and> d' = d
    | Some r \<Rightarrow>
        if re_status r = Duplicate \<or> re_status r = Processed
        then out = Inl (HTTPException 409
               (if re_status r = Duplicate
                then ''row is a duplicate of '' @ sh (re_duplicate_of_id r) @ ''; retry the parent instead''
                else ''row is already processed; nothing to retry'')) \<and> d' = d
        else case rt_acquire_fault env of
          Some e \<Rightarrow> out = Inl (HTTPException 502 (''retry failed: '' @ repr e)) \<and> d' = d
        | None \<Rightarrow> \<exists>r' \<in> set (raw_events d'). re_id r' = i \<and> re_attempts r' = re_attempts r + 1 \<and>
            (case retry_process sc cfg env i (cl (re_payload r)) (acquired_db (rt_acquire_now env) i d) of
               (Inl exc, _) \<Rightarrow>
                 (case rt_record_fault env of
                    None \<Rightarrow> out = Inl (HTTPException 502 (''retry failed: '' @ repr exc)) \<and>
                      re_status r' = Pending \<and>
                      re_last_error r' = Some (py_prefix 2000 (''manual retry: '' @ repr exc))
                  | Some e \<Rightarrow> out = Inl (HTTPException 502 (''retry failed: '' @ repr e)) \<and>
                      re_status r' = Processing \<and> re_locked_at r' = Some (rt_acquire_now env))
             | (Inr _, _) \<Rightarrow> re_status r' = Processed \<and>
                 (case rt_read_fault env of
                    Some e \<Rightarrow> out = Inl (HTTPException 502 (''retry failed: '' @ repr e))
                  | None \<Rightarrow>
                      (case fault of
                         Some e \<Rightarrow> out = Inl e
                       | None \<Rightarrow> \<exists>res. out = Inr res \<and> rr_raw_event_id res = i \<and>
                           rr_status res = ''processed'' \<and> rr_attempts res = re_attempts r + 1 \<and>
                           rr_last_error res = re_last_error r' \<and>
                           (\<forall>st. rr_canonical_state res = Some st \<longrightarrow>
                              (\<exists>k. \<exists>v \<in> set (entity_events k d').
                                 ev_raw_event_id v = i \<and> ev_canonical_state v = st)))))"
proof (cases "row_lookup re_id (raw_events d) i")
  case None
  with retry_endpoint_missing [OF None assms(5)] show ?thesis by simp
next
  case (Some r)
  note r = row_lookup_Some [OF Some]
  show ?thesis
  proof (cases "re_status r = Duplicate \<or> re_status r = Processed")
    case True
    with Some retry_endpoint_refused [OF Some True assms(5)] show ?thesis by (simp del: append.simps)
  next
    case False
    have st: "re_status r \<noteq> Duplicate" "re_status r \<noteq> Processed" using False by simp_all
    have att: "0 \<le> re_attempts r" "re_attempts r + 1 < 2 ^ 31" using assms(3) r by simp_all
    have cl: "\<forall>exc. cl (re_payload r) = Inl exc \<longrightarrow> \<not> retry_signal exc" using assms(4) by blast
    obtain proc d2 where proc: "retry_process sc cfg env i (cl (re_payload r))
        (acquired_db (rt_acquire_now env) i d) = (proc, d2)" by fastforce
    have logged: "\<exists>k. \<exists>v \<in> set (entity_events k d'). ev_raw_event_id v = i \<and> ev_canonical_state v = st"
      if "map_option fst (logged_state d' i) = Some st" for st
      using that logged_state_logged [of d' i st] by (cases "logged_state d' i") auto
    show ?thesis
    proof (rule retry_endpoint_cases [OF assms(1) _ _ st att assms(2) cl assms(5), of proc])
      show "proc = fst (retry_process sc cfg env i (cl (re_payload r)) (acquired_db (rt_acquire_now env) i d))"
        by (simp add: proc)
      show "r \<in> set (raw_events d)" "re_id r = i" using r by simp_all
    next
      fix r'
      assume "rt_acquire_fault env = None" "proc = Inr ()" "r' \<in> set (raw_events d')" "re_id r' = i"
        "re_attempts r' = re_attempts r + 1" "re_status r' = Processed"
        "out = (case rt_read_fault env of
           Some e \<Rightarrow> Inl (HTTPException 502 (''retry failed: '' @ repr e))
         | None \<Rightarrow> (case fault of Some e \<Rightarrow> Inl e | None \<Rightarrow> Inr (retry_report r' d')))"
      with Some False proc logged show ?thesis
        by (cases "rt_read_fault env"; cases fault) (auto simp del: append.simps intro!: bexI [of _ r'])
    qed (use Some False proc in \<open>auto simp del: append.simps intro!: bexI\<close>)
  qed
qed

theorem retry_endpoint_answers_witness:
  "(let answer = (\<lambda>cl i. fst (retry_endpoint sample_scalars sample_repr sample_show default_settings cl
       sample_retry_env None i sample_db))
    in answer (\<lambda>p. Inr advisory) 99 = Inl (HTTPException 404 ''raw_event 99 not found'') \<and>
       answer (\<lambda>p. Inr advisory) 5 =
         Inl (HTTPException 409 ''row is already processed; nothing to retry'') \<and>
       answer (\<lambda>p. Inl OverflowError) 6 = Inl (HTTPException 502 ''retry failed: Error()'') \<and>
       (\<exists>res. answer (\<lambda>p. Inr advisory) 6 = Inr res \<and> rr_status res = ''processed'' \<and> rr_attempts res = 6))"
proof -
  let ?d = "acquired_db (rt_acquire_now sample_retry_env) 6 sample_db"
  have att: "\<forall>r \<in> set (raw_events sample_db). re_id r = i \<longrightarrow> 0 \<le> re_attempts r \<and> re_attempts r + 1 < 2 ^ 31"
    for i by simp
  have cl: "\<forall>p exc. Inl OverflowError = (Inl exc :: exn + normalized_event) \<longrightarrow> \<not> retry_signal exc"
    and cl': "\<forall>p exc. Inr advisory = (Inl exc :: exn + normalized_event) \<longrightarrow> \<not> retry_signal exc" by auto
  note at = retry_endpoint_answers [OF sample_schema sample_plain_faults att _ prod.collapse [symmetric],
      where sc = sample_scalars and repr = sample_repr and sh = sample_show and cfg = default_settings and fault = None]
  have faults: "rt_acquire_fault sample_retry_env = None" "rt_persist_fault sample_retry_env = None"
    "rt_record_fault sample_retry_env = None" "rt_read_fault sample_retry_env = None"
    by (simp_all add: sample_retry_env_def)
  have rows: "row_lookup re_id (raw_events sample_db) 99 = None"
    "row_lookup re_id (raw_events sample_db) 5 = Some (sample_row 5 5 ''d'' Processed)"
    "row_lookup re_id (raw_events sample_db) 6 = Some (sample_row 6 4 ''e'' Failed)"
    by (simp_all add: row_lookup_def)
  have "schema_ok ?d" by (rule acquire_applies(2) [OF sample_schema, of "sample_row 6 4 ''e'' Failed"]) simp_all
  moreover have "6 \<in> re_id ` set (raw_events ?d)" by (simp add: row_update_def)
  ultimately have "fst (retry_process sample_scalars default_settings sample_retry_env 6 (Inr advisory) ?d) = Inr ()"
    by (rule retry_process_unclassified [OF _ _ faults(2) advisory_payload])
  then obtain d2 where ok: "retry_process sample_scalars default_settings sample_retry_env 6 (Inr advisory) ?d =
      (Inr (), d2)" by (metis prod.collapse)
  have bad: "retry_process sample_scalars default_settings sample_retry_env 6 (Inl OverflowError) ?d =
      (Inl OverflowError, ?d)" by (simp add: retry_process_def tx_raise_def)
  have number: "show_nat 99 = ''99''" by code_simp
  show ?thesis
    unfolding Let_def
  proof (intro conjI)
    show "fst (retry_endpoint sample_scalars sample_repr sample_show default_settings (\<lambda>p. Inr advisory)
        sample_retry_env None 99 sample_db) = Inl (HTTPException 404 ''raw_event 99 not found'')"
      using at [OF cl', where i = 99] rows(1) number by (simp add: sample_show_def)
    show "fst (retry_endpoint sample_scalars sample_repr sample_show default_settings (\<lambda>p. Inr advisory)
        sample_retry_env None 5 sample_db) =
        Inl (HTTPException 409 ''row is already processed; nothing to retry'')"
      using at [OF cl', where i = 5] rows(2) by simp
    show "fst (retry_endpoint sample_scalars sample_repr sample_show default_settings (\<lambda>p. Inl OverflowError)
        sample_retry_env None 6 sample_db) = Inl (HTTPException 502 ''retry failed: Error()'')"
      using at [OF cl, where i = 6] rows(3) bad faults by (auto simp: sample_repr_def simp del: sample_db_tables)
    show "\<exists>res. fst (retry_endpoint sample_scalars sample_repr sample_show default_settings (\<lambda>p. Inr advisory)
        sample_retry_env None 6 sample_db) = Inr res \<and> rr_status res = ''processed'' \<and> rr_attempts res = 6"
      using at [OF cl', where i = 6] rows(3) ok faults by (auto simp del: sample_db_tables)
  qed
qed

text \<open>
  C33. The API changes the database only where it says so: a request after which the database differs was
  a \<open>POST\<close> to \<^verbatim>\<open>/api/v1/webhooks/{vendor}\<close> with a valid vendor, answered with 202, or a \<open>POST\<close> to
  \<^verbatim>\<open>/api/v1/raw-events/{id}/retry\<close> with an id. Every \<open>GET\<close>, every unknown route and every refused webhook
  leaves it as it is.
\<close>

theorem only_two_routes_write:
  assumes "app_db (snd (serve cx web env req app)) \<noteq> app_db app"
  shows "hr_method req = ''POST'' \<and>
    ((\<exists>v. hr_path req = [''api'', ''v1'', ''webhooks'', v] \<and> valid_vendor v \<and>
       hs_status (fst (serve cx web env req app)) = 202) \<or>
     (\<exists>s i. hr_path req = [''api'', ''v1'', ''raw-events'', s, ''retry''] \<and> wp_parse_uuid web s = Some i))"
  using assms
proof (cases rule: serve_read)
  case (webhook v)
  with serve_webhook [OF webhook assms] show ?thesis by (simp add: find_route_app)
next
  case (retry s)
  with serve_retry_uuid [OF retry assms] show ?thesis by (simp add: find_route_app)
qed

theorem only_two_routes_write_witness:
  "hs_status (fst (serve sample_context sample_web sample_serve_env
     \<lparr>hr_method = ''POST'', hr_path = [''api'', ''v1'', ''webhooks'', ''maersk''], hr_body = [7]\<rparr>
     \<lparr>app_db = empty_db, app_classifier = None\<rparr>)) = 202"
proof -
  let ?req = "\<lparr>hr_method = ''POST'', hr_path = [''api'', ''v1'', ''webhooks'', ''maersk''], hr_body = [7]\<rparr>"
  let ?app = "\<lparr>app_db = empty_db, app_classifier = None\<rparr>"
  have "raw_events (app_db (snd (serve sample_context sample_web sample_serve_env ?req ?app))) = [first_row]"
    unfolding sample_serve by simp
  then have "app_db (snd (serve sample_context sample_web sample_serve_env ?req ?app)) \<noteq> app_db ?app"
    by (auto simp: empty_db_def)
  from only_two_routes_write [OF this] show ?thesis by simp
qed

section \<open>The schema\<close>

text \<open>
  C34. The three upgrades, run on an empty database, create the tables the models describe, and the
  downgrades remove them again; the extension stays. Offline, Alembic writes a script that does the same
  and leaves the database alone.
\<close>

theorem migrations_match_models:
  "\<exists>m. alembic_upgrade False None \<lparr>al_db = empty_migration_db, al_script = [], al_open_engines = 0\<rparr> =
       (Inr (), \<lparr>al_db = m, al_script = [], al_open_engines = 0\<rparr>) \<and>
     mg_version m = Some ''0003'' \<and> list_all2 same_table (sc_tables (mg_schema m)) models \<and>
     downgrade_to_base m =
       (Inr (), \<lparr>mg_schema = \<lparr>sc_extensions = [''pgcrypto''], sc_tables = []\<rparr>, mg_version = None\<rparr>) \<and>
     (\<exists>script. alembic_upgrade True connect \<lparr>al_db = d, al_script = [], al_open_engines = 0\<rparr> =
         (Inr (), \<lparr>al_db = d, al_script = script, al_open_engines = 0\<rparr>) \<and>
       run_ops script empty_schema = Inr (mg_schema m))"
proof (intro exI conjI)
  let ?m = "\<lparr>mg_schema = schema_at upgrade_head, mg_version = Some ''0003''\<rparr>"
  have up: "upgrade_to_head empty_migration_db = (Inr (), ?m)" by code_simp
  from alembic_online [of "\<lparr>al_db = empty_migration_db, al_script = [], al_open_engines = 0\<rparr>", simplified, OF up]
  show "alembic_upgrade False None \<lparr>al_db = empty_migration_db, al_script = [], al_open_engines = 0\<rparr> =
      (Inr (), \<lparr>al_db = ?m, al_script = [], al_open_engines = 0\<rparr>)" by simp
  show "list_all2 same_table (sc_tables (mg_schema ?m)) models" by code_simp
  show "downgrade_to_base ?m =
      (Inr (), \<lparr>mg_schema = \<lparr>sc_extensions = [''pgcrypto''], sc_tables = []\<rparr>, mg_version = None\<rparr>)"
    by code_simp
  show "alembic_upgrade True connect \<lparr>al_db = d, al_script = [], al_open_engines = 0\<rparr> =
      (Inr (), \<lparr>al_db = d, al_script = upgrade_head, al_open_engines = 0\<rparr>)" by (simp add: alembic_offline)
  show "run_ops upgrade_head empty_schema = Inr (mg_schema ?m)" by (rule upgrade_from_empty [OF up])
qed simp

text \<open>
  C35. A database at the first revision cannot be upgraded once its inbox has rows: the second revision
  adds a column without a default that may not be null. The upgrade fails as a whole.
\<close>

theorem upgrade_0002_needs_empty_inbox:
  "upgrade_to_head \<lparr>mg_schema = with_rows ''raw_events'' rows (schema_at upgrade_0001), mg_version = Some ''0001''\<rparr> =
    (if rows = [] then (Inr (), \<lparr>mg_schema = schema_at upgrade_head, mg_version = Some ''0003''\<rparr>)
     else (Inl ''NotNullViolation'',
       \<lparr>mg_schema = with_rows ''raw_events'' rows (schema_at upgrade_0001), mg_version = Some ''0001''\<rparr>))"
proof -
  let ?m = "\<lambda>rows. \<lparr>mg_schema = with_rows ''raw_events'' rows (schema_at upgrade_0001), mg_version = Some ''0001''\<rparr>"
  have "upgrade_to_head (?m []) = (Inr (), \<lparr>mg_schema = schema_at upgrade_head, mg_version = Some ''0003''\<rparr>)"
    by code_simp
  moreover have "fst (upgrade_to_head (?m (r # rs))) = Inl ''NotNullViolation''" for r rs
    by code_simp
  then have "upgrade_to_head (?m (r # rs)) = (Inl ''NotNullViolation'', ?m (r # rs))" for r rs
    using run_migrations_atomic unfolding upgrade_to_head_def Let_def by (metis prod.collapse)
  ultimately show ?thesis by (cases rows) simp_all
qed

text \<open>
  C36. A database at the second revision can be upgraded exactly when no two primaries of one vendor have
  the same hash.
\<close>

theorem upgrade_0003_needs_unique_primaries:
  "fst (upgrade_to_head \<lparr>mg_schema = with_rows ''raw_events'' (map (raw_row sh) (raw_events d))
       (schema_at (upgrade_0001 @ upgrade_0002)), mg_version = Some ''0002''\<rparr>) = Inr () \<longleftrightarrow>
   distinct (map dedup_key (primaries d))"
proof -
  let ?s = "with_rows ''raw_events'' (map (raw_row sh) (raw_events d)) (schema_at (upgrade_0001 @ upgrade_0002))"
  have path: "concat (map rev_upgrade (upgrades_from (length revisions) (Some ''0002''))) = upgrade_0003"
    by (simp add: revisions_def)
  have "fst (upgrade_to_head \<lparr>mg_schema = ?s, mg_version = Some ''0002''\<rparr>) = Inr () \<longleftrightarrow>
      (\<exists>s. run_ops upgrade_0003 ?s = Inr s)"
    by (simp add: upgrade_to_head_def run_migrations_def path Let_def split: sum.split)
  then show ?thesis unfolding primaries_def upgrade_0003_rows .
qed

section \<open>The engine\<close>

section \<open>Where the code falls short of its documents\<close>

text \<open>
  C37. Interference is the only thing that goes wrong without the lock: a run in which no row is changed
  between a transaction's load and its commit is a run of the serial system, in which each transaction
  takes effect at its commit and is still to be done until then. The serial system is exactly the part of
  such runs that leaves no transaction open.
\<close>

theorem undisturbed_is_serial:
  assumes "calm_reachable cx u"
  shows "reachable cx \<lparr>sys_db = us_db u, sys_tasks = sys_tasks (us_system u) @ map ot_task (us_open u)\<rparr> \<and>
    (reachable cx s = calm_reachable cx \<lparr>us_system = s, us_open = []\<rparr>)"
proof
  show "reachable cx \<lparr>sys_db = us_db u, sys_tasks = sys_tasks (us_system u) @ map ot_task (us_open u)\<rparr>"
    using calm_is_serial [OF assms] by (simp add: serial_state_def)
  have "reachable cx s" if "calm_reachable cx \<lparr>us_system = s, us_open = []\<rparr>"
    using calm_is_serial [OF that] by (cases s) (simp add: serial_state_def)
  then show "reachable cx s = calm_reachable cx \<lparr>us_system = s, us_open = []\<rparr>" using reachable_calm by blast
qed

theorem undisturbed_is_serial_witness:
  "\<exists>u r. calm_reachable sample_context u \<and> raw_events (us_db u) = [r] \<and> re_attempts r = 1 \<and>
     reachable sample_context \<lparr>sys_db = us_db u, sys_tasks = []\<rparr>"
proof (rule run_calm_failure)
  fix d r
  let ?u = "\<lparr>us_system = \<lparr>sys_db = d, sys_tasks = []\<rparr>, us_open = []\<rparr>"
  assume calm: "calm_reachable sample_context ?u" and r: "raw_events d = [r]" "re_attempts r = 1"
  from undisturbed_is_serial [OF calm] calm r show ?thesis by (intro exI [of _ ?u] exI [of _ r]) simp
qed

text \<open>
  C38. A processed row can return to the queue: a worker whose claim was reaped while it waited for the
  model still records its failure on the row another worker has processed since.
\<close>

theorem processed_row_requeued:
  "\<exists>s s' r r'. reachable sample_context s \<and> sys_step sample_context s s' \<and>
     r \<in> set (raw_events (sys_db s)) \<and> r' \<in> set (raw_events (sys_db s')) \<and> re_id r' = re_id r \<and>
     re_status r = Processed \<and> re_status r' = Pending"
  by (rule run_slow_worker) force

text \<open>
  C39. Processing such a row again under another classification leaves one raw event in the histories of a
  shipment and of an invoice, or moves a shipment to a state no event of its history has.
\<close>

theorem reprocessing_splits_history:
  "(\<exists>d v w. reachable sample_context \<lparr>sys_db = d, sys_tasks = []\<rparr> \<and> v \<in> set (shipment_events d) \<and>
      w \<in> set (invoice_events d) \<and> ev_raw_event_id v = ev_raw_event_id w) \<and>
   (\<exists>d n x. reachable sample_context \<lparr>sys_db = d, sys_tasks = []\<rparr> \<and> entity_view ShipmentKind d n = Some x \<and>
      lt_state x \<notin> ev_canonical_state ` set (shipment_events d))"
proof (intro conjI)
  show "\<exists>d v w. reachable sample_context \<lparr>sys_db = d, sys_tasks = []\<rparr> \<and> v \<in> set (shipment_events d) \<and>
      w \<in> set (invoice_events d) \<and> ev_raw_event_id v = ev_raw_event_id w"
    by (rule run_two_histories) force
  show "\<exists>d n x. reachable sample_context \<lparr>sys_db = d, sys_tasks = []\<rparr> \<and> entity_view ShipmentKind d n = Some x \<and>
      lt_state x \<notin> ev_canonical_state ` set (shipment_events d)"
  proof (rule run_state_without_event)
    fix d
    let ?x = "event_latest sample_scalars (delivered ''T1'' 90)"
    assume "reachable sample_context \<lparr>sys_db = d, sys_tasks = []\<rparr>"
      and "entity_view ShipmentKind d (''maersk'', ''T1'') = Some ?x"
      and "\<forall>v \<in> set (shipment_events d). ev_canonical_state v = ''PICKED_UP''"
    then show ?thesis
      by (intro exI [of _ d] exI [of _ "(''maersk'', ''T1'')"] exI [of _ ?x]) (auto simp: event_latest_def)
  qed
qed

text \<open>
  C40. \<open>mark_failed\<close> loads its row without a lock. Steps of the serial system and one such transaction, in
  which a worker records its failure while another claims the row, strand the row: it is in processing
  without a lock time and without anyone working on it. No reaper releases it and no worker claims it; in
  every reachable state that strands a row, each step of any process leaves it stranded, unless it is the
  takeover of that row by an operator's retry, and such a retry gets it out. This is why C3 speaks of lock times only
  in runs without interference.
\<close>

theorem unlocked_update_strands_row:
  "(\<exists>s1 x err s2 s3 s4 s r.
      reachable sample_context s1 \<and>
      unlocked_step sample_context \<lparr>us_system = s1, us_open = []\<rparr> \<lparr>us_system = s2, us_open = [x]\<rparr> \<and>
      ot_task x = WorkerFail (re_id r) err \<and> sys_step sample_context s2 s3 \<and>
      unlocked_step sample_context \<lparr>us_system = s3, us_open = [x]\<rparr> \<lparr>us_system = s4, us_open = []\<rparr> \<and>
      sys_step sample_context s4 s \<and> raw_events (sys_db s) = [r] \<and>
      stranded r \<lparr>us_system = s, us_open = []\<rparr> \<and>
      (\<forall>now. snd (reap_stale None default_settings now (sys_db s)) = sys_db s) \<and>
      (\<forall>tie locked t m. claim_one tie locked t m (sys_db s) = (Inr None, sys_db s)) \<and>
      (\<exists>r'. fst (retry_raw_event sample_scalars sample_repr sample_show default_settings (\<lambda>p. Inr advisory)
         sample_retry_env (re_id r) (sys_db s)) = Inr r' \<and> re_id r' = re_id r \<and> re_status r' = Processed)) \<and>
   (\<forall>u u' r. unlocked_reachable cx u \<and> stranded r u \<and> unlocked_step cx u u' \<longrightarrow>
      stranded r u' \<or> taken_over r u')"
    (is "?strands \<and> ?stays")
proof (intro conjI)
  show ?stays
    using stranded_step unlocked_base_reachable by blast
next
  obtain s1 x err s2 s3 s4 d r where
    s1: "reachable sample_context s1"
    and load: "unlocked_step sample_context \<lparr>us_system = s1, us_open = []\<rparr> \<lparr>us_system = s2, us_open = [x]\<rparr>"
    and x: "ot_task x = WorkerFail 7 err" and claim: "sys_step sample_context s2 s3"
    and flush: "unlocked_step sample_context \<lparr>us_system = s3, us_open = [x]\<rparr> \<lparr>us_system = s4, us_open = []\<rparr>"
    and crash: "sys_step sample_context s4 \<lparr>sys_db = d, sys_tasks = []\<rparr>"
    and row: "raw_events d = [r]" and r: "re_id r = 7" "re_status r = Processing" "re_locked_at r = None"
      "re_attempts r = 2"
    by (rule run_strands)
  let ?s = "\<lparr>sys_db = d, sys_tasks = []\<rparr>"
  from unlocked_run [OF unlocked_more [OF reachable_unlocked [OF s1] load] claim]
  have "unlocked_reachable sample_context \<lparr>us_system = s3, us_open = [x]\<rparr>" .
  from unlocked_schema [OF unlocked_run [OF unlocked_more [OF this flush] crash]]
  have d: "schema_ok d" by simp
  have "stranded r \<lparr>us_system = ?s, us_open = []\<rparr>" using row r by (simp add: stranded_def)
  moreover note stranded_row [OF d row r(2,3)]
  moreover have "\<exists>r'. fst (retry_raw_event sample_scalars sample_repr sample_show default_settings
      (\<lambda>p. Inr advisory) sample_retry_env (re_id r) d) = Inr r' \<and> re_id r' = re_id r \<and> re_status r' = Processed"
    by (rule retry_frees [OF d _ r(2)]) (simp_all add: row r(4))
  ultimately show ?strands
    using s1 load x claim flush crash row r(1)
    by (intro exI [of _ s1] exI [of _ x] exI [of _ err] exI [of _ s2] exI [of _ s3] exI [of _ s4]
        exI [of _ ?s] exI [of _ r]) simp
qed

theorem unlocked_update_strands_row_witness:
  "\<exists>u r. unlocked_reachable sample_context u \<and> stranded r u \<and>
     unlocked_step sample_context u u \<and> (stranded r u \<or> taken_over r u)"
proof (rule run_stranded)
  fix d r
  let ?u = "\<lparr>us_system = \<lparr>sys_db = d, sys_tasks = []\<rparr>, us_open = []\<rparr>"
  assume reach: "unlocked_reachable sample_context ?u" and row: "raw_events d = [r]"
    and "re_status r = Processing" "re_locked_at r = None"
  then have stranded: "stranded r ?u" by (simp add: stranded_def)
  have step: "unlocked_step sample_context ?u ?u" by (rule unlocked_serial [OF step_crash]) simp
  from conjunct2 [OF unlocked_update_strands_row, of sample_context] reach stranded step show ?thesis by blast
qed

end
